(* ===== verification/Codec.thy ===== *)
theory Codec
  imports Prelude
begin

text \<open>
  The interface between a byte stream and what is framed on it.  A receiver appends the bytes of
  each read to a buffer and takes complete items off its front until none is left
  (\<open>Session::on_data\<close>, \<open>Client::on_server_data\<close> and the data-connection readers all have this
  shape).  \<open>decode_all\<close> is that loop over one decoder; the locales state what a decoder promises
  and prove, once, what the loop then delivers.
\<close>

fun decode_all :: "nat \<Rightarrow> (bytes \<Rightarrow> ('a \<times> bytes) option) \<Rightarrow> bytes \<Rightarrow> 'a list \<times> bytes" where
  "decode_all 0 dec buf = ([], buf)"
| "decode_all (Suc n) dec buf =
     (case dec buf of
        None \<Rightarrow> ([], buf)
      | Some (x, rest) \<Rightarrow> (let (xs, r) = decode_all n dec rest in (x # xs, r)))"

text \<open>One read of the receiver, and a sequence of reads: the items delivered and the buffer kept.\<close>

definition feed :: "(bytes \<Rightarrow> ('a \<times> bytes) option) \<Rightarrow> bytes \<Rightarrow> bytes \<Rightarrow> 'a list \<times> bytes" where
  "feed dec buf seg = decode_all (length (buf @ seg)) dec (buf @ seg)"

fun feeds :: "(bytes \<Rightarrow> ('a \<times> bytes) option) \<Rightarrow> bytes \<Rightarrow> bytes list \<Rightarrow> 'a list \<times> bytes" where
  "feeds dec buf [] = ([], buf)"
| "feeds dec buf (seg # segs) =
     (let (xs, r) = feed dec buf seg; (ys, r') = feeds dec r segs in (xs @ ys, r'))"

locale stream_codec =
  fixes enc :: "'a \<Rightarrow> bytes"
    and dec :: "bytes \<Rightarrow> ('a \<times> bytes) option"
    and ok :: "'a \<Rightarrow> bool"
    and limit :: nat
  assumes dec_enc: "ok x \<Longrightarrow> length (enc x @ rest) < limit \<Longrightarrow> dec (enc x @ rest) = Some (x, rest)"
    and enc_nonempty: "ok x \<Longrightarrow> enc x \<noteq> []"
    and dec_Nil: "dec [] = None"
begin

abbreviation enc_all :: "'a list \<Rightarrow> bytes" where
  "enc_all xs \<equiv> concat (map enc xs)"

lemma length_enc_all: "list_all ok xs \<Longrightarrow> length xs \<le> length (enc_all xs)"
proof (induction xs)
  case (Cons x xs)
  then have "Suc 0 \<le> length (enc x)" by (simp add: enc_nonempty Suc_leI)
  with Cons show ?case by simp
qed simp

lemma decode_all_enc:
  "list_all ok xs \<Longrightarrow> length (enc_all xs @ rest) < limit \<Longrightarrow> length xs \<le> n \<Longrightarrow>
   dec rest = None \<Longrightarrow> decode_all n dec (enc_all xs @ rest) = (xs, rest)"
proof (induction xs arbitrary: n)
  case Nil
  then show ?case by (cases n) simp_all
next
  case (Cons x xs)
  then show ?case by (cases n) (simp_all add: dec_enc)
qed

text \<open>A whole stream delivered in one read gives back its items.\<close>

lemma feed_stream:
  "list_all ok xs \<Longrightarrow> length (enc_all xs) < limit \<Longrightarrow> feed dec [] (enc_all xs) = (xs, [])"
  using decode_all_enc [of xs "[]" "length (enc_all xs)"] length_enc_all [of xs]
  by (simp add: feed_def dec_Nil)

end

text \<open>A decoder that also waits on every proper prefix of an item does not care where reads cut.\<close>

locale prefix_codec = stream_codec +
  assumes dec_prefix: "ok x \<Longrightarrow> n < length (enc x) \<Longrightarrow> dec (take n (enc x)) = None"
begin

lemma stream_prefix:
  assumes "list_all ok xs" and "enc_all xs = seg @ later"
  shows "\<exists>ys zs part. xs = ys @ zs \<and> seg = enc_all ys @ part \<and> dec part = None
           \<and> enc_all zs = part @ later"
  using assms
proof (induction xs arbitrary: seg)
  case Nil
  then show ?case using dec_Nil by simp
next
  case (Cons x xs)
  from Cons.prems have x: "ok x" and xs: "list_all ok xs"
    and eq: "enc x @ enc_all xs = seg @ later" by simp_all
  show ?case
  proof (cases "length seg < length (enc x)")
    case True
    with eq have "seg = take (length seg) (enc x)"
      by (simp add: append_eq_append_conv_if)
    with True x have "dec seg = None" by (metis dec_prefix)
    then have "x # xs = [] @ (x # xs) \<and> seg = enc_all [] @ seg \<and> dec seg = None
        \<and> enc_all (x # xs) = seg @ later"
      using eq by simp
    then show ?thesis by blast
  next
    case False
    with eq have "seg = enc x @ drop (length (enc x)) seg"
      and later: "enc_all xs = drop (length (enc x)) seg @ later"
      by (simp_all add: append_eq_append_conv_if split: if_splits)
        (metis append_take_drop_id)+
    from Cons.IH [OF xs later] obtain ys zs part where
      "xs = ys @ zs" "drop (length (enc x)) seg = enc_all ys @ part" "dec part = None"
      "enc_all zs = part @ later"
      by blast
    then have "x # xs = (x # ys) @ zs \<and> seg = enc_all (x # ys) @ part \<and> dec part = None
        \<and> enc_all zs = part @ later"
      using \<open>seg = enc x @ drop (length (enc x)) seg\<close> by simp
    then show ?thesis by blast
  qed
qed

lemma feeds_buffered:
  assumes "list_all ok xs" and "enc_all xs = buf @ concat segs" and "dec buf = None"
    and "length (enc_all xs) < limit"
  shows "feeds dec buf segs = (xs, [])"
  using assms
proof (induction segs arbitrary: xs buf)
  case Nil
  then show ?case by (cases xs) (auto simp: dec_enc)
next
  case (Cons seg segs)
  from Cons.prems(2) have "enc_all xs = (buf @ seg) @ concat segs" by simp
  from stream_prefix [OF Cons.prems(1) this] obtain ys zs part where
    xs: "xs = ys @ zs" and seg: "buf @ seg = enc_all ys @ part" and part: "dec part = None"
    and zs: "enc_all zs = part @ concat segs"
    by blast
  have ok: "list_all ok ys" "list_all ok zs" using Cons.prems(1) xs by simp_all
  have fits: "length (enc_all ys @ part) < limit" "length (enc_all zs) < limit"
    using Cons.prems(4) xs zs by simp_all
  have "length ys \<le> length (buf @ seg)"
    using length_enc_all [OF ok(1)] seg by simp
  then have "feed dec buf seg = (ys, part)"
    unfolding feed_def
    using decode_all_enc [OF ok(1) _ _ part, of "length (buf @ seg)"] seg fits(1) by simp
  moreover have "feeds dec part segs = (zs, [])"
    by (rule Cons.IH [OF ok(2) zs part fits(2)])
  ultimately show ?case by (simp add: xs)
qed

text \<open>
  However the stream is cut into reads, the receiver delivers exactly its items, in order, and
  keeps nothing back.
\<close>

lemma feeds_stream:
  "list_all ok xs \<Longrightarrow> length (enc_all xs) < limit \<Longrightarrow> concat segs = enc_all xs \<Longrightarrow>
   feeds dec [] segs = (xs, [])"
  by (rule feeds_buffered) (simp_all add: dec_Nil)

end

end
