(* ===== verification/Protocol.thy ===== *)
theory Protocol
  imports Codec
begin

unbundle bit_operations_syntax

text \<open>
  The control-message codec, \<open>src/core/protocol.h\<close> and \<open>src/core/protocol.cpp\<close>: message types,
  the LEB128 varints, \<open>serialize\<close> and \<open>try_parse\<close>.  \<open>MessageType\<close> is an enum with the fixed
  underlying type \<open>uint8_t\<close>, and \<open>try_parse\<close> casts an arbitrary byte to it, so the model keeps
  it as a byte with one name per enumerator.
\<close>

section \<open>Message types and packets\<close>

type_synonym MessageType = byte

abbreviation (input) MSG_AUTH_CHALLENGE :: MessageType where "MSG_AUTH_CHALLENGE \<equiv> 0x01"
abbreviation (input) MSG_AUTH_RESPONSE :: MessageType where "MSG_AUTH_RESPONSE \<equiv> 0x02"
abbreviation (input) MSG_AUTH_OK :: MessageType where "MSG_AUTH_OK \<equiv> 0x03"
abbreviation (input) MSG_RECONNECT :: MessageType where "MSG_RECONNECT \<equiv> 0x05"
abbreviation (input) MSG_MODULE_LIST_REQ :: MessageType where "MSG_MODULE_LIST_REQ \<equiv> 0x10"
abbreviation (input) MSG_MODULE_LIST_RES :: MessageType where "MSG_MODULE_LIST_RES \<equiv> 0x11"
abbreviation (input) MSG_CHAIN_CREATE :: MessageType where "MSG_CHAIN_CREATE \<equiv> 0x20"
abbreviation (input) MSG_CHAIN_READY :: MessageType where "MSG_CHAIN_READY \<equiv> 0x21"
abbreviation (input) MSG_TRANSMIT_READY :: MessageType where "MSG_TRANSMIT_READY \<equiv> 0x22"
abbreviation (input) MSG_CONNECT_REQ :: MessageType where "MSG_CONNECT_REQ \<equiv> 0x30"
abbreviation (input) MSG_CONNECT_OK :: MessageType where "MSG_CONNECT_OK \<equiv> 0x31"
abbreviation (input) MSG_CONNECT_FAIL :: MessageType where "MSG_CONNECT_FAIL \<equiv> 0x32"
abbreviation (input) MSG_CONNECT_CANCEL :: MessageType where "MSG_CONNECT_CANCEL \<equiv> 0x33"
abbreviation (input) MSG_DISCONNECT :: MessageType where "MSG_DISCONNECT \<equiv> 0x51"
abbreviation (input) MSG_WRITER_PAUSE :: MessageType where "MSG_WRITER_PAUSE \<equiv> 0x52"
abbreviation (input) MSG_WRITER_RESUME :: MessageType where "MSG_WRITER_RESUME \<equiv> 0x53"
abbreviation (input) MSG_CHAIN_PAUSE :: MessageType where "MSG_CHAIN_PAUSE \<equiv> 0x54"
abbreviation (input) MSG_CHAIN_RESUME :: MessageType where "MSG_CHAIN_RESUME \<equiv> 0x55"

text \<open>Wire-level frame types and in-band chain control codes.\<close>

abbreviation (input) WIRE_DATA :: byte where "WIRE_DATA \<equiv> 0"
abbreviation (input) WIRE_HEARTBEAT_PING :: byte where "WIRE_HEARTBEAT_PING \<equiv> 1"
abbreviation (input) WIRE_HEARTBEAT_PONG :: byte where "WIRE_HEARTBEAT_PONG \<equiv> 2"
abbreviation (input) WIRE_SHUTDOWN_WR :: byte where "WIRE_SHUTDOWN_WR \<equiv> 3"
abbreviation (input) WIRE_SHUTDOWN_WR_ACK :: byte where "WIRE_SHUTDOWN_WR_ACK \<equiv> 4"
abbreviation (input) WIRE_CONTROL :: byte where "WIRE_CONTROL \<equiv> 5"
abbreviation (input) WIRE_DATA_ACK :: byte where "WIRE_DATA_ACK \<equiv> 6"
abbreviation (input) WIRE_MAX_UNACKED :: nat where "WIRE_MAX_UNACKED \<equiv> 200"
abbreviation (input) WIRE_RETRANSMIT_MS :: millis where "WIRE_RETRANSMIT_MS \<equiv> 200"
abbreviation (input) CHAIN_CTRL_DISCONNECT :: byte where "CHAIN_CTRL_DISCONNECT \<equiv> 0x51"
abbreviation (input) CHAIN_CTRL_SHUTDOWN_WR :: byte where "CHAIN_CTRL_SHUTDOWN_WR \<equiv> 0x52"

record Packet =
  pkt_type :: MessageType
  pkt_payload :: bytes

section \<open>Varints\<close>

function write_varint :: "bytes \<Rightarrow> u64 \<Rightarrow> bytes" where
  "write_varint buf val =
     (if 0x7F < val
      then write_varint (buf @ [ucast ((val AND 0x7F) OR 0x80)]) (drop_bit 7 val)
      else buf @ [ucast (val AND 0x7F)])"
  by pat_completeness auto
termination
  by (relation "measure (\<lambda>(buf, val). unat val)") (auto simp: drop7_less)

declare write_varint.simps [simp del]

text \<open>
  The loop of \<open>read_varint\<close>: \<open>i\<close> is both the loop counter and \<open>consumed\<close>.  A buffer that ends
  inside the varint, and a varint longer than ten bytes, give the value 0 with the bytes read so
  far reported as consumed.
\<close>

fun read_varint_loop :: "bytes \<Rightarrow> nat \<Rightarrow> u64 \<Rightarrow> nat \<Rightarrow> u64 \<times> nat" where
  "read_varint_loop [] i val shift = (0, i)"
| "read_varint_loop (b # bs) i val shift =
     (if 10 \<le> i then (0, i)
      else let val' = val OR push_bit shift (ucast (b AND 0x7F))
           in if b AND 0x80 = 0 then (val', Suc i)
              else read_varint_loop bs (Suc i) val' (shift + 7))"

definition read_varint :: "bytes \<Rightarrow> u64 \<times> nat" where
  "read_varint buf = read_varint_loop buf 0 0 0"

section \<open>Serialization\<close>

definition serialize :: "Packet \<Rightarrow> bytes" where
  "serialize pkt =
     write_varint (write_varint [] (ucast (pkt_type pkt))) (of_nat (length (pkt_payload pkt)))
       @ pkt_payload pkt"

text \<open>
  \<open>try_parse\<close> returns the number of bytes consumed, 0 for no packet.  The size arithmetic is
  64-bit: \<open>offset + pay_len\<close> wraps.  When it has wrapped, the guard \<open>len < total\<close> lets the
  iterator range of \<open>assign\<close> run past the buffer; the model makes that a value of its own.
\<close>

datatype parse_result = NoPacket | Parsed nat Packet | ParseOutOfRange

definition try_parse :: "bytes \<Rightarrow> parse_result" where
  "try_parse buf =
     (let (type_val, consumed) = read_varint buf
      in if consumed = 0 \<or> 0xFF < type_val then NoPacket
      else let offset = consumed;
               (pay_len, consumed) = read_varint (drop offset buf)
      in if consumed = 0 then NoPacket
      else let offset = offset + consumed;
               total = (of_nat offset + pay_len :: u64)
      in if of_nat (length buf) < total then NoPacket
      else if int (length buf) < int offset + uint pay_len then ParseOutOfRange
      else Parsed (unat total)
             \<lparr>pkt_type = ucast type_val, pkt_payload = take (unat pay_len) (drop offset buf)\<rparr>)"

definition make_msg :: "MessageType \<Rightarrow> bytes \<Rightarrow> Packet" where
  "make_msg ty data = \<lparr>pkt_type = ty, pkt_payload = data\<rparr>"

text \<open>The receive loops take one packet off the front of the buffer with \<open>try_parse\<close>.\<close>

definition next_packet :: "bytes \<Rightarrow> (Packet \<times> bytes) option" where
  "next_packet buf =
     (case try_parse buf of Parsed n pkt \<Rightarrow> Some (pkt, drop n buf) | _ \<Rightarrow> None)"

section \<open>Varint lemmas\<close>

lemma mask7: "(0x7F :: u64) = mask 7" "(0x7F :: byte) = mask 7"
  by (simp_all add: mask_eq_exp_minus_1)

lemma bit_0x80: "bit (0x80 :: int) n \<longleftrightarrow> n = 7"
proof -
  have "(0x80 :: int) = 2 ^ 7" by simp
  moreover have "bit (2 ^ 7 :: int) n \<longleftrightarrow> n = 7" unfolding bit_exp_iff by auto
  ultimately show ?thesis by metis
qed

lemma cont_byte_payload:
  "ucast ((ucast ((v AND 0x7F) OR 0x80) :: byte) AND 0x7F) = (v AND 0x7F :: u64)"
  unfolding mask7 by (rule bit_word_eqI) (auto simp: bit_simps bit_0x80)

lemma cont_byte_flag: "(ucast ((v AND 0x7F) OR 0x80 :: u64) :: byte) AND 0x80 \<noteq> 0"
proof -
  have "bit ((ucast ((v AND 0x7F) OR 0x80 :: u64) :: byte) AND 0x80) 7"
    by (simp add: bit_simps)
  then show ?thesis by auto
qed

lemma last_byte_flag: "(ucast (v AND 0x7F :: u64) :: byte) AND 0x80 = 0"
  unfolding mask7 by (rule bit_word_eqI) (auto simp: bit_simps bit_0x80)

lemma last_byte_payload:
  "ucast ((ucast (v AND 0x7F) :: byte) AND 0x7F) = (v AND 0x7F :: u64)"
  unfolding mask7 by (rule bit_word_eqI) (auto simp: bit_simps)

lemma small_and_mask: "\<not> 0x7F < v \<Longrightarrow> v AND 0x7F = (v :: u64)"
  unfolding mask7 by (rule less_mask_eq) (simp add: not_less word_le_nat_alt word_less_nat_alt mask_eq_exp_minus_1)

lemmas varint_byte_simps [simp] =
  cont_byte_payload cont_byte_flag last_byte_flag last_byte_payload

lemma write_varint_append: "write_varint buf v = buf @ write_varint [] v"
proof (induction v arbitrary: buf rule: measure_induct_rule [of unat])
  case (less v)
  show ?case
  proof (cases "0x7F < v")
    case True
    let ?c = "ucast ((v AND 0x7F) OR 0x80) :: byte"
    have "write_varint b v = b @ ?c # write_varint [] (drop_bit 7 v)" for b
      using less [OF drop7_less [OF True], of "b @ [?c]"] True
      by (subst write_varint.simps) simp
    then show ?thesis by simp
  next
    case False
    then show ?thesis by (simp add: write_varint.simps)
  qed
qed

text \<open>The encoding as a recursion on the value.\<close>

lemma write_varint_Nil:
  "write_varint [] v =
     (if 0x7F < v then ucast ((v AND 0x7F) OR 0x80) # write_varint [] (drop_bit 7 v)
      else [ucast (v AND 0x7F)])"
  by (subst write_varint.simps, subst write_varint_append) simp

lemma write_varint_induct [case_names big small]:
  assumes "\<And>v. 0x7F < v \<Longrightarrow> P (drop_bit 7 v) \<Longrightarrow> P v"
    and "\<And>v. \<not> (0x7F :: u64) < v \<Longrightarrow> P v"
  shows "P v"
proof (induction v rule: measure_induct_rule [of unat])
  case (less v)
  then show ?case
    using assms by (cases "0x7F < v") (auto simp: drop7_less)
qed

lemma write_varint_length:
  "0 < k \<Longrightarrow> unat v < 2 ^ (7 * k) \<Longrightarrow> length (write_varint [] v) \<le> k"
proof (induction v arbitrary: k rule: write_varint_induct)
  case (big v)
  then obtain j where k: "k = Suc j" by (cases k) auto
  have "0 < j"
    using big.hyps big.prems k by (cases j) (auto simp: word_less_nat_alt)
  moreover have "unat (drop_bit 7 v) < 2 ^ (7 * j)"
  proof -
    have "unat v < 2 ^ (7 * j) * 128" using big.prems k by (simp add: power_add)
    then have "unat v div 128 < 2 ^ (7 * j)" by (simp add: less_mult_imp_div_less)
    then show ?thesis by (simp add: drop_bit_eq_div unat_div)
  qed
  ultimately show ?case
    using big.IH [of j] big.hyps k by (subst write_varint_Nil) simp
next
  case (small v)
  then show ?case by (subst write_varint_Nil) simp
qed

lemma write_varint_length10: "length (write_varint [] v) \<le> 10"
proof (rule write_varint_length)
  have "unat v < 2 ^ 64" using unsigned_less [of v] by simp
  then show "unat v < 2 ^ (7 * 10)" by simp
qed simp

lemma read_loop_write:
  "i + length (write_varint [] v) \<le> 10 \<Longrightarrow>
   read_varint_loop (write_varint [] v @ rest) i acc s
     = (acc OR push_bit s v, i + length (write_varint [] v))"
proof (induction v arbitrary: i acc s rule: write_varint_induct)
  case (big v)
  then show ?case
    by (simp add: write_varint_Nil [of v] Let_def or.assoc del: push_bit_and)
next
  case (small v)
  then show ?case
    by (simp add: write_varint_Nil [of v] Let_def del: push_bit_and) (simp add: small_and_mask)
qed

lemma read_varint_write [simp]:
  "read_varint (write_varint [] v @ rest) = (v, length (write_varint [] v))"
  using read_loop_write [of 0 v rest 0 0] write_varint_length10 [of v]
  by (simp add: read_varint_def)

lemma write_varint_nonempty [simp]: "write_varint [] v \<noteq> []"
  by (subst write_varint_Nil) simp

text \<open>A proper prefix of a varint reads as the value 0, all of it consumed.\<close>

lemma read_loop_prefix:
  "i + length (write_varint [] v) \<le> 10 \<Longrightarrow> n < length (write_varint [] v) \<Longrightarrow>
   read_varint_loop (take n (write_varint [] v)) i acc s = (0, i + n)"
proof (induction v arbitrary: i acc s n rule: write_varint_induct)
  case (big v)
  then show ?case
    by (cases n) (simp_all add: write_varint_Nil [of v] Let_def)
next
  case (small v)
  then show ?case by (simp add: write_varint_Nil [of v])
qed


lemma read_varint_prefix:
  "n < length (write_varint [] v) \<Longrightarrow> read_varint (take n (write_varint [] v)) = (0, n)"
  using read_loop_prefix [of 0 v n 0 0] write_varint_length10 [of v]
  by (simp add: read_varint_def)

lemma read_loop_consumed:
  "read_varint_loop buf i acc s = (v, n) \<Longrightarrow> i \<le> n \<and> n \<le> i + length buf"
  by (induction buf i acc s rule: read_varint_loop.induct)
    (auto simp: Let_def split: if_splits)

lemma read_varint_consumed: "read_varint buf = (v, n) \<Longrightarrow> n \<le> length buf"
  unfolding read_varint_def using read_loop_consumed [of buf 0 0 0 v n] by simp

lemma read_varint_Nil [simp]: "read_varint [] = (0, 0)"
  by (simp add: read_varint_def)

section \<open>Packets\<close>

lemma serialize_eq:
  "serialize p = write_varint [] (ucast (pkt_type p))
     @ write_varint [] (of_nat (length (pkt_payload p))) @ pkt_payload p"
  unfolding serialize_def by (subst write_varint_append) simp

definition packet_ok :: "Packet \<Rightarrow> bool" where
  "packet_ok p \<longleftrightarrow> length (pkt_payload p) < 2 ^ 32"

lemma type_val_small: "\<not> (0xFF :: u64) < ucast (t :: byte)"
proof -
  have "unat t < 256" using unsigned_less [of t] by simp
  then show ?thesis by (simp add: word_less_nat_alt unsigned_ucast_eq take_bit_nat_eq_self)
qed

lemma ucast_type [simp]: "ucast (ucast (t :: byte) :: u64) = t"
  by (rule bit_word_eqI) (auto simp: bit_simps)

lemma try_parse_serialize:
  assumes "packet_ok p" and "length (serialize p @ rest) < 2 ^ 64"
  shows "try_parse (serialize p @ rest) = Parsed (length (serialize p)) p"
proof -
  let ?t = "write_varint [] (ucast (pkt_type p))"
  let ?n = "length (pkt_payload p)"
  let ?l = "write_varint [] (of_nat ?n)"
  let ?len = "length (serialize p @ rest)"
  have n: "?n < 2 ^ 64" using assms(1) by (simp add: packet_ok_def)
  have buf: "serialize p @ rest = ?t @ ?l @ pkt_payload p @ rest"
    by (simp add: serialize_eq)
  have le: "length ?t + length ?l + ?n \<le> ?len"
    by (simp add: serialize_eq)
  define total :: u64 where "total = of_nat (length ?t + length ?l) + of_nat ?n"
  have "total = of_nat (length ?t + length ?l + ?n)" by (simp add: total_def)
  then have tot: "unat total = length ?t + length ?l + ?n"
    using le assms(2) by (simp only: unat_of_nat_u64)
  have guard: "\<not> of_nat ?len < total"
    using le assms(2) by (simp only: word_less_nat_alt tot unat_of_nat_u64 not_less)
  have inside: "\<not> int ?len < int (length ?t + length ?l) + uint (of_nat ?n :: u64)"
    using le n by (simp add: uint_of_nat_u64)
  show ?thesis
    using guard inside n tot
    unfolding try_parse_def buf
    by (simp add: Let_def type_val_small unat_of_nat_u64 total_def serialize_eq)
qed

text \<open>
  What a successful parse says about the buffer: the consumed bytes lie inside it and the payload
  is the tail of the consumed part.
\<close>

lemma if_Parsed:
  "(if b then NoPacket else r) = Parsed n p \<longleftrightarrow> \<not> b \<and> r = Parsed n p"
  "(if b then ParseOutOfRange else r) = Parsed n p \<longleftrightarrow> \<not> b \<and> r = Parsed n p"
  by simp_all

lemma try_parse_sound:
  assumes "try_parse buf = Parsed n p" and "length buf < 2 ^ 64"
  shows "0 < n \<and> n \<le> length buf
    \<and> pkt_payload p = drop (n - length (pkt_payload p)) (take n buf)
    \<and> length (pkt_payload p) < n"
proof -
  obtain tv c1 where r1: "read_varint buf = (tv, c1)" by fastforce
  obtain pl c2 where r2: "read_varint (drop c1 buf) = (pl, c2)" by fastforce
  from assms(1) have c: "c1 \<noteq> 0" "c2 \<noteq> 0"
    and inside: "\<not> int (length buf) < int (c1 + c2) + uint pl"
    and n: "unat (of_nat (c1 + c2) + pl :: u64) = n"
    and p: "\<lparr>pkt_type = ucast tv, pkt_payload = take (unat pl) (drop (c1 + c2) buf)\<rparr> = p"
    unfolding try_parse_def Let_def r1 prod.case r2 if_Parsed parse_result.inject by simp_all
  have fits: "c1 + c2 + unat pl \<le> length buf"
    using inside unfolding uint_nat by linarith
  have "of_nat (c1 + c2) + pl = (of_nat (c1 + c2 + unat pl) :: u64)" by simp
  then have n': "n = c1 + c2 + unat pl"
    using n fits assms(2) by (simp only: unat_of_nat_u64)
  have p': "pkt_payload p = take (unat pl) (drop (c1 + c2) buf)" using p by auto
  have "length (pkt_payload p) = unat pl" using fits by (simp add: p')
  then show ?thesis using c fits n' p' by (simp add: drop_take)
qed

lemma try_parse_Nil [simp]: "try_parse [] = NoPacket"
  by (simp add: try_parse_def Let_def)

lemma serialize_nonempty [simp]: "serialize p \<noteq> []"
  by (simp add: serialize_eq)

interpretation packets: stream_codec serialize next_packet packet_ok "2 ^ 64"
  by unfold_locales (simp_all add: next_packet_def try_parse_serialize)

text \<open>
  A header cut inside its length varint: the part that is there reads as length 0, so the prefix
  parses as a packet with an empty payload.
\<close>

lemma try_parse_cut_length:
  fixes p :: Packet
  defines "t \<equiv> length (write_varint [] (ucast (pkt_type p)))"
    and "l \<equiv> length (write_varint [] (of_nat (length (pkt_payload p))))"
  assumes "0 < k" and "k < l"
  shows "try_parse (take (t + k) (serialize p)) = Parsed (t + k) (p\<lparr>pkt_payload := []\<rparr>)"
proof -
  let ?l = "write_varint [] (of_nat (length (pkt_payload p)))"
  have buf: "take (t + k) (serialize p) = write_varint [] (ucast (pkt_type p)) @ take k ?l"
    using assms(4) by (simp add: serialize_eq t_def l_def)
  have small: "t + k < 2 ^ 64"
    using write_varint_length10 [of "ucast (pkt_type p)"]
      write_varint_length10 [of "of_nat (length (pkt_payload p))"] assms(4)
    by (simp add: t_def l_def)
  have len: "length (write_varint [] (ucast (pkt_type p)) @ take k ?l) = t + k"
    using assms(4) by (simp add: t_def l_def)
  have tot: "unat (of_nat (t + k) + 0 :: u64) = t + k"
    using small by (simp only: add_0_right unat_of_nat_u64)
  have "try_parse (write_varint [] (ucast (pkt_type p)) @ take k ?l)
      = Parsed (unat (of_nat (t + k) + 0 :: u64)) \<lparr>pkt_type = pkt_type p, pkt_payload = []\<rparr>"
    unfolding try_parse_def Let_def read_varint_write prod.case len
    using assms(3,4)
    by (simp add: type_val_small read_varint_prefix t_def l_def)
  then show ?thesis unfolding buf tot by simp
qed

section \<open>Properties\<close>

text \<open>
  C15: the receive loop, given in one read any sequence of serialized control packets, takes off
  exactly these packets in order and leaves an empty buffer.
\<close>

theorem control_stream_roundtrip:
  assumes "list_all packet_ok ps" and "length (concat (map serialize ps)) < 2 ^ 64"
  shows "feed next_packet [] (concat (map serialize ps)) = (ps, [])"
  using assms by (rule packets.feed_stream)

theorem control_stream_roundtrip_witness:
  "feed next_packet [] (concat (map serialize
     [make_msg MSG_AUTH_OK [1], make_msg MSG_CHAIN_PAUSE []]))
   = ([make_msg MSG_AUTH_OK [1], make_msg MSG_CHAIN_PAUSE []], [])"
proof (rule control_stream_roundtrip)
  show "list_all packet_ok [make_msg MSG_AUTH_OK [1], make_msg MSG_CHAIN_PAUSE []]"
    by (simp add: packet_ok_def make_msg_def)
  have "length (concat (map serialize [make_msg MSG_AUTH_OK [1], make_msg MSG_CHAIN_PAUSE []])) = 5"
    by code_simp
  then show "length (concat (map serialize
      [make_msg MSG_AUTH_OK [1], make_msg MSG_CHAIN_PAUSE []])) < 2 ^ 64"
    by simp
qed

text \<open>
  Whatever the buffer holds, a packet that \<open>try_parse\<close> reports was consumed from inside the
  buffer, at least one byte is consumed, and its payload is the tail of the consumed bytes.
\<close>

theorem try_parse_in_bounds:
  assumes "try_parse buf = Parsed n p" and "length buf < 2 ^ 64"
  shows "0 < n \<and> n \<le> length buf \<and> length (pkt_payload p) < n
    \<and> pkt_payload p = drop (n - length (pkt_payload p)) (take n buf)"
  using try_parse_sound [OF assms] by simp

theorem try_parse_in_bounds_witness:
  "0 < (4 :: nat) \<and> pkt_payload (make_msg MSG_CONNECT_OK [7, 9]) = drop 2 (take 4 [0x31, 2, 7, 9, 5])"
proof -
  have h: "try_parse [0x31, 2, 7, 9, 5] = Parsed 4 (make_msg MSG_CONNECT_OK [7, 9])" by code_simp
  show ?thesis using try_parse_in_bounds [OF h] by (simp add: make_msg_def)
qed



text \<open>
  C37: the bounds check of \<open>try_parse\<close> wraps at 64 bits: a bare header whose length field is
  \<open>2^64 - k\<close>, with \<open>k\<close> at most the header's size, passes it although the payload is not there.
\<close>

theorem try_parse_length_wraps:
  fixes t :: byte and k :: nat
  defines "hdr \<equiv> write_varint [] (ucast t) @ write_varint [] (- of_nat k)"
  assumes "0 < k" and "k \<le> length hdr"
  shows "try_parse hdr = ParseOutOfRange"
proof -
  let ?a = "write_varint [] (ucast t)" and ?b = "write_varint [] (- of_nat k :: u64)"
  have len: "length hdr \<le> 20"
    using write_varint_length10 [of "ucast t"] write_varint_length10 [of "- of_nat k"]
    by (simp add: hdr_def)
  have k: "k < 2 ^ 64" "of_nat k \<noteq> (0 :: u64)"
    using assms(2,3) len unat_of_nat_u64 [of k] by auto
  have "of_nat (length ?a + length ?b) + - of_nat k = (of_nat (length hdr - k) :: u64)"
    using assms(3) by (simp add: hdr_def of_nat_diff)
  then have guard: "\<not> of_nat (length hdr) < (of_nat (length ?a + length ?b) + - of_nat k :: u64)"
    using len unat_of_nat_u64 [of "length hdr"] unat_of_nat_u64 [of "length hdr - k"]
    by (simp only: word_less_nat_alt) simp
  have "uint (- of_nat k :: u64) = 2 ^ 64 - int k"
    using k assms(2) uint_of_nat_u64 [OF k(1)] by (simp add: uint_word_ariths zmod_zminus1_eq_if)
  then have out: "int (length hdr) < int (length ?a + length ?b) + uint (- of_nat k :: u64)"
    using assms(3) len by (simp add: hdr_def)
  have r1: "read_varint hdr = (ucast t, length ?a)" by (simp add: hdr_def)
  have r2: "read_varint (drop (length ?a) hdr) = (- of_nat k, length ?b)"
    using read_varint_write [of "- of_nat k" "[]"] by (simp add: hdr_def)
  show ?thesis
    unfolding try_parse_def Let_def r1 prod.case r2
    using guard out by (simp add: type_val_small)
qed

theorem try_parse_length_wraps_witness:
  "try_parse (write_varint [] (ucast MSG_DISCONNECT) @ write_varint [] (- of_nat 1)) = ParseOutOfRange"
proof (rule try_parse_length_wraps)
  show "1 \<le> length (write_varint [] (ucast MSG_DISCONNECT) @ write_varint [] (- of_nat 1 :: u64))"
    using write_varint_nonempty [of "ucast MSG_DISCONNECT"] by (cases "write_varint [] (ucast MSG_DISCONNECT :: u64)") simp_all
qed simp

end
