(* ===== verification/Wire_Frame.thy ===== *)
theory Wire_Frame
  imports Protocol
begin

unbundle bit_operations_syntax

text \<open>
  The framing of the data connections: every frame is a varint length and a body whose first byte
  is the frame type.  The senders (\<open>make_varint_packet\<close>, \<open>send_control\<close>, \<open>wire_write\<close>, the
  acknowledgement and heartbeat frames of client and session) all write the length with the loop
  of \<open>write_varint\<close>; the receivers (the data-connection readers and \<open>process_wire_buffer\<close> of
  both sides) share the scan modelled by \<open>scan_frame\<close>.
\<close>

section \<open>Senders\<close>

definition make_varint_packet :: "bytes \<Rightarrow> bytes" where
  "make_varint_packet data = write_varint [] (of_nat (length data)) @ data"

definition data_frame :: "u16 \<Rightarrow> bytes \<Rightarrow> bytes" where
  "data_frame seq data =
     write_varint [] (of_nat (3 + length data))
       @ [WIRE_DATA, ucast (seq AND 0xFF), ucast (drop_bit 8 seq AND 0xFF)] @ data"

definition ack_frame :: "u16 \<Rightarrow> bytes" where
  "ack_frame seq =
     write_varint [] 3 @ [WIRE_DATA_ACK, ucast (seq AND 0xFF), ucast (drop_bit 8 seq AND 0xFF)]"

definition control_frame :: "byte \<Rightarrow> Packet \<Rightarrow> bytes" where
  "control_frame seq pkt =
     write_varint [] (of_nat (2 + length (serialize pkt))) @ [WIRE_CONTROL, seq] @ serialize pkt"

section \<open>The receivers' scan\<close>

fun frame_varint_loop :: "bytes \<Rightarrow> nat \<Rightarrow> u64 \<Rightarrow> nat \<Rightarrow> nat \<times> u64 \<times> nat" where
  "frame_varint_loop [] pos val shift = (pos, val, shift)"
| "frame_varint_loop (b # bs) pos val shift =
     (if shift < 56
      then let val' = val OR push_bit shift (ucast (b AND 0x7F))
           in if b AND 0x80 = 0 then (Suc pos, val', shift)
              else frame_varint_loop bs (Suc pos) val' (shift + 7)
      else (pos, val, shift))"

text \<open>
  \<open>FrameStop\<close>: the loop breaks and the bytes stay in the buffer.  \<open>FrameOverflow\<close>: the length
  varint is too long, and the reader clears its buffer.  \<open>FrameAt pos val\<close>: a body of \<open>val\<close>
  bytes starts at \<open>pos\<close>.
\<close>

datatype frame_scan = FrameStop | FrameOverflow | FrameAt nat nat

definition scan_frame :: "bytes \<Rightarrow> frame_scan" where
  "scan_frame ptr =
     (if length ptr < 1 then FrameStop
      else let (pos, val, shift) = frame_varint_loop ptr 0 0 0
      in if 10 \<le> pos \<or> 56 \<le> shift then FrameOverflow
      else if length ptr < pos \<or> int (length ptr) < int pos + uint val \<or> val < 1 then FrameStop
      else FrameAt pos (unat val))"

definition next_frame :: "bytes \<Rightarrow> (bytes \<times> bytes) option" where
  "next_frame buf =
     (case scan_frame buf of
        FrameAt pos val \<Rightarrow> Some (take val (drop pos buf), drop (pos + val) buf)
      | _ \<Rightarrow> None)"

text \<open>\<open>(uint16_t)ptr[pos+1] | ((uint16_t)ptr[pos+2] << 8)\<close>\<close>

definition le16 :: "byte \<Rightarrow> byte \<Rightarrow> u16" where
  "le16 lo hi = ucast lo OR push_bit 8 (ucast hi)"

section \<open>Round trips\<close>

definition frame_body_ok :: "bytes \<Rightarrow> bool" where
  "frame_body_ok body \<longleftrightarrow> body \<noteq> [] \<and> length body < 2 ^ 56"

lemma frame_loop_write:
  "s + 7 * length (write_varint [] v) \<le> 56 \<Longrightarrow>
   frame_varint_loop (write_varint [] v @ rest) pos acc s
     = (pos + length (write_varint [] v), acc OR push_bit s v,
        s + 7 * (length (write_varint [] v) - 1))"
proof (induction v arbitrary: pos acc s rule: write_varint_induct)
  case (big v)
  have "0 < length (write_varint [] (drop_bit 7 v))" by simp
  then show ?case
    using big by (simp add: write_varint_Nil [of v] Let_def or.assoc del: push_bit_and length_0_conv length_greater_0_conv)
next
  case (small v)
  then show ?case
    by (simp add: write_varint_Nil [of v] Let_def del: push_bit_and) (simp add: small_and_mask)
qed

lemma frame_loop_prefix:
  "n < length (write_varint [] v) \<Longrightarrow> s + 7 * n < 56 \<Longrightarrow>
   \<exists>val. frame_varint_loop (take n (write_varint [] v)) pos acc s = (pos + n, val, s + 7 * n)"
proof (induction v arbitrary: pos acc s n rule: write_varint_induct)
  case (big v)
  show ?case
  proof (cases n)
    case (Suc m)
    with big.prems have "m < length (write_varint [] (drop_bit 7 v))" "(s + 7) + 7 * m < 56"
      by (simp_all add: write_varint_Nil [of v] big.hyps)
    from big.IH [OF this, of "Suc pos"] show ?thesis
      using Suc big.prems(2)
      by (simp add: write_varint_Nil [of v] big.hyps Let_def add.assoc del: push_bit_and)
  qed simp
next
  case (small v)
  then show ?case by (simp add: write_varint_Nil [of v])
qed

lemma frame_body_varint:
  assumes "frame_body_ok body"
  shows "length (write_varint [] (of_nat (length body))) \<le> 8"
    and "unat (of_nat (length body) :: u64) = length body"
proof -
  have b: "length body < 2 ^ 56" using assms by (simp add: frame_body_ok_def)
  then show u: "unat (of_nat (length body) :: u64) = length body"
    by (simp add: unat_of_nat_u64)
  show "length (write_varint [] (of_nat (length body))) \<le> 8"
    by (rule write_varint_length) (use b in \<open>simp_all add: u\<close>)
qed

lemma scan_make_varint_packet:
  assumes "frame_body_ok body"
  shows "scan_frame (make_varint_packet body @ rest)
    = FrameAt (length (write_varint [] (of_nat (length body)))) (length body)"
proof -
  let ?w = "write_varint [] (of_nat (length body) :: u64)"
  let ?n = "of_nat (length body) :: u64"
  have w: "length ?w \<le> 8" and u: "unat ?n = length body" by (rule frame_body_varint [OF assms])+
  have w0: "0 < length ?w" by simp
  have ui: "uint ?n = int (length body)" using u unfolding uint_nat by simp
  have "length body \<noteq> 0" using assms by (simp add: frame_body_ok_def)
  then have n1: "\<not> ?n < 1" using u by (simp add: word_less_nat_alt)
  have loop: "frame_varint_loop (?w @ body @ rest) 0 0 0 = (length ?w, ?n, 7 * (length ?w - 1))"
    using frame_loop_write [of 0 ?n "body @ rest" 0 0] w by simp
  have "\<not> 56 \<le> 7 * (length ?w - 1)" using w w0 by linarith
  with w w0 n1 show ?thesis
    by (simp add: scan_frame_def make_varint_packet_def loop Let_def u ui del: of_nat_eq_0_iff)
qed

lemma scan_make_varint_packet_prefix:
  assumes "frame_body_ok body" and "n < length (make_varint_packet body)"
  shows "scan_frame (take n (make_varint_packet body)) = FrameStop"
proof -
  let ?w = "write_varint [] (of_nat (length body) :: u64)"
  let ?n = "of_nat (length body) :: u64"
  have w: "length ?w \<le> 8" and u: "unat ?n = length body" by (rule frame_body_varint [OF assms(1)])+
  have w0: "0 < length ?w" by simp
  show ?thesis
  proof (cases "n < length ?w")
    case True
    with w have "0 + 7 * n < 56" by linarith
    from frame_loop_prefix [OF True this, of 0 0] obtain val where
      loop: "frame_varint_loop (take n ?w) 0 0 0 = (n, val, 7 * n)" by auto
    have "int n < int n + uint val \<or> val < 1"
    proof (cases "val = 0")
      case False
      then have "0 < uint val" using uint_ge_0 [of val] uint_0_iff [of val] by linarith
      then show ?thesis by simp
    qed simp
    with True w show ?thesis
      by (simp add: scan_frame_def make_varint_packet_def loop Let_def min_absorb2) 
  next
    case False
    have loop: "frame_varint_loop (?w @ take (n - length ?w) body) 0 0 0
        = (length ?w, ?n, 7 * (length ?w - 1))"
      using frame_loop_write [of 0 ?n "take (n - length ?w) body" 0 0] w by simp
    have ui: "uint ?n = int (length body)" using u unfolding uint_nat by simp
    have "\<not> 56 \<le> 7 * (length ?w - 1)" using w w0 by linarith
    moreover have "n < length ?w + length body" using assms(2) by (simp add: make_varint_packet_def)
    ultimately show ?thesis
      using False w w0 by (simp add: scan_frame_def make_varint_packet_def loop Let_def ui)
  qed
qed

interpretation frames: prefix_codec make_varint_packet next_frame frame_body_ok "2 ^ 64"
  by unfold_locales
    (simp_all add: next_frame_def scan_make_varint_packet scan_make_varint_packet_prefix,
     simp_all add: make_varint_packet_def scan_frame_def)

lemma data_frame_eq:
  "data_frame seq data = make_varint_packet
     ([WIRE_DATA, ucast (seq AND 0xFF), ucast (drop_bit 8 seq AND 0xFF)] @ data)"
  by (simp add: data_frame_def make_varint_packet_def)

lemma control_frame_eq:
  "control_frame seq pkt = make_varint_packet ([WIRE_CONTROL, seq] @ serialize pkt)"
  by (simp add: control_frame_def make_varint_packet_def)

lemma ack_frame_eq:
  "ack_frame seq = make_varint_packet
     [WIRE_DATA_ACK, ucast (seq AND 0xFF), ucast (drop_bit 8 seq AND 0xFF)]"
  by (simp add: ack_frame_def make_varint_packet_def)

lemma le16_split [simp]:
  "le16 (ucast (seq AND 0xFF)) (ucast (drop_bit 8 seq AND 0xFF)) = (seq :: u16)"
proof -
  have m: "(0xFF :: u16) = mask 8" by (simp add: mask_eq_exp_minus_1)
  show ?thesis
    unfolding m le16_def by (rule bit_word_eqI) (auto simp: bit_simps)
qed

section \<open>Properties\<close>

text \<open>
  C17: a receiver that scans frames off its buffer after every read delivers exactly the frame
  bodies that were sent, in order, and keeps no byte back, however the stream is cut into reads.
\<close>

theorem frame_stream_any_cut:
  assumes "list_all frame_body_ok bodies" and "length (concat (map make_varint_packet bodies)) < 2 ^ 64"
    and "concat reads = concat (map make_varint_packet bodies)"
  shows "feeds next_frame [] reads = (bodies, [])"
  using assms by (rule frames.feeds_stream)

theorem frame_stream_any_cut_witness:
  "feeds next_frame [] [[1], [1, 3, 6], [], [9, 0]] = ([[1], [6, 9, 0]], [])"
proof (rule frame_stream_any_cut)
  show "list_all frame_body_ok [[1], [6, 9, 0]]" by (simp add: frame_body_ok_def)
  have "length (concat (map make_varint_packet [[1], [6, 9, 0]])) = 6" by code_simp
  then show "length (concat (map make_varint_packet [[1], [6, 9, 0]])) < 2 ^ 64" by simp
  show "concat [[1], [1, 3, 6], [], [9, 0]] = concat (map make_varint_packet [[1], [6, 9, 0]])"
    by code_simp
qed

end
