(* ===== verification/Posix.thy ===== *)
theory Posix
  imports Prelude
begin

text \<open>
  The system calls the program makes on sockets, as functions on an explicit record.  What the
  kernel answers is not decided by the program, so the answers are part of the record: each
  non-empty \<open>::write\<close> takes the next answer, and an exhausted list means a full socket buffer.
  A write of no bytes returns 0 (POSIX, \<open>write(2)\<close>); a non-blocking write of at least one byte
  accepts between one and all of them or fails.  \<open>sent\<close> records the accepted bytes in order.
\<close>

datatype wr_answer = Wrote nat | WouldBlock | WriteError

datatype wr_ret = WrOk nat | WrAgain | WrErr

record os =
  wr_answers :: "wr_answer list"
  sent :: "(fd \<times> bytes) list"
  closed_fds :: "fd list"
  shut_wr :: "fd list"

definition sys_write :: "fd \<Rightarrow> bytes \<Rightarrow> os \<Rightarrow> wr_ret \<times> os" where
  "sys_write f data w =
     (if data = [] then (WrOk 0, w)
      else case wr_answers w of
        [] \<Rightarrow> (WrAgain, w)
      | Wrote n # as \<Rightarrow>
          (let m = max 1 (min n (length data))
           in (WrOk m, w\<lparr>wr_answers := as, sent := sent w @ [(f, take m data)]\<rparr>))
      | WouldBlock # as \<Rightarrow> (WrAgain, w\<lparr>wr_answers := as\<rparr>)
      | WriteError # as \<Rightarrow> (WrErr, w\<lparr>wr_answers := as\<rparr>))"

definition sys_close :: "fd \<Rightarrow> os \<Rightarrow> os" where
  "sys_close f w = w\<lparr>closed_fds := closed_fds w @ [f]\<rparr>"

definition sys_shutdown_wr :: "fd \<Rightarrow> os \<Rightarrow> os" where
  "sys_shutdown_wr f w = w\<lparr>shut_wr := shut_wr w @ [f]\<rparr>"

text \<open>The byte stream a descriptor's peer receives.\<close>

definition fd_stream :: "fd \<Rightarrow> os \<Rightarrow> bytes" where
  "fd_stream f w = concat (map snd (filter (\<lambda>e. fst e = f) (sent w)))"

lemma sys_write_Nil [simp]: "sys_write f [] w = (WrOk 0, w)"
  by (simp add: sys_write_def)

text \<open>
  \<open>io_ext f w out w'\<close>: between \<open>w\<close> and \<open>w'\<close> the program sent exactly \<open>out\<close> on \<open>f\<close>, nothing on
  any other descriptor, and closed nothing.
\<close>

definition io_ext :: "fd \<Rightarrow> os \<Rightarrow> bytes \<Rightarrow> os \<Rightarrow> bool" where
  "io_ext f w out w' \<longleftrightarrow>
     fd_stream f w' = fd_stream f w @ out \<and> (\<forall>g. g \<noteq> f \<longrightarrow> fd_stream g w' = fd_stream g w)
     \<and> set (wr_answers w') \<subseteq> set (wr_answers w)
     \<and> closed_fds w' = closed_fds w \<and> shut_wr w' = shut_wr w"

definition no_error :: "os \<Rightarrow> bool" where
  "no_error w \<longleftrightarrow> WriteError \<notin> set (wr_answers w)"

lemma io_ext_refl [simp]: "io_ext f w [] w"
  by (simp add: io_ext_def)

lemma io_ext_trans: "io_ext f w a w1 \<Longrightarrow> io_ext f w1 b w2 \<Longrightarrow> io_ext f w (a @ b) w2"
  by (auto simp: io_ext_def)

lemma io_ext_no_error: "io_ext f w out w' \<Longrightarrow> no_error w \<Longrightarrow> no_error w'"
  by (auto simp: io_ext_def no_error_def)

lemma sys_write_cases:
  assumes "data \<noteq> []"
  obtains (ok) m w' where "sys_write f data w = (WrOk m, w')" "0 < m" "m \<le> length data"
      "io_ext f w (take m data) w'"
    | (again) w' where "sys_write f data w = (WrAgain, w')" "io_ext f w [] w'"
    | (err) w' where "sys_write f data w = (WrErr, w')" "io_ext f w [] w'" "\<not> no_error w"
proof (cases "wr_answers w")
  case Nil
  then have "sys_write f data w = (WrAgain, w)" using assms by (simp add: sys_write_def)
  then show thesis by (rule again) simp
next
  case (Cons a as)
  show thesis
  proof (cases a)
    case (Wrote n)
    let ?m = "max 1 (min n (length data))"
    let ?w = "w\<lparr>wr_answers := as, sent := sent w @ [(f, take ?m data)]\<rparr>"
    have "1 \<le> length data" using assms by (simp add: Suc_le_eq)
    then have m: "?m \<le> length data" by simp
    have "sys_write f data w = (WrOk ?m, ?w)"
      using assms Cons Wrote by (simp add: sys_write_def Let_def)
    then show thesis
      by (rule ok) (use m Cons in \<open>auto simp: io_ext_def fd_stream_def\<close>)
  next
    case WouldBlock
    then have "sys_write f data w = (WrAgain, w\<lparr>wr_answers := as\<rparr>)"
      using assms Cons by (simp add: sys_write_def)
    then show thesis by (rule again) (use Cons in \<open>auto simp: io_ext_def fd_stream_def\<close>)
  next
    case WriteError
    then have "sys_write f data w = (WrErr, w\<lparr>wr_answers := as\<rparr>)"
      using assms Cons by (simp add: sys_write_def)
    then show thesis
      by (rule err) (use Cons WriteError in \<open>auto simp: io_ext_def fd_stream_def no_error_def\<close>)
  qed
qed

end
