(* ===== verification/Write_Buffer.thy ===== *)
theory Write_Buffer
  imports Posix
begin

text \<open>
  \<open>src/common/write_buffer.h\<close>: the per-socket output buffer with a queue of ordinary chunks and
  a queue of priority chunks.  Every method runs under the buffer's mutex, so one call is one
  step.  The flush loops test neither for progress nor for a zero return of \<open>::write\<close>; they are
  partial functions, with \<open>None\<close> for a call that never returns.
\<close>

record WriteBuffer =
  priority_chunks :: "bytes list"
  priority_read_offset :: nat
  chunks :: "bytes list"
  read_offset :: nat
  total_size :: u64
  registered :: bool
  high_water :: u64
  low_water :: u64

definition wb_new :: WriteBuffer where
  "wb_new = \<lparr>priority_chunks = [], priority_read_offset = 0, chunks = [], read_offset = 0,
     total_size = 0, registered = False, high_water = 262144, low_water = 131072\<rparr>"

definition wb_empty :: "WriteBuffer \<Rightarrow> bool" where
  "wb_empty b \<longleftrightarrow> chunks b = [] \<and> priority_chunks b = []"

definition wb_size :: "WriteBuffer \<Rightarrow> u64" where
  "wb_size b = total_size b"

definition wb_clear :: "WriteBuffer \<Rightarrow> WriteBuffer" where
  "wb_clear b = b\<lparr>priority_chunks := [], priority_read_offset := 0, chunks := [],
     read_offset := 0, total_size := 0\<rparr>"

definition push_chunk :: "bytes \<Rightarrow> WriteBuffer \<Rightarrow> WriteBuffer" where
  "push_chunk data b = b\<lparr>chunks := chunks b @ [data], total_size := total_size b + of_nat (length data)\<rparr>"

definition write_priority :: "bytes \<Rightarrow> WriteBuffer \<Rightarrow> WriteBuffer" where
  "write_priority data b =
     b\<lparr>priority_chunks := priority_chunks b @ [data], total_size := total_size b + of_nat (length data)\<rparr>"

text \<open>The bookkeeping after \<open>n\<close> bytes of the front chunk were accepted.\<close>

definition advance_priority :: "nat \<Rightarrow> WriteBuffer \<Rightarrow> WriteBuffer" where
  "advance_priority n b =
     (let b = b\<lparr>priority_read_offset := priority_read_offset b + n, total_size := total_size b - of_nat n\<rparr>
      in if length (hd (priority_chunks b)) \<le> priority_read_offset b
         then b\<lparr>priority_chunks := tl (priority_chunks b), priority_read_offset := 0\<rparr>
         else b)"

definition advance_chunk :: "nat \<Rightarrow> WriteBuffer \<Rightarrow> WriteBuffer" where
  "advance_chunk n b =
     (let b = b\<lparr>read_offset := read_offset b + n, total_size := total_size b - of_nat n\<rparr>
      in if length (hd (chunks b)) \<le> read_offset b
         then b\<lparr>chunks := tl (chunks b), read_offset := 0\<rparr>
         else b)"

partial_function (option) flush_priority_unlocked ::
    "fd \<Rightarrow> WriteBuffer \<Rightarrow> os \<Rightarrow> (bool \<times> WriteBuffer \<times> os) option" where
  "flush_priority_unlocked f b w =
     (case priority_chunks b of
        [] \<Rightarrow> Some (True, b, w)
      | msg # _ \<Rightarrow>
          (case sys_write f (drop (priority_read_offset b) msg) w of
             (WrOk n, w') \<Rightarrow>
               (if 0 < n then flush_priority_unlocked f (advance_priority n b) w'
                else flush_priority_unlocked f b w')
           | (WrAgain, w') \<Rightarrow> Some (False, b, w')
           | (WrErr, w') \<Rightarrow> Some (True, b, w')))"

partial_function (option) flush_unlocked ::
    "fd \<Rightarrow> WriteBuffer \<Rightarrow> os \<Rightarrow> (bool \<times> WriteBuffer \<times> os) option" where
  "flush_unlocked f b w =
     (case chunks b of
        [] \<Rightarrow> flush_priority_unlocked f b w
      | front # _ \<Rightarrow>
          (case sys_write f (drop (read_offset b) front) w of
             (WrOk n, w') \<Rightarrow>
               (if 0 < n then
                  let b' = advance_chunk n b
                  in if length front \<le> read_offset b + n
                     then Option.bind (flush_priority_unlocked f b' w')
                       (\<lambda>(r, b'', w''). if r then flush_unlocked f b'' w'' else Some (False, b'', w''))
                     else flush_unlocked f b' w'
                else flush_unlocked f b w')
           | (WrAgain, w') \<Rightarrow> Some (False, b, w')
           | (WrErr, w') \<Rightarrow> Some (True, b, w')))"

declare flush_priority_unlocked.simps [code] flush_unlocked.simps [code]

text \<open>\<open>write\<close> returns 0 (all accepted), 1 (something is buffered) or -1 (hard error).\<close>

definition wb_write :: "fd \<Rightarrow> bytes \<Rightarrow> WriteBuffer \<Rightarrow> os \<Rightarrow> (int \<times> WriteBuffer \<times> os) option" where
  "wb_write f data b w =
     do {
       (b, w) \<leftarrow> (if chunks b \<noteq> []
                   then map_option snd (flush_unlocked f b w)
                   else Some (b, w));
       if chunks b \<noteq> [] then Some (1, push_chunk data b, w)
       else (case sys_write f data w of
               (WrAgain, w) \<Rightarrow> Some (1, push_chunk data b, w)
             | (WrErr, w) \<Rightarrow> Some (-1, b, w)
             | (WrOk n, w) \<Rightarrow>
                 if n < length data then Some (1, push_chunk (drop n data) b, w)
                 else Some (0, b, w))
     }"

definition wb_flush :: "fd \<Rightarrow> WriteBuffer \<Rightarrow> os \<Rightarrow> (bool \<times> WriteBuffer \<times> os) option" where
  "wb_flush f b w = flush_unlocked f b w"

section \<open>Invariant\<close>

fun queue_pending :: "nat \<Rightarrow> bytes list \<Rightarrow> bytes" where
  "queue_pending off [] = []"
| "queue_pending off (c # cs) = drop off c @ concat cs"

fun queue_ok :: "nat \<Rightarrow> bytes list \<Rightarrow> bool" where
  "queue_ok off [] \<longleftrightarrow> off = 0"
| "queue_ok off (c # cs) \<longleftrightarrow> off < length c \<and> [] \<notin> set cs"

definition data_pending :: "WriteBuffer \<Rightarrow> bytes" where
  "data_pending b = queue_pending (read_offset b) (chunks b)"

definition prio_pending :: "WriteBuffer \<Rightarrow> bytes" where
  "prio_pending b = queue_pending (priority_read_offset b) (priority_chunks b)"

definition wb_inv :: "WriteBuffer \<Rightarrow> bool" where
  "wb_inv b \<longleftrightarrow> queue_ok (read_offset b) (chunks b)
     \<and> queue_ok (priority_read_offset b) (priority_chunks b)
     \<and> total_size b = of_nat (length (data_pending b) + length (prio_pending b))"

text \<open>What a flush that is not interrupted puts on the wire.\<close>

definition wb_stream :: "WriteBuffer \<Rightarrow> bytes" where
  "wb_stream b =
     (case chunks b of [] \<Rightarrow> prio_pending b
      | c # cs \<Rightarrow> drop (read_offset b) c @ prio_pending b @ concat cs)"

lemmas wb_defs = wb_inv_def data_pending_def prio_pending_def

lemma queue_ok_snoc: "queue_ok off cs \<Longrightarrow> c \<noteq> [] \<Longrightarrow> queue_ok off (cs @ [c])"
  by (cases cs) auto

lemma queue_pending_snoc: "queue_ok off cs \<Longrightarrow> queue_pending off (cs @ [c]) = queue_pending off cs @ c"
  by (cases cs) auto

lemma wb_inv_new [simp]: "wb_inv wb_new"
  by (simp add: wb_defs wb_new_def)

lemma wb_inv_clear [inv_intros]: "wb_inv (wb_clear b)"
  by (simp add: wb_defs wb_clear_def)

lemma wb_inv_push [inv_intros]: "wb_inv b \<Longrightarrow> data \<noteq> [] \<Longrightarrow> wb_inv (push_chunk data b)"
  by (simp add: wb_defs push_chunk_def queue_ok_snoc queue_pending_snoc)

lemma wb_inv_write_priority [inv_intros]:
  "wb_inv b \<Longrightarrow> data \<noteq> [] \<Longrightarrow> wb_inv (write_priority data b)"
  by (simp add: wb_defs write_priority_def queue_ok_snoc queue_pending_snoc)

lemma data_pending_push: "wb_inv b \<Longrightarrow> data_pending (push_chunk data b) = data_pending b @ data"
  by (simp add: wb_defs push_chunk_def queue_pending_snoc)

lemma prio_pending_push [simp]: "prio_pending (push_chunk data b) = prio_pending b"
  by (simp add: prio_pending_def push_chunk_def)

lemma wb_empty_iff: "wb_inv b \<Longrightarrow> wb_empty b \<longleftrightarrow> data_pending b = [] \<and> prio_pending b = []"
  by (cases "chunks b"; cases "priority_chunks b") (auto simp: wb_defs wb_empty_def)

text \<open>The size the watermarks look at is the number of bytes not yet accepted by the socket.\<close>

lemma wb_size_pending:
  "wb_inv b \<Longrightarrow> length (data_pending b) + length (prio_pending b) < 2 ^ 64 \<Longrightarrow>
   unat (wb_size b) = length (data_pending b) + length (prio_pending b)"
  by (simp only: wb_inv_def wb_size_def unat_of_nat_u64)

section \<open>One accepted write\<close>

lemma queue_pop: "queue_ok off (c # cs) \<Longrightarrow> queue_ok 0 cs"
  by (cases cs) auto

lemma queue_pending_pop: "queue_pending off (c # cs) = drop off c @ queue_pending 0 cs"
  by (cases cs) auto

lemma queue_advance:
  assumes "queue_ok off (c # cs)" and "0 < n" and "n \<le> length (drop off c)"
    and "(off', cs') = (if length c \<le> off + n then (0, cs) else (off + n, c # cs))"
  shows "queue_ok off' cs' \<and> queue_pending off (c # cs) = take n (drop off c) @ queue_pending off' cs'"
proof (cases "length c \<le> off + n")
  case True
  then have "take n (drop off c) = drop off c" by simp
  then show ?thesis
    using assms True queue_pop [OF assms(1)] by (simp add: queue_pending_pop del: queue_pending.simps)
next
  case False
  have "drop off c = take n (drop off c) @ drop (off + n) c"
    by (metis append_take_drop_id drop_drop add.commute)
  then show ?thesis using assms False by simp
qed

lemma advance_priority_spec:
  assumes "wb_inv b" and "priority_chunks b = m # ms"
    and "0 < n" and "n \<le> length (drop (priority_read_offset b) m)"
  shows "wb_inv (advance_priority n b)
    \<and> prio_pending b = take n (drop (priority_read_offset b) m) @ prio_pending (advance_priority n b)"
proof -
  let ?b = "advance_priority n b"
  have "(priority_read_offset ?b, priority_chunks ?b)
      = (if length m \<le> priority_read_offset b + n then (0, ms) else (priority_read_offset b + n, m # ms))"
    using assms(2) by (simp add: advance_priority_def Let_def)
  from queue_advance [OF _ assms(3,4) this] assms(1,2)
  have q: "queue_ok (priority_read_offset ?b) (priority_chunks ?b)"
    and p: "prio_pending b = take n (drop (priority_read_offset b) m) @ prio_pending ?b"
    by (simp_all add: wb_defs)
  have "length (prio_pending b) = n + length (prio_pending ?b)" using p assms(4) by simp
  moreover have "total_size ?b = total_size b - of_nat n" "chunks ?b = chunks b"
    "read_offset ?b = read_offset b"
    by (simp_all add: advance_priority_def Let_def)
  ultimately show ?thesis using assms(1) p q by (simp add: wb_inv_def data_pending_def)
qed

lemma advance_chunk_spec:
  assumes "wb_inv b" and "chunks b = c # cs"
    and "0 < n" and "n \<le> length (drop (read_offset b) c)"
  shows "wb_inv (advance_chunk n b)
    \<and> data_pending b = take n (drop (read_offset b) c) @ data_pending (advance_chunk n b)"
proof -
  let ?b = "advance_chunk n b"
  have "(read_offset ?b, chunks ?b)
      = (if length c \<le> read_offset b + n then (0, cs) else (read_offset b + n, c # cs))"
    using assms(2) by (simp add: advance_chunk_def Let_def)
  from queue_advance [OF _ assms(3,4) this] assms(1,2)
  have q: "queue_ok (read_offset ?b) (chunks ?b)"
    and p: "data_pending b = take n (drop (read_offset b) c) @ data_pending ?b"
    by (simp_all add: wb_defs)
  have "length (data_pending b) = n + length (data_pending ?b)" using p assms(4) by simp
  moreover have "total_size ?b = total_size b - of_nat n" "priority_chunks ?b = priority_chunks b"
    "priority_read_offset ?b = priority_read_offset b"
    by (simp_all add: advance_chunk_def Let_def)
  ultimately show ?thesis using assms(1) p q by (simp add: wb_inv_def prio_pending_def)
qed

lemma advance_priority_frame [simp]:
  "chunks (advance_priority n b) = chunks b"
  "read_offset (advance_priority n b) = read_offset b"
  "registered (advance_priority n b) = registered b"
  by (simp_all add: advance_priority_def Let_def)

lemma advance_chunk_frame [simp]:
  "priority_chunks (advance_chunk n b) = priority_chunks b"
  "priority_read_offset (advance_chunk n b) = priority_read_offset b"
  "registered (advance_chunk n b) = registered b"
  by (simp_all add: advance_chunk_def Let_def)

section \<open>The flush loops\<close>

text \<open>What a flush of the priority queue does, on every way it returns.\<close>

definition prio_flushed :: "fd \<Rightarrow> WriteBuffer \<Rightarrow> os \<Rightarrow> bool \<Rightarrow> WriteBuffer \<Rightarrow> os \<Rightarrow> bool" where
  "prio_flushed f b w r b' w' \<longleftrightarrow>
     (\<exists>out. io_ext f w out w' \<and> prio_pending b = out @ prio_pending b')
     \<and> wb_inv b' \<and> chunks b' = chunks b \<and> read_offset b' = read_offset b
     \<and> registered b' = registered b
     \<and> (\<not> r \<longrightarrow> priority_chunks b' \<noteq> []) \<and> (r \<longrightarrow> no_error w \<longrightarrow> priority_chunks b' = [])"

lemma flush_priority_spec:
  "wb_inv b \<Longrightarrow> \<exists>r b' w'. flush_priority_unlocked f b w = Some (r, b', w') \<and> prio_flushed f b w r b' w'"
proof (induction "length (prio_pending b)" arbitrary: b w rule: less_induct)
  case less
  show ?case
  proof (cases "priority_chunks b")
    case Nil
    then show ?thesis
      using less.prems
      by (subst flush_priority_unlocked.simps) (auto simp: prio_flushed_def intro!: exI [of _ "[]"])
  next
    case (Cons m ms)
    let ?d = "drop (priority_read_offset b) m"
    have ne: "?d \<noteq> []" using less.prems Cons by (simp add: wb_inv_def)
    note eq = flush_priority_unlocked.simps [of f b w]
    from ne show ?thesis
    proof (cases rule: sys_write_cases [of _ f w])
      case (ok n w')
      let ?b = "advance_priority n b"
      from advance_priority_spec [OF less.prems Cons ok(2,3)]
      have inv: "wb_inv ?b" and p: "prio_pending b = take n ?d @ prio_pending ?b" by simp_all
      then have "length (prio_pending ?b) < length (prio_pending b)" using ok(2) ne by simp
      from less.hyps [OF this inv, of w'] obtain r b' w'' where
        fl: "flush_priority_unlocked f ?b w' = Some (r, b', w'')" and post: "prio_flushed f ?b w' r b' w''"
        by blast
      from post obtain out where "io_ext f w' out w''" and q: "prio_pending ?b = out @ prio_pending b'"
        by (auto simp: prio_flushed_def)
      with ok(4) have "io_ext f w (take n ?d @ out) w''" by (blast intro: io_ext_trans)
      moreover have "prio_pending b = (take n ?d @ out) @ prio_pending b'" using p q by simp
      ultimately have "prio_flushed f b w r b' w''"
        using post io_ext_no_error [OF ok(4)] unfolding prio_flushed_def by (auto simp del: append_assoc)
      then show ?thesis using eq Cons ok(1,2) fl by simp
    next
      case (again w')
      then show ?thesis
        using eq Cons less.prems by (auto simp: prio_flushed_def intro!: exI [of _ "[]"])
    next
      case (err w')
      then show ?thesis
        using eq Cons less.prems by (auto simp: prio_flushed_def intro!: exI [of _ "[]"])
    qed
  qed
qed

text \<open>
  What a flush does: the bytes sent are an interleaving of a front part of the data queue and a
  front part of the priority queue, and a data chunk that was begun is finished before anything
  else is sent.  A flush that reports success without a socket error leaves the buffer empty.
\<close>

definition flushed :: "fd \<Rightarrow> WriteBuffer \<Rightarrow> os \<Rightarrow> bool \<Rightarrow> WriteBuffer \<Rightarrow> os \<Rightarrow> bool" where
  "flushed f b w r b' w' \<longleftrightarrow>
     (\<exists>out d p. io_ext f w out w' \<and> out \<in> shuffles d p
        \<and> data_pending b = d @ data_pending b' \<and> prio_pending b = p @ prio_pending b'
        \<and> (\<forall>c cs. chunks b = c # cs \<longrightarrow>
              (\<exists>s. drop (read_offset b) c = out @ s) \<or> (\<exists>s. out = drop (read_offset b) c @ s))
        \<and> (r \<longrightarrow> no_error w \<longrightarrow> out = wb_stream b \<and> wb_empty b'))
     \<and> wb_inv b' \<and> registered b' = registered b \<and> (\<not> r \<longrightarrow> \<not> wb_empty b')"

lemma flushedI:
  assumes "io_ext f w out w'" and "out \<in> shuffles d p"
    and "data_pending b = d @ data_pending b'" and "prio_pending b = p @ prio_pending b'"
    and "\<And>c cs. chunks b = c # cs \<Longrightarrow>
      (\<exists>s. drop (read_offset b) c = out @ s) \<or> (\<exists>s. out = drop (read_offset b) c @ s)"
    and "r \<Longrightarrow> no_error w \<Longrightarrow> out = wb_stream b \<and> wb_empty b'"
    and "wb_inv b'" and "registered b' = registered b" and "\<not> r \<Longrightarrow> \<not> wb_empty b'"
  shows "flushed f b w r b' w'"
  unfolding flushed_def using assms by metis

lemma flushedE:
  assumes "flushed f b w r b' w'"
  obtains out d p where "io_ext f w out w'" and "out \<in> shuffles d p"
    and "data_pending b = d @ data_pending b'" and "prio_pending b = p @ prio_pending b'"
    and "\<And>c cs. chunks b = c # cs \<Longrightarrow>
      (\<exists>s. drop (read_offset b) c = out @ s) \<or> (\<exists>s. out = drop (read_offset b) c @ s)"
    and "r \<Longrightarrow> no_error w \<Longrightarrow> out = wb_stream b \<and> wb_empty b'"
    and "wb_inv b'" and "registered b' = registered b" and "\<not> r \<Longrightarrow> \<not> wb_empty b'"
  using assms unfolding flushed_def by metis

lemma prio_flushed_no_data:
  assumes "chunks b = []" and "prio_flushed f b w r b' w'"
  shows "flushed f b w r b' w'"
proof -
  from assms(2) obtain out where o: "io_ext f w out w'" "prio_pending b = out @ prio_pending b'"
    and rest: "wb_inv b'" "chunks b' = chunks b" "read_offset b' = read_offset b" "registered b' = registered b"
    "\<not> r \<longrightarrow> priority_chunks b' \<noteq> []" "r \<longrightarrow> no_error w \<longrightarrow> priority_chunks b' = []"
    by (auto simp: prio_flushed_def)
  show ?thesis
    by (rule flushedI [of f w out w' "[]" out])
      (use o rest assms(1) in \<open>auto simp: data_pending_def wb_empty_def wb_stream_def prio_pending_def\<close>)
qed

text \<open>Part of the front chunk was accepted; the loop goes on with the same chunk.\<close>

lemma flushed_partial:
  assumes "wb_inv b" and "chunks b = c # cs" and "0 < n" and "n \<le> length (drop (read_offset b) c)"
    and "io_ext f w (take n (drop (read_offset b) c)) w'"
    and "\<not> length c \<le> read_offset b + n"
    and "flushed f (advance_chunk n b) w' r b' w''"
  shows "flushed f b w r b' w''"
proof -
  let ?d = "drop (read_offset b) c" and ?b = "advance_chunk n b"
  from advance_chunk_spec [OF assms(1-4)] have q: "data_pending b = take n ?d @ data_pending ?b" by simp
  have ch: "chunks ?b = c # cs" "read_offset ?b = read_offset b + n"
    using assms(2,6) by (simp_all add: advance_chunk_def Let_def)
  have split: "?d = take n ?d @ drop (read_offset b + n) c"
    by (metis append_take_drop_id drop_drop add.commute)
  have pp: "prio_pending ?b = prio_pending b" by (simp add: prio_pending_def)
  have st: "wb_stream b = take n ?d @ wb_stream ?b"
    using assms(2) ch pp split by (simp add: wb_stream_def flip: append_assoc)
  from assms(7) show ?thesis
  proof (rule flushedE)
    fix out d p
    assume o: "io_ext f w' out w''" "out \<in> shuffles d p"
      "data_pending ?b = d @ data_pending b'" "prio_pending ?b = p @ prio_pending b'"
      "\<And>c cs. chunks ?b = c # cs \<Longrightarrow>
         (\<exists>s. drop (read_offset ?b) c = out @ s) \<or> (\<exists>s. out = drop (read_offset ?b) c @ s)"
      "r \<Longrightarrow> no_error w' \<Longrightarrow> out = wb_stream ?b \<and> wb_empty b'"
      and rest: "wb_inv b'" "registered b' = registered ?b" "\<not> r \<Longrightarrow> \<not> wb_empty b'"
    have begun: "(\<exists>s. ?d = (take n ?d @ out) @ s) \<or> (\<exists>s. take n ?d @ out = ?d @ s)"
      using o(5) [OF ch(1)] ch(2) split by (metis append_assoc)
    show "flushed f b w r b' w''"
    proof (rule flushedI [of f w "take n ?d @ out" w'' "take n ?d @ d" "[] @ p"])
      show "io_ext f w (take n ?d @ out) w''" using assms(5) o(1) by (rule io_ext_trans)
      show "take n ?d @ out \<in> shuffles (take n ?d @ d) ([] @ p)"
        by (rule shuffles_append) (simp_all add: o(2))
    qed (use q o pp rest begun assms(2) st io_ext_no_error [OF assms(5)] in auto)
  qed
qed

text \<open>
  The front chunk was finished: its tail was sent, then the priority queue.  Either the priority
  flush was cut short, or the loop goes on with the remaining chunks.
\<close>

lemma flushed_boundary:
  assumes "wb_inv b" and "chunks b = c # cs" and "0 < n" and "n \<le> length (drop (read_offset b) c)"
    and "io_ext f w (take n (drop (read_offset b) c)) w1"
    and "length c \<le> read_offset b + n"
    and "prio_flushed f (advance_chunk n b) w1 r1 b2 w2"
    and "r1 \<Longrightarrow> flushed f b2 w2 r b' w'"
    and "\<not> r1 \<Longrightarrow> (r, b', w') = (False, b2, w2)"
  shows "flushed f b w r b' w'"
proof -
  let ?d = "drop (read_offset b) c" and ?b1 = "advance_chunk n b"
  have td: "take n ?d = ?d" using assms(6) by simp
  from advance_chunk_spec [OF assms(1-4)] have q: "data_pending b = ?d @ data_pending ?b1"
    using td by simp
  have ch: "chunks ?b1 = cs" "read_offset ?b1 = 0"
    using assms(2,6) by (simp_all add: advance_chunk_def Let_def)
  have pp: "prio_pending ?b1 = prio_pending b" by (simp add: prio_pending_def)
  from assms(7) obtain o1 where o1: "io_ext f w1 o1 w2" "prio_pending b = o1 @ prio_pending b2"
    and b2: "wb_inv b2" "chunks b2 = cs" "read_offset b2 = 0" "registered b2 = registered b"
      "\<not> r1 \<Longrightarrow> priority_chunks b2 \<noteq> []" "r1 \<Longrightarrow> no_error w1 \<Longrightarrow> priority_chunks b2 = []"
    by (auto simp: prio_flushed_def ch pp)
  have d2: "data_pending b2 = data_pending ?b1" using b2 ch by (simp add: data_pending_def)
  have io12: "io_ext f w (?d @ o1) w2" using assms(5) o1(1) td io_ext_trans by metis
  show ?thesis
  proof (cases r1)
    case False
    then have res: "r = False" "b' = b2" "w' = w2" using assms(9) by simp_all
    show ?thesis
      unfolding res
      by (rule flushedI [of f w "?d @ o1" w2 ?d o1])
        (use io12 q d2 o1 b2 False assms(2) in \<open>auto simp: wb_empty_def intro: append_in_shufflesI\<close>)
  next
    case True
    have ne: "no_error w2" if "no_error w" using that io12 by (rule io_ext_no_error [rotated])
    have st: "wb_stream b = (?d @ o1) @ wb_stream b2" if "no_error w"
    proof -
      have "priority_chunks b2 = []"
        using b2(6) True io_ext_no_error [OF assms(5) that] by simp
      then have "prio_pending b2 = []" by (simp add: prio_pending_def)
      then show ?thesis
        using assms(2) o1(2) b2(2,3) by (cases cs) (simp_all add: wb_stream_def)
    qed
    from assms(8) [OF True] show ?thesis
    proof (rule flushedE)
      fix out d p
      assume o: "io_ext f w2 out w'" "out \<in> shuffles d p"
        "data_pending b2 = d @ data_pending b'" "prio_pending b2 = p @ prio_pending b'"
        "r \<Longrightarrow> no_error w2 \<Longrightarrow> out = wb_stream b2 \<and> wb_empty b'"
        and rest: "wb_inv b'" "registered b' = registered b2" "\<not> r \<Longrightarrow> \<not> wb_empty b'"
      show "flushed f b w r b' w'"
      proof (rule flushedI [of f w "(?d @ o1) @ out" w' "?d @ d" "o1 @ p"])
        show "io_ext f w ((?d @ o1) @ out) w'" using io12 o(1) by (rule io_ext_trans)
        show "(?d @ o1) @ out \<in> shuffles (?d @ d) (o1 @ p)"
          by (rule shuffles_append) (simp_all add: o(2) append_in_shufflesI)
      qed (use q d2 o o1 b2 rest assms(2) st ne in auto)
    qed
  qed
qed

lemma flush_spec:
  "wb_inv b \<Longrightarrow> \<exists>r b' w'. flush_unlocked f b w = Some (r, b', w') \<and> flushed f b w r b' w'"
proof (induction "length (data_pending b)" arbitrary: b w rule: less_induct)
  case less
  note eq = flush_unlocked.simps [of f b w]
  show ?case
  proof (cases "chunks b")
    case Nil
    then show ?thesis
      using flush_priority_spec [OF less.prems, of f w] prio_flushed_no_data [OF Nil] eq by fastforce
  next
    case (Cons c cs)
    let ?d = "drop (read_offset b) c"
    have ne: "?d \<noteq> []" using less.prems Cons by (simp add: wb_inv_def)
    from ne show ?thesis
    proof (cases rule: sys_write_cases [of _ f w])
      case (ok n w1)
      let ?b = "advance_chunk n b"
      from advance_chunk_spec [OF less.prems Cons ok(2,3)]
      have inv: "wb_inv ?b" and "data_pending b = take n ?d @ data_pending ?b" by simp_all
      then have dec: "length (data_pending ?b) < length (data_pending b)" using ok(2) ne by simp
      show ?thesis
      proof (cases "length c \<le> read_offset b + n")
        case False
        from less.hyps [OF dec inv, of w1] obtain r b' w' where
          "flush_unlocked f ?b w1 = Some (r, b', w')" "flushed f ?b w1 r b' w'" by blast
        then show ?thesis
          using eq Cons ok(1,2) False flushed_partial [OF less.prems Cons ok(2,3,4) False]
          by (auto simp: Let_def)
      next
        case True
        from flush_priority_spec [OF inv, of f w1] obtain r1 b2 w2 where
          fp: "flush_priority_unlocked f ?b w1 = Some (r1, b2, w2)" "prio_flushed f ?b w1 r1 b2 w2" by blast
        note boundary = flushed_boundary [OF less.prems Cons ok(2,3,4) True fp(2)]
        show ?thesis
        proof (cases r1)
          case False
          then show ?thesis using eq Cons ok(1,2) True fp(1) boundary by (auto simp: Let_def)
        next
          case r1: True
          have "wb_inv b2" "data_pending b2 = data_pending ?b"
            using fp(2) by (auto simp: prio_flushed_def data_pending_def)
          with less.hyps [of b2 w2] dec obtain r b' w' where
            "flush_unlocked f b2 w2 = Some (r, b', w')" "flushed f b2 w2 r b' w'" by auto
          then show ?thesis using eq Cons ok(1,2) True fp(1) r1 boundary by (auto simp: Let_def)
        qed
      qed
    next
      case (again w')
      have "flushed f b w False b w'"
        by (rule flushedI [of f w "[]" w' "[]" "[]"]) (use again less.prems Cons in \<open>auto simp: wb_empty_def\<close>)
      then show ?thesis using eq Cons again(1) by auto
    next
      case (err w')
      have "flushed f b w True b w'"
        by (rule flushedI [of f w "[]" w' "[]" "[]"]) (use err less.prems Cons in \<open>auto simp: wb_empty_def\<close>)
      then show ?thesis using eq Cons err(1) by auto
    qed
  qed
qed

section \<open>Buffered write\<close>

text \<open>
  \<open>write\<close> of a non-empty message: on 0 and 1 the message joined the data stream exactly once, at
  its end; on -1 it was dropped, and the socket had failed.
\<close>

definition written :: "fd \<Rightarrow> bytes \<Rightarrow> WriteBuffer \<Rightarrow> os \<Rightarrow> int \<Rightarrow> WriteBuffer \<Rightarrow> os \<Rightarrow> bool" where
  "written f data b w ret b' w' \<longleftrightarrow>
     wb_inv b' \<and> registered b' = registered b
     \<and> (\<exists>out d p. io_ext f w out w' \<and> out \<in> shuffles d p
          \<and> prio_pending b = p @ prio_pending b'
          \<and> (if ret = -1 then data_pending b = d \<and> data_pending b' = [] \<and> \<not> no_error w
             else data_pending b @ data = d @ data_pending b'))
     \<and> (ret = 0 \<and> chunks b' = [] \<or> ret = 1 \<and> chunks b' \<noteq> [] \<or> ret = -1)"

lemma no_chunks_no_data: "wb_inv b \<Longrightarrow> chunks b = [] \<Longrightarrow> data_pending b = []"
  by (simp add: data_pending_def)

lemma push_chunk_sel [simp]:
  "chunks (push_chunk data b) = chunks b @ [data]"
  "registered (push_chunk data b) = registered b"
  by (simp_all add: push_chunk_def)

lemma writtenI:
  assumes "wb_inv b'" and "registered b' = registered b" and "io_ext f w out w'"
    and "out \<in> shuffles d p" and "prio_pending b = p @ prio_pending b'"
    and "data_pending b @ data = d @ data_pending b'"
    and "ret = 0 \<and> chunks b' = [] \<or> ret = 1 \<and> chunks b' \<noteq> []"
  shows "written f data b w ret b' w'"
  unfolding written_def using assms by force

lemma flushed_then_queue:
  assumes "flushed f b w r b1 w1" and "data \<noteq> []"
  shows "written f data b w 1 (push_chunk data b1) w1"
  using assms(1)
proof (rule flushedE)
  fix out d p
  assume "io_ext f w out w1" "out \<in> shuffles d p" "data_pending b = d @ data_pending b1"
    "prio_pending b = p @ prio_pending b1" "wb_inv b1" "registered b1 = registered b"
  then show ?thesis
    using assms(2)
    by (intro writtenI [where out = out and d = d and p = p]) (simp_all add: data_pending_push wb_inv_push)
qed

lemma direct_write:
  assumes "wb_inv b" and "chunks b = []" and "data \<noteq> []"
    and "(case sys_write f data w of
            (WrAgain, w) \<Rightarrow> Some (1, push_chunk data b, w)
          | (WrErr, w) \<Rightarrow> Some (-1, b, w)
          | (WrOk n, w) \<Rightarrow> if n < length data then Some (1, push_chunk (drop n data) b, w)
                          else Some (0, b, w)) = Some (ret, b', w')"
  shows "written f data b w ret b' w'"
proof -
  have nd: "data_pending b = []" using assms(1,2) by (rule no_chunks_no_data)
  from assms(3) show ?thesis
  proof (cases rule: sys_write_cases [of _ f w])
    case (ok n w1)
    show ?thesis
    proof (cases "n < length data")
      case True
      then have "drop n data \<noteq> []" by simp
      then show ?thesis
        using assms ok True nd
        by (intro writtenI [where out = "take n data" and d = "take n data" and p = "[]"])
          (auto simp: data_pending_push wb_inv_push)
    next
      case False
      then show ?thesis
        using assms ok nd by (intro writtenI [where out = data and d = data and p = "[]"]) auto
    qed
  next
    case (again w1)
    then show ?thesis
      using assms nd
      by (intro writtenI [where out = "[]" and d = "[]" and p = "[]"]) (auto simp: data_pending_push wb_inv_push)
  next
    case (err w1)
    then show ?thesis
      using assms nd by (auto simp: written_def intro!: exI [of _ "[]"])
  qed
qed

lemma direct_write_returns:
  "\<exists>ret b' w'. (case sys_write f data w of
            (WrAgain, w) \<Rightarrow> Some (1, push_chunk data b, w)
          | (WrErr, w) \<Rightarrow> Some (-1, b, w)
          | (WrOk n, w) \<Rightarrow> if n < length data then Some (1, push_chunk (drop n data) b, w)
                          else Some (0, b, w)) = Some (ret, b', w')"
  by (auto split: prod.split wr_ret.split)

text \<open>A direct write after a flush that emptied the data queue.\<close>

lemma flushed_then_written:
  assumes "flushed f b w r b1 w1" and "chunks b1 = []" and "written f data b1 w1 ret b' w'"
  shows "written f data b w ret b' w'"
  using assms(1)
proof (rule flushedE)
  fix o1 d1 p1
  assume f: "io_ext f w o1 w1" "o1 \<in> shuffles d1 p1" "data_pending b = d1 @ data_pending b1"
    "prio_pending b = p1 @ prio_pending b1" "wb_inv b1" "registered b1 = registered b"
  have d0: "data_pending b1 = []" using f(5) assms(2) by (rule no_chunks_no_data)
  from assms(3) obtain o2 d2 p2 where w: "io_ext f w1 o2 w'" "o2 \<in> shuffles d2 p2"
    "prio_pending b1 = p2 @ prio_pending b'"
    "if ret = -1 then data_pending b1 = d2 \<and> data_pending b' = [] \<and> \<not> no_error w1
     else data_pending b1 @ data = d2 @ data_pending b'"
    and r: "wb_inv b'" "registered b' = registered b1"
      "ret = 0 \<and> chunks b' = [] \<or> ret = 1 \<and> chunks b' \<noteq> [] \<or> ret = -1"
    by (auto simp: written_def)
  have io: "io_ext f w (o1 @ o2) w'" using f(1) w(1) by (rule io_ext_trans)
  have sh: "o1 @ o2 \<in> shuffles (d1 @ d2) (p1 @ p2)" using f(2) w(2) by (rule shuffles_append)
  have err: "\<not> no_error w" if "\<not> no_error w1" using that io_ext_no_error [OF f(1)] by blast
  show ?thesis
    unfolding written_def
    using io sh f w r d0 err
    by (intro conjI exI [of _ "o1 @ o2"] exI [of _ "d1 @ d2"] exI [of _ "p1 @ p2"])
      (auto split: if_splits)
qed

lemma wb_write_spec:
  assumes "wb_inv b" and "data \<noteq> []"
  shows "\<exists>ret b' w'. wb_write f data b w = Some (ret, b', w') \<and> written f data b w ret b' w'"
proof (cases "chunks b = []")
  case True
  then show ?thesis
    using direct_write_returns [where f = f and data = data and w = w and b = b] direct_write [OF assms(1) True assms(2), where f = f and w = w]
    by (simp add: wb_write_def) blast
next
  case False
  from flush_spec [OF assms(1), of f w] obtain r b1 w1 where
    fl: "flush_unlocked f b w = Some (r, b1, w1)" "flushed f b w r b1 w1" by blast
  have inv: "wb_inv b1" using fl(2) by (auto elim: flushedE)
  show ?thesis
  proof (cases "chunks b1 = []")
    case True
    then show ?thesis
      using False fl direct_write_returns [where f = f and data = data and w = w1 and b = b1]
        direct_write [OF inv True assms(2), where f = f and w = w1] flushed_then_written [OF fl(2) True, where data = data]
      by (simp add: wb_write_def) blast
  next
    case chunks: False
    then show ?thesis
      using False fl(1) flushed_then_queue [OF fl(2) assms(2)] by (simp add: wb_write_def)
  qed
qed

section \<open>An empty chunk\<close>

text \<open>
  The loop of \<open>flush_unlocked\<close> on an empty front chunk: \<open>::write\<close> of no bytes returns 0, neither
  test of the body applies, and the next round starts from the same state.
\<close>

lemma flush_empty_chunk: "chunks b = [] # cs \<Longrightarrow> flush_unlocked f b w = None"
proof (rule ccontr)
  assume "chunks b = [] # cs" and "flush_unlocked f b w \<noteq> None"
  then obtain y where "flush_unlocked f b w = Some y" by auto
  then have "chunks b \<noteq> [] # cs"
    by (rule flush_unlocked.raw_induct [where P = "\<lambda>f b w y. chunks b \<noteq> [] # cs", rotated])
      (auto split: list.splits)
  with \<open>chunks b = [] # cs\<close> show False by simp
qed

section \<open>Properties\<close>

definition os_with :: "wr_answer list \<Rightarrow> os" where
  "os_with as = \<lparr>wr_answers = as, sent = [], closed_fds = [], shut_wr = []\<rparr>"

text \<open>
  C10: a flush of a well-formed buffer returns; the bytes it sends are an interleaving of a front
  part of the data queue and a front part of the priority queue with nothing lost, duplicated or
  reordered within either; a data chunk already begun is finished before any priority byte is
  sent; and success without a socket error means everything was sent and the buffer is empty.
\<close>

theorem flush_conserves:
  assumes "wb_inv b"
  shows "\<exists>r b' w' out d p. wb_flush f b w = Some (r, b', w') \<and> wb_inv b'
    \<and> io_ext f w out w' \<and> out \<in> shuffles d p
    \<and> data_pending b = d @ data_pending b' \<and> prio_pending b = p @ prio_pending b'
    \<and> (\<forall>c cs. chunks b = c # cs \<longrightarrow>
          (\<exists>s. drop (read_offset b) c = out @ s) \<or> (\<exists>s. out = drop (read_offset b) c @ s))
    \<and> (\<not> r \<longrightarrow> \<not> wb_empty b') \<and> (r \<longrightarrow> no_error w \<longrightarrow> out = wb_stream b \<and> wb_empty b')"
proof -
  from flush_spec [OF assms, of f w] obtain r b' w' where
    fl: "wb_flush f b w = Some (r, b', w')" and post: "flushed f b w r b' w'"
    unfolding wb_flush_def by blast
  from post show ?thesis
    by (rule flushedE) (use fl in blast)
qed

theorem flush_conserves_witness:
  "wb_inv (push_chunk [1, 2] wb_new)
   \<and> (\<exists>r b' w'. wb_flush 5 (push_chunk [1, 2] wb_new) (os_with [Wrote 1]) = Some (r, b', w') \<and> wb_inv b')"
proof -
  have h: "wb_inv (push_chunk [1, 2] wb_new)" by (rule wb_inv_push) simp_all
  show ?thesis using h flush_conserves [OF h, of 5 "os_with [Wrote 1]"] by blast
qed

text \<open>
  C23: \<open>write\<close> of a non-empty message on a well-formed buffer returns, keeps the invariant, and on
  the results 0 and 1 appends the message to the data stream exactly once, after everything queued
  before; 0 means that no data is left queued, 1 that some is; -1 means the socket failed and the
  message was dropped.
\<close>

theorem write_appends:
  assumes "wb_inv b" and "data \<noteq> []"
  shows "\<exists>ret b' w' out d p. wb_write f data b w = Some (ret, b', w') \<and> wb_inv b'
    \<and> io_ext f w out w' \<and> out \<in> shuffles d p \<and> prio_pending b = p @ prio_pending b'
    \<and> (ret = 0 \<and> data_pending b @ data = d \<and> data_pending b' = []
       \<or> ret = 1 \<and> data_pending b @ data = d @ data_pending b' \<and> data_pending b' \<noteq> []
       \<or> ret = -1 \<and> data_pending b = d \<and> data_pending b' = [] \<and> \<not> no_error w)"
proof -
  from wb_write_spec [OF assms, of f w] obtain ret b' w' where
    wr: "wb_write f data b w = Some (ret, b', w')" and post: "written f data b w ret b' w'" by blast
  have "data_pending b' = [] \<longleftrightarrow> chunks b' = []"
    using post by (cases "chunks b'") (auto simp: written_def wb_defs)
  with wr post show ?thesis unfolding written_def by (auto split: if_splits)
qed

theorem write_appends_witness:
  "\<exists>ret b' w'. wb_write 5 [7, 8, 9] wb_new (os_with [Wrote 1]) = Some (ret, b', w') \<and> wb_inv b'"
  using write_appends [OF wb_inv_new, of "[7, 8, 9]" 5 "os_with [Wrote 1]"] by blast

text \<open>
  A priority message that a flush sends only in part is not protected: the next \<open>write\<close> finds
  no data chunk, sends its message directly, and so puts it inside the priority message.
\<close>

theorem write_splits_priority_message:
  assumes "0 < k" and "k < length msg" and "data \<noteq> []"
  shows "\<exists>b w b' w'.
    wb_flush f (write_priority msg wb_new) (os_with [Wrote k, WouldBlock, Wrote (length data)])
      = Some (False, b, w)
    \<and> wb_write f data b w = Some (0, b', w')
    \<and> fd_stream f w' = take k msg @ data \<and> prio_pending b' = drop k msg"
proof -
  let ?w1 = "(os_with [WouldBlock, Wrote (length data)])\<lparr>sent := [(f, take k msg)]\<rparr>"
  define b0 where "b0 = write_priority msg wb_new"
  let ?b1 = "advance_priority k b0"
  have b0: "chunks b0 = []" "priority_chunks b0 = [msg]" "priority_read_offset b0 = 0"
    by (simp_all add: b0_def write_priority_def wb_new_def)
  have ne: "drop k msg \<noteq> []" "msg \<noteq> []" using assms(2) by auto
  have b1: "priority_chunks ?b1 = [msg]" "priority_read_offset ?b1 = k" "chunks ?b1 = []"
    using assms b0 by (simp_all add: advance_priority_def Let_def)
  have k: "max 1 (min k (length msg)) = k" using assms by simp
  have "sys_write f msg (os_with [Wrote k, WouldBlock, Wrote (length data)]) = (WrOk k, ?w1)"
    unfolding sys_write_def os_with_def using ne(2) k by (simp add: Let_def)
  moreover have "sys_write f (drop k msg) ?w1 = (WrAgain, ?w1\<lparr>wr_answers := [Wrote (length data)]\<rparr>)"
    using ne by (simp add: sys_write_def os_with_def)
  ultimately have fl: "wb_flush f b0
      (os_with [Wrote k, WouldBlock, Wrote (length data)])
      = Some (False, ?b1, ?w1\<lparr>wr_answers := [Wrote (length data)]\<rparr>)"
    using assms(1) b0 b1
    by (simp add: wb_flush_def flush_unlocked.simps [of f b0] flush_priority_unlocked.simps [of f b0]
        flush_priority_unlocked.simps [of f ?b1])
  have len: "max 1 (length data) = length data" using assms(3) by (simp add: max_def Suc_le_eq)
  have "wb_write f data ?b1 (?w1\<lparr>wr_answers := [Wrote (length data)]\<rparr>)
      = Some (0, ?b1, ?w1\<lparr>wr_answers := [], sent := [(f, take k msg), (f, data)]\<rparr>)"
    using assms(3) b1 len by (simp add: wb_write_def sys_write_def os_with_def Let_def)
  with fl show ?thesis
    unfolding b0_def [symmetric] using b1 by (fastforce simp: fd_stream_def prio_pending_def)
qed

theorem write_splits_priority_message_witness:
  "\<exists>b w b' w'.
    wb_flush 5 (write_priority [3, 6, 0, 0] wb_new) (os_with [Wrote 2, WouldBlock, Wrote 4])
      = Some (False, b, w)
    \<and> wb_write 5 [3, 0, 1, 0] b w = Some (0, b', w')
    \<and> fd_stream 5 w' = [3, 6, 3, 0, 1, 0] \<and> prio_pending b' = [0, 0]"
  using write_splits_priority_message [of 2 "[3, 6, 0, 0]" "[3, 0, 1, 0]" 5]
  by (simp add: eval_nat_numeral)

text \<open>
  An empty message behind a queued chunk is queued as an empty chunk, and the flush that
  reaches it never returns.
\<close>

theorem empty_message_hangs_flush:
  assumes "c \<noteq> []"
  shows "\<exists>b' w'. wb_write f [] (push_chunk c wb_new) (os_with [WouldBlock]) = Some (1, b', w')
    \<and> wb_flush f b' (os_with [Wrote (length c)]) = None"
proof -
  define b where "b = push_chunk [] (push_chunk c wb_new)"
  have b: "chunks b = [c, []]" "read_offset b = 0" "priority_chunks b = []"
    by (simp_all add: b_def push_chunk_def wb_new_def)
  have fl: "flush_unlocked f (push_chunk c wb_new) (os_with [WouldBlock])
      = Some (False, push_chunk c wb_new, os_with [])"
    using assms by (subst flush_unlocked.simps) (simp add: push_chunk_def wb_new_def sys_write_def os_with_def)
  have wr: "wb_write f [] (push_chunk c wb_new) (os_with [WouldBlock]) = Some (1, b, os_with [])"
    using fl by (simp add: wb_write_def b_def)
  let ?b2 = "advance_chunk (length c) b" and ?w2 = "(os_with [])\<lparr>sent := [(f, c)]\<rparr>"
  have b2: "chunks ?b2 = [[]]" "priority_chunks ?b2 = []"
    using b by (simp_all add: advance_chunk_def Let_def)
  have len: "max 1 (length c) = length c" using assms by (simp add: max_def Suc_le_eq)
  have "flush_unlocked f b (os_with [Wrote (length c)]) = flush_unlocked f ?b2 ?w2"
    using assms b b2 len
    by (subst flush_unlocked.simps)
      (simp add: sys_write_def os_with_def Let_def flush_priority_unlocked.simps [of f ?b2])
  with wr b2(1) show ?thesis by (simp add: wb_flush_def flush_empty_chunk)
qed

theorem empty_message_hangs_flush_witness:
  "\<exists>b' w'. wb_write 5 [] (push_chunk [1] wb_new) (os_with [WouldBlock]) = Some (1, b', w')
    \<and> wb_flush 5 b' (os_with [Wrote 1]) = None"
  using empty_message_hangs_flush [of "[1]" 5] by simp

end
