(* ===== verification/Module_Api.thy ===== *)
theory Module_Api
  imports Prelude
begin

text \<open>
  \<open>src/modules/include/module_api.h\<close>: the interface between the chain and its modules.
  \<open>ModuleChain\<close> is the structure of function pointers a module receives; here its members are
  functions on the state \<open>'w\<close> of whoever provides them.  A buffer is known by its address; the
  language's own memory accesses (\<open>memcpy\<close> from and to a buffer) are the two extra members
  \<open>mc_load\<close> and \<open>mc_store\<close>, and \<open>rand\<close> of the C library is \<open>mc_rand\<close>.  Undefined behaviour
  (freeing or reading an address that is not allocated) and a call that never returns are
  the result \<open>None\<close>.

  The locale \<open>module_env\<close> states what a module may rely on: it owns the buffer it is given and
  those it allocates, \<open>write_packet\<close> takes the ownership of a buffer and emits its contents, and
  nothing else touches an owned buffer.
\<close>

type_synonym ptr = nat

record 'w ModuleChain =
  mc_malloc :: "nat \<Rightarrow> 'w \<Rightarrow> ptr option \<times> 'w"
  mc_free :: "ptr \<Rightarrow> 'w \<Rightarrow> 'w option"
  mc_load :: "ptr \<Rightarrow> 'w \<Rightarrow> bytes option"
  mc_store :: "ptr \<Rightarrow> nat \<Rightarrow> bytes \<Rightarrow> 'w \<Rightarrow> 'w option"
  mc_write_packet :: "int \<Rightarrow> ptr \<Rightarrow> nat \<Rightarrow> 'w \<Rightarrow> (int \<times> 'w) option"
  mc_request_outputs :: "int \<Rightarrow> 'w \<Rightarrow> int \<times> 'w"
  mc_get_node_id :: "'w \<Rightarrow> int"
  mc_rand :: "'w \<Rightarrow> int \<times> 'w"

type_synonym ('c, 'w) process_fn =
  "'w ModuleChain \<Rightarrow> 'c \<Rightarrow> int \<Rightarrow> int \<Rightarrow> ptr option \<Rightarrow> nat \<Rightarrow> 'w \<Rightarrow> (int \<times> 'c \<times> 'w) option"

text \<open>The bytes of a buffer after \<open>memcpy\<close> of \<open>bs\<close> to offset \<open>off\<close>.\<close>

definition patch :: "nat \<Rightarrow> bytes \<Rightarrow> bytes \<Rightarrow> bytes" where
  "patch off bs b = take off b @ bs @ drop (off + length bs) b"

lemma length_patch [simp]: "off + length bs \<le> length b \<Longrightarrow> length (patch off bs b) = length b"
  by (simp add: patch_def)

lemma patch_full: "length bs = length b \<Longrightarrow> patch 0 bs b = bs"
  by (simp add: patch_def)

lemma patch_prefix:
  "length acc = off \<Longrightarrow> take off b = acc \<Longrightarrow> take (off + length bs) (patch off bs b) = acc @ bs"
  by (simp add: patch_def)

lemma patch_patch:
  assumes "off + length c + length d \<le> length b"
  shows "patch (off + length c) d (patch off c b) = patch off (c @ d) b"
proof -
  have "min off (length b) = off" using assms by simp
  then show ?thesis by (simp add: patch_def ac_simps)
qed

text \<open>
  A sequence of packets handed to one module: each is copied into a fresh buffer (dropped when there
  is none) and processed, as \<open>dispatch_data_conn_packet\<close> does for packets from the wire.
\<close>

fun feed_packets :: "('c, 'w) process_fn \<Rightarrow> 'w ModuleChain \<Rightarrow> int \<Rightarrow> bytes list \<Rightarrow> 'c \<Rightarrow> 'w
    \<Rightarrow> ('c \<times> 'w) option" where
  "feed_packets process A dir [] ctx w = Some (ctx, w)"
| "feed_packets process A dir (d # ds) ctx w =
     (case mc_malloc A (length d) w of
        (None, w) \<Rightarrow> feed_packets process A dir ds ctx w
      | (Some p, w) \<Rightarrow>
          Option.bind (mc_store A p 0 d w) (\<lambda>w.
          Option.bind (process A ctx dir 1 (Some p) (length d) w) (\<lambda>(r, ctx, w).
          feed_packets process A dir ds ctx w)))"

section \<open>What a module relies on\<close>

locale module_env =
  fixes A :: "'w ModuleChain"
    and wf :: "'w \<Rightarrow> bool"
    and heap :: "'w \<Rightarrow> ptr \<rightharpoonup> bytes"
    and trace :: "'w \<Rightarrow> 'o list"
    and obs :: "int \<Rightarrow> bytes \<Rightarrow> 'o"
    and ports :: "int set"
  assumes malloc_ok: "wf w \<Longrightarrow> \<exists>p w' b. mc_malloc A n w = (Some p, w') \<and> wf w' \<and> heap w p = None
        \<and> length b = n \<and> heap w' = (heap w)(p \<mapsto> b) \<and> trace w' = trace w"
    and free_ok: "wf w \<Longrightarrow> heap w p = Some b \<Longrightarrow> \<exists>w'. mc_free A p w = Some w' \<and> wf w'
        \<and> heap w' = (heap w)(p := None) \<and> trace w' = trace w"
    and load_ok: "wf w \<Longrightarrow> heap w p = Some b \<Longrightarrow> mc_load A p w = Some b"
    and store_ok: "wf w \<Longrightarrow> heap w p = Some b \<Longrightarrow> off + length bs \<le> length b \<Longrightarrow>
        \<exists>w'. mc_store A p off bs w = Some w' \<and> wf w'
          \<and> heap w' = (heap w)(p \<mapsto> patch off bs b) \<and> trace w' = trace w"
    and write_ok: "wf w \<Longrightarrow> heap w p = Some b \<Longrightarrow> d \<in> ports \<Longrightarrow>
        \<exists>r w'. mc_write_packet A d p (length b) w = Some (r, w') \<and> wf w'
          \<and> heap w' = (heap w)(p := None) \<and> trace w' = trace w @ [obs d b]"
    and rand_ok: "wf w \<Longrightarrow> 0 \<le> fst (mc_rand A w) \<and> wf (snd (mc_rand A w))
        \<and> heap (snd (mc_rand A w)) = heap w \<and> trace (snd (mc_rand A w)) = trace w"
begin

text \<open>Allocating a buffer and filling it is one step for the proofs about modules.\<close>

lemma malloc_fill:
  assumes "wf w"
  shows "\<exists>p w1 w2. mc_malloc A (length bs) w = (Some p, w1) \<and> mc_store A p 0 bs w1 = Some w2
    \<and> wf w1 \<and> wf w2 \<and> heap w p = None \<and> heap w2 = (heap w)(p \<mapsto> bs) \<and> trace w2 = trace w
    \<and> (\<forall>q b. heap w q = Some b \<longrightarrow> heap w1 q = Some b)"
proof -
  obtain p w1 b where m: "mc_malloc A (length bs) w = (Some p, w1)" "wf w1" "heap w p = None"
      "length b = length bs" "heap w1 = (heap w)(p \<mapsto> b)" "trace w1 = trace w"
    using malloc_ok [OF assms(1)] by blast
  then obtain w2 where "mc_store A p 0 bs w1 = Some w2" "wf w2"
      "heap w2 = (heap w1)(p \<mapsto> patch 0 bs b)" "trace w2 = trace w1"
    using store_ok [of w1 p b 0 bs] by auto
  then show ?thesis
    using m by (intro exI [of _ p] exI [of _ w1] exI [of _ w2]) (auto simp: patch_full)
qed

end

end
