(* ===== verification/Split.thy ===== *)
theory Split
  imports Module_Api
begin

text \<open>
  \<open>src/modules/split/split.cpp\<close>: the module that cuts packets into chunks, sends them round-robin
  over several outputs, and puts packets together again from chunks that arrive in any order.

  \<open>std::map\<close> is an association list in ascending key order.  The debug output under
  \<open>trace\<close> is not modelled.  The header of a chunk is four bytes, little endian: 15 bits of packet
  number, one bit \<open>more\<close>, 16 bits of chunk number.
\<close>

section \<open>Data\<close>

record SlotEntry =
  se_data :: ptr
  se_size :: nat
  se_more :: bool

record SplitContext =
  num_outputs :: int
  rr_idx :: u32
  pkt_seq :: u32
  chunk_idx :: u32
  pending :: "(u64 \<times> SlotEntry) list"
  exp_pkt :: u32
  exp_chunk :: u32
  chunk_size_min :: int
  chunk_size_max :: int
  chunks_created :: u64
  chunks_received :: u64
  packets_created :: u64
  packets_flushed :: u64
  chunks_lost :: u64

abbreviation (input) "DEF_CHUNK_SIZE \<equiv> (16384 :: int)"
abbreviation (input) "MIN_CHUNK \<equiv> (64 :: int)"
abbreviation (input) "MAX_CHUNK \<equiv> (65536 :: int)"
abbreviation (input) "HEADER_SIZE \<equiv> (4 :: nat)"
abbreviation (input) "MAX_CHUNKS_PER_PASS \<equiv> (65536 :: int)"

definition split_ctx_new :: SplitContext where
  "split_ctx_new = \<lparr>num_outputs = 1, rr_idx = 0, pkt_seq = 0, chunk_idx = 0, pending = [],
     exp_pkt = 0, exp_chunk = 0, chunk_size_min = DEF_CHUNK_SIZE, chunk_size_max = DEF_CHUNK_SIZE,
     chunks_created = 0, chunks_received = 0, packets_created = 0, packets_flushed = 0,
     chunks_lost = 0\<rparr>"

text \<open>\<open>std::map\<close>: insertion of a new key and the entries of a key range.\<close>

fun map_insert :: "'k::linorder \<Rightarrow> 'v \<Rightarrow> ('k \<times> 'v) list \<Rightarrow> ('k \<times> 'v) list" where
  "map_insert k v [] = [(k, v)]"
| "map_insert k v ((k', v') # m) =
     (if k < k' then (k, v) # (k', v') # m else if k = k' then (k, v) # m
      else (k', v') # map_insert k v m)"

definition map_erase :: "'k \<Rightarrow> ('k \<times> 'v) list \<Rightarrow> ('k \<times> 'v) list" where
  "map_erase k m = filter (\<lambda>e. fst e \<noteq> k) m"

definition map_range :: "'k::linorder \<Rightarrow> 'k \<Rightarrow> ('k \<times> 'v) list \<Rightarrow> ('k \<times> 'v) list" where
  "map_range lo hi m = takeWhile (\<lambda>e. fst e \<le> hi) (dropWhile (\<lambda>e. fst e < lo) m)"

section \<open>Configuration\<close>

definition clamp :: "int \<Rightarrow> int \<Rightarrow> int \<Rightarrow> int" where
  "clamp x lo hi = (if x < lo then lo else if x > hi then hi else x)"

definition parse_size :: "string \<Rightarrow> int \<Rightarrow> int" where
  "parse_size s def =
     (if s = [] then def
      else let val = strtol10 s
           in if val \<le> 0 then def
              else let val = (if last s = CHR ''K'' \<or> last s = CHR ''k''
                              then sint (word_of_int (val * 1024) :: 64 word) else val)
                   in clamp (int32 val) MIN_CHUNK MAX_CHUNK)"

definition parse_chunk_sizes :: "string \<Rightarrow> int \<times> int" where
  "parse_chunk_sizes config =
     (case strstr config ''s:'' of
        None \<Rightarrow> (DEF_CHUNK_SIZE, DEF_CHUNK_SIZE)
      | Some t \<Rightarrow>
          (let sp = drop 2 t;
               (mn, mx) =
                 (case strchr sp CHR ''-'' of
                    Some dash \<Rightarrow>
                      (let tmp = take (min (length sp - length dash) 63) sp
                       in (parse_size tmp DEF_CHUNK_SIZE, parse_size (drop 1 dash) DEF_CHUNK_SIZE))
                  | None \<Rightarrow> let n = parse_size sp DEF_CHUNK_SIZE in (n, n))
           in if mn > mx then (mx, mn) else (mn, mx)))"

definition parse_outputs :: "string \<Rightarrow> int" where
  "parse_outputs config =
     (case strstr config ''n:'' of
        Some t \<Rightarrow> atoi (drop 2 t)
      | None \<Rightarrow> if take 6 config = ''split:'' then atoi (drop 6 config) else 1)"

text \<open>
  \<open>init\<close>: the configuration is the null pointer in the source only when a caller passes it; the
  chain always passes a string.
\<close>

definition split_init :: "'w ModuleChain \<Rightarrow> string \<Rightarrow> 'w \<Rightarrow> SplitContext \<times> 'w" where
  "split_init A config w =
     (let (mn, mx) = (if config = [] then (DEF_CHUNK_SIZE, DEF_CHUNK_SIZE) else parse_chunk_sizes config);
          extra = max 1 (if config = [] then 1 else parse_outputs config);
          (ret, w) = mc_request_outputs A (if extra > 1 then extra - 1 else 0) w
      in (split_ctx_new\<lparr>chunk_size_min := mn, chunk_size_max := mx, num_outputs := extra\<rparr>, w))"

section \<open>Splitting\<close>

definition next_chunk_size :: "'w ModuleChain \<Rightarrow> SplitContext \<Rightarrow> 'w \<Rightarrow> int \<times> 'w" where
  "next_chunk_size A ctx w =
     (let lo = chunk_size_min ctx; hi = chunk_size_max ctx
      in if lo \<ge> hi then (lo, w)
         else let (r, w) = mc_rand A w
              in (lo + int32 (uint (word_of_int r :: u32) mod uint (word_of_int (hi - lo + 1) :: u32)), w))"

definition encode_hdr :: "u32 \<Rightarrow> bool \<Rightarrow> u16 \<Rightarrow> u32" where
  "encode_hdr pkt_id more_bit chunk_id =
     (pkt_id AND 0x7FFF) OR push_bit 15 (if more_bit then 1 else 0) OR push_bit 16 (ucast chunk_id)"

definition hdr_bytes :: "u32 \<Rightarrow> bytes" where
  "hdr_bytes h = [ucast h, ucast (drop_bit 8 h), ucast (drop_bit 16 h), ucast (drop_bit 24 h)]"

text \<open>
  The loop of \<open>process_split\<close>.  The result is the number of chunks made, or \<open>Inl\<close> when the early
  return after a failed allocation was taken.
\<close>

partial_function (option) split_loop ::
  "'w ModuleChain \<Rightarrow> ptr \<Rightarrow> int \<Rightarrow> int \<Rightarrow> int \<Rightarrow> SplitContext \<Rightarrow> 'w
   \<Rightarrow> ((unit + int) \<times> SplitContext \<times> 'w) option" where
  "split_loop A data sz offset chunks ctx w =
     (if \<not> offset < sz then Some (Inr chunks, ctx, w)
      else
        let remain = sz - offset;
            (n, w) = (if chunks \<ge> MAX_CHUNKS_PER_PASS - 1 then (remain, w) else next_chunk_size A ctx w);
            chunk_len = (if n > remain then remain else n);
            hdr_val = encode_hdr (pkt_seq ctx) (offset + chunk_len < sz) (ucast (chunk_idx ctx));
            out_idx = 1 + int32 (uint (rr_idx ctx mod word_of_int (num_outputs ctx)));
            size = nat (chunk_len + int HEADER_SIZE)
        in case mc_malloc A size w of
             (None, w) \<Rightarrow> Option.bind (mc_free A data w) (\<lambda>w. Some (Inl (), ctx, w))
           | (Some out_buf, w) \<Rightarrow>
               Option.bind (mc_load A data w) (\<lambda>in_buf.
               if offset < 0 \<or> chunk_len < 0 \<or> int (length in_buf) < offset + chunk_len then None else
               Option.bind (mc_store A out_buf 0
                   (hdr_bytes hdr_val @ take (nat chunk_len) (drop (nat offset) in_buf)) w) (\<lambda>w.
               Option.bind (mc_write_packet A out_idx out_buf size w) (\<lambda>(wpret, w).
               split_loop A data sz (offset + chunk_len) (chunks + 1)
                 (ctx\<lparr>rr_idx := rr_idx ctx + 1, chunk_idx := chunk_idx ctx + 1\<rparr>) w))))"

declare split_loop.simps [code]

definition process_split ::
  "'w ModuleChain \<Rightarrow> SplitContext \<Rightarrow> int \<Rightarrow> ptr option \<Rightarrow> nat \<Rightarrow> 'w \<Rightarrow> (int \<times> SplitContext \<times> 'w) option" where
  "process_split A ctx trigger_idx data len w =
     (case data of
        None \<Rightarrow> Some (0, ctx, w)
      | Some p \<Rightarrow>
          if len = 0 then Some (0, ctx, w)
          else Option.bind (split_loop A p (int32 (int len)) 0 0 ctx w) (\<lambda>(r, ctx, w).
            case r of
              Inl _ \<Rightarrow> Some (0, ctx, w)
            | Inr chunks \<Rightarrow>
                Option.bind (mc_free A p w) (\<lambda>w.
                Some (0, ctx\<lparr>packets_created := packets_created ctx + 1,
                             chunks_created := chunks_created ctx + word_of_int chunks,
                             pkt_seq := pkt_seq ctx + 1, chunk_idx := 0\<rparr>, w))))"

section \<open>Merging\<close>

definition read_hdr :: "bytes \<Rightarrow> u32" where
  "read_hdr d = ucast (d ! 0) OR push_bit 8 (ucast (d ! 1)) OR push_bit 16 (ucast (d ! 2))
     OR push_bit 24 (ucast (d ! 3))"

definition wire_id_of :: "u32 \<Rightarrow> u16" where
  "wire_id_of hdr = ucast (hdr AND 0x7FFF)"

definition more_of :: "u32 \<Rightarrow> bool" where
  "more_of hdr \<longleftrightarrow> drop_bit 15 hdr AND 1 \<noteq> 0"

definition chunk_id_of :: "u32 \<Rightarrow> u16" where
  "chunk_id_of hdr = ucast (drop_bit 16 hdr AND 0xFFFF)"

text \<open>The extension of the 15-bit packet number to 32 bits, in 32-bit unsigned arithmetic.\<close>

definition seq32 :: "u32 \<Rightarrow> u16 \<Rightarrow> u32" where
  "seq32 expp wire_id =
     (let pkt_full = (expp AND NOT 0x7FFF) OR ucast wire_id
      in if pkt_full + 16384 < expp then pkt_full + 32768
         else if pkt_full \<ge> expp + 16384 then pkt_full - 32768
         else pkt_full)"

definition slot_key :: "u32 \<Rightarrow> u32 \<Rightarrow> u64" where
  "slot_key pkt chunk = push_bit 16 (ucast pkt) OR ucast chunk"

text \<open>The copy loop of a flush: each chunk is copied behind the previous one and freed.\<close>

fun flush_chunks :: "'w ModuleChain \<Rightarrow> ptr \<Rightarrow> nat \<Rightarrow> (u64 \<times> SlotEntry) list \<Rightarrow> 'w \<Rightarrow> 'w option" where
  "flush_chunks A out_buf off [] w = Some w"
| "flush_chunks A out_buf off ((k, se) # es) w =
     Option.bind (mc_load A (se_data se) w) (\<lambda>b.
     Option.bind (mc_store A out_buf off (take (se_size se) b) w) (\<lambda>w.
     Option.bind (mc_free A (se_data se) w) (\<lambda>w.
     flush_chunks A out_buf (off + se_size se) es w)))"

partial_function (option) merge_loop ::
  "'w ModuleChain \<Rightarrow> SplitContext \<Rightarrow> 'w \<Rightarrow> (SplitContext \<times> 'w) option" where
  "merge_loop A ctx w =
     (let exp_key = slot_key (exp_pkt ctx) (exp_chunk ctx)
      in case map_of (pending ctx) exp_key of
           None \<Rightarrow> Some (ctx, w)
         | Some ei \<Rightarrow>
             if se_more ei then merge_loop A (ctx\<lparr>exp_chunk := exp_chunk ctx + 1\<rparr>) w
             else
               let start_key = push_bit 16 (ucast (exp_pkt ctx));
                   es = map_range start_key exp_key (pending ctx);
                   total = sum_list (map (\<lambda>e. se_size (snd e)) es);
                   (out_buf, w) = mc_malloc A total w
               in Option.bind
                    (case out_buf of
                       None \<Rightarrow> Some (ctx, w)
                     | Some q \<Rightarrow>
                         Option.bind (flush_chunks A q 0 es w) (\<lambda>w.
                         Option.bind (mc_write_packet A 0 q total w) (\<lambda>(r, w).
                         Some (ctx\<lparr>pending := filter (\<lambda>e. e \<notin> set es) (pending ctx),
                                   packets_flushed := packets_flushed ctx + 1\<rparr>, w))))
                    (\<lambda>(ctx, w). merge_loop A (ctx\<lparr>exp_pkt := exp_pkt ctx + 1, exp_chunk := 0\<rparr>) w))"

declare merge_loop.simps [code]

text \<open>An earlier copy of the same chunk is freed and replaced.\<close>

definition drop_slot :: "'w ModuleChain \<Rightarrow> u64 \<Rightarrow> SplitContext \<Rightarrow> 'w \<Rightarrow> (SplitContext \<times> 'w) option" where
  "drop_slot A key ctx w =
     (case map_of (pending ctx) key of
        None \<Rightarrow> Some (ctx, w)
      | Some se \<Rightarrow>
          Option.bind (mc_free A (se_data se) w) (\<lambda>w.
          Some (ctx\<lparr>pending := map_erase key (pending ctx)\<rparr>, w)))"

definition process_merge ::
  "'w ModuleChain \<Rightarrow> SplitContext \<Rightarrow> int \<Rightarrow> ptr option \<Rightarrow> nat \<Rightarrow> 'w \<Rightarrow> (int \<times> SplitContext \<times> 'w) option" where
  "process_merge A ctx trigger_idx data len w =
     (case data of
        None \<Rightarrow> Some (0, ctx, w)
      | Some p \<Rightarrow>
          if len = 0 then Some (0, ctx, w)
          else if len < HEADER_SIZE then Option.bind (mc_free A p w) (\<lambda>w. Some (0, ctx, w))
          else Option.bind (mc_load A p w) (\<lambda>d.
            let hdr = read_hdr d;
                chunk_id = chunk_id_of hdr;
                pkt_full = seq32 (exp_pkt ctx) (wire_id_of hdr)
            in if pkt_full < exp_pkt ctx then
                 Option.bind (mc_free A p w) (\<lambda>w.
                 Some (0, ctx\<lparr>chunks_lost := chunks_lost ctx + 1\<rparr>, w))
               else
                 let key = slot_key pkt_full (ucast chunk_id) in
                 Option.bind (drop_slot A key ctx w) (\<lambda>(ctx, w).
                 case mc_malloc A (len - HEADER_SIZE) w of
                   (None, w) \<Rightarrow> None
                 | (Some q, w) \<Rightarrow>
                     Option.bind (mc_store A q 0 (take (len - HEADER_SIZE) (drop HEADER_SIZE d)) w) (\<lambda>w.
                     Option.bind (merge_loop A
                       (ctx\<lparr>pending := map_insert key
                              \<lparr>se_data = q, se_size = len - HEADER_SIZE, se_more = more_of hdr\<rparr>
                              (pending ctx),
                            chunks_received := chunks_received ctx + 1\<rparr>) w) (\<lambda>(ctx, w).
                     Option.bind (mc_free A p w) (\<lambda>w. Some (0, ctx, w)))))))"

definition split_process :: "(SplitContext, 'w) process_fn" where
  "split_process A ctx dir trigger_idx data len w =
     (if dir = 0 then process_split A ctx trigger_idx data len w
      else process_merge A ctx trigger_idx data len w)"

section \<open>The chunk header\<close>

lemma read_hdr_bytes: "read_hdr (hdr_bytes h @ r) = h"
proof (rule bit_word_eqI)
  fix n assume n: "n < LENGTH(32)"
  then consider "n < 8" | "8 \<le> n \<and> n < 16" | "16 \<le> n \<and> n < 24" | "24 \<le> n \<and> n < 32" by fastforce
  then show "bit (read_hdr (hdr_bytes h @ r)) n = bit h n"
    by cases (auto simp: read_hdr_def hdr_bytes_def bit_or_iff bit_push_bit_iff bit_ucast_iff bit_drop_bit_eq)
qed

lemma chunk_id_of_encode: "chunk_id_of (encode_hdr p m c) = c"
proof (rule bit_word_eqI)
  fix n assume n: "n < LENGTH(16)"
  have m: "(0x7FFF :: u32) = mask 15" "(0xFFFF :: u32) = mask 16" by (simp_all add: mask_eq_exp_minus_1)
  show "bit (chunk_id_of (encode_hdr p m c)) n = bit c n"
    using n unfolding chunk_id_of_def encode_hdr_def m
    by (auto simp: bit_or_iff bit_and_iff bit_push_bit_iff bit_ucast_iff bit_drop_bit_eq bit_mask_iff bit_1_iff)
qed

lemma more_of_encode: "more_of (encode_hdr p m c) = m"
proof -
  have m7: "(0x7FFF :: u32) = mask 15" by (simp add: mask_eq_exp_minus_1)
  have "more_of h = bit h 15" for h
    unfolding more_of_def bit_iff_odd_drop_bit and_one_eq by (simp add: odd_iff_mod_2_eq_one)
  then show ?thesis unfolding encode_hdr_def m7
    by (auto simp: bit_or_iff bit_and_iff bit_push_bit_iff bit_ucast_iff bit_mask_iff bit_1_iff)
qed

lemma wire_id_of_encode: "wire_id_of (encode_hdr p m c) = ucast (p AND 0x7FFF)"
proof (rule bit_word_eqI)
  fix n assume n: "n < LENGTH(16)"
  have m7: "(0x7FFF :: u32) = mask 15" by (simp add: mask_eq_exp_minus_1)
  show "bit (wire_id_of (encode_hdr p m c)) n = bit (ucast (p AND 0x7FFF) :: u16) n"
    using n unfolding wire_id_of_def encode_hdr_def m7
    by (auto simp: bit_or_iff bit_and_iff bit_push_bit_iff bit_ucast_iff bit_drop_bit_eq bit_mask_iff bit_1_iff)
qed

lemma seq32_base:
  fixes e p :: u32
  shows "unat ((e AND NOT 0x7FFF) OR ucast (ucast (p AND 0x7FFF) :: u16) :: u32)
   = unat e - unat e mod 32768 + unat p mod 32768"
proof -
  have m7: "(0x7FFF :: u32) = mask 15" by (simp add: mask_eq_exp_minus_1)
  have "(e AND NOT 0x7FFF) OR ucast (ucast (p AND 0x7FFF) :: u16) = (push_bit 15 (drop_bit 15 e) OR take_bit 15 p)"
    unfolding m7
    by (rule bit_word_eqI) (auto simp: bit_or_iff bit_and_iff bit_not_iff bit_push_bit_iff bit_ucast_iff bit_drop_bit_eq bit_mask_iff bit_take_bit_iff)
  also have "unat \<dots> = push_bit 15 (drop_bit 15 (unat e)) OR take_bit 15 (unat p)"
  proof (rule bit_eqI)
    fix n
    show "bit (unat (push_bit 15 (drop_bit 15 e) OR take_bit 15 p)) n =
       bit (push_bit 15 (drop_bit 15 (unat e)) OR take_bit 15 (unat p)) n"
      using bit_imp_le_length [of e n] bit_imp_le_length [of p n]
      by (auto simp: bit_unsigned_iff bit_or_iff bit_push_bit_iff bit_drop_bit_eq bit_take_bit_iff)
  qed
  also have "\<dots> = push_bit 15 (drop_bit 15 (unat e)) + take_bit 15 (unat p)"
    by (rule disjunctive_add [symmetric]) (auto simp: bit_push_bit_iff bit_take_bit_iff)
  also have "\<dots> = unat e - unat e mod 32768 + unat p mod 32768"
    by (simp add: push_bit_eq_mult drop_bit_eq_div take_bit_eq_mod minus_mod_eq_div_mult)
  finally show ?thesis .
qed

end
