(* ===== verification/Config.thy ===== *)
theory Config
  imports Prelude
begin

text \<open>
  \<open>src/core/config.h\<close>, \<open>src/core/config.cpp\<close> and \<open>parse_hostport\<close> of \<open>src/common/utils.cpp\<close>:
  the chain configuration string \<open>host:port,password;name|params;...\<close>.
\<close>

record ModuleSpec =
  ms_name :: string
  ms_params :: string

record ChainConfig =
  cc_host :: string
  cc_port :: u16
  cc_password :: string
  cc_modules :: "ModuleSpec list"
  cc_valid :: bool

definition cfg_default :: ChainConfig where
  "cfg_default = \<lparr>cc_host = [], cc_port = 0, cc_password = [], cc_modules = [], cc_valid = False\<rparr>"

text \<open>
  \<open>parse_hostport\<close> writes its output parameters as it goes: a bad port leaves the host assigned.
  The result is the returned flag and the two parameters afterwards.
\<close>

definition parse_hostport :: "string \<Rightarrow> string \<times> u16 \<Rightarrow> bool \<times> string \<times> u16" where
  "parse_hostport str out =
     (case str_rfind CHR '':'' str of
        None \<Rightarrow> (False, out)
      | Some colon \<Rightarrow>
          (let host = take colon str; p = atoi (drop (colon + 1) str)
           in if p \<le> 0 \<or> 65535 < p then (False, host, snd out)
              else (True, host, word_of_int p)))"

text \<open>The loop that cuts the string at semicolons; nothing follows a final semicolon.\<close>

function split_blocks :: "string \<Rightarrow> string list" where
  "split_blocks s =
     (if s = [] then []
      else case str_find CHR '';'' s of
        None \<Rightarrow> [s]
      | Some i \<Rightarrow> take i s # split_blocks (drop (i + 1) s))"
  by pat_completeness auto
termination
  by (relation "measure length") (auto dest: str_find_bound)

declare split_blocks.simps [simp del]

definition parse_module :: "string \<Rightarrow> ModuleSpec" where
  "parse_module b =
     (case str_find CHR ''|'' b of
        None \<Rightarrow> \<lparr>ms_name = b, ms_params = []\<rparr>
      | Some pipe \<Rightarrow> \<lparr>ms_name = take pipe b, ms_params = drop (pipe + 1) b\<rparr>)"

definition copy_spec :: ModuleSpec where
  "copy_spec = \<lparr>ms_name = ''copy'', ms_params = []\<rparr>"

definition parse_chain :: "string \<Rightarrow> ChainConfig" where
  "parse_chain str =
     (case split_blocks str of
        [] \<Rightarrow> cfg_default
      | b0 # rest \<Rightarrow>
          (let (addr, cfg) =
             (case str_find CHR '','' b0 of
                None \<Rightarrow> (b0, cfg_default)
              | Some comma \<Rightarrow> (take comma b0, cfg_default\<lparr>cc_password := drop (comma + 1) b0\<rparr>));
             (okay, host, port) = parse_hostport addr (cc_host cfg, cc_port cfg);
             cfg = cfg\<lparr>cc_host := host, cc_port := port\<rparr>
           in if \<not> okay then cfg
              else let mods = map parse_module (filter (\<lambda>b. b \<noteq> []) rest)
                   in cfg\<lparr>cc_modules := rev (copy_spec # mods @ [copy_spec]), cc_valid := True\<rparr>))"

section \<open>Lemmas\<close>

text \<open>The configuration written out in the syntax of the usage text.\<close>

definition print_module :: "ModuleSpec \<Rightarrow> string" where
  "print_module m = ms_name m @ CHR ''|'' # ms_params m"

definition print_blocks :: "string list \<Rightarrow> string" where
  "print_blocks bs = concat (map (\<lambda>b. CHR '';'' # b) bs)"

lemma split_blocks_print:
  "CHR '';'' \<notin> set b \<Longrightarrow> b \<noteq> [] \<Longrightarrow> \<forall>b \<in> set bs. CHR '';'' \<notin> set b \<and> b \<noteq> [] \<Longrightarrow>
   split_blocks (b @ print_blocks bs) = b # bs"
proof (induction bs arbitrary: b)
  case Nil
  then have "str_find CHR '';'' b = None" by simp
  with Nil.prems(2) show ?case
    by (simp only: print_blocks_def list.map concat.simps append_Nil2 split_blocks.simps [of b]
      option.case if_False)
next
  case (Cons c bs)
  have "str_find CHR '';'' (b @ CHR '';'' # c @ print_blocks bs) = Some (length b)"
    using Cons.prems(1) by (rule str_find_append)
  with Cons show ?case by (subst split_blocks.simps) (simp add: print_blocks_def)
qed

lemma parse_print_module: "CHR ''|'' \<notin> set (ms_name m) \<Longrightarrow> parse_module (print_module m) = m"
  by (simp add: parse_module_def print_module_def str_find_append)

lemma parse_hostport_print:
  "CHR '':'' \<notin> set port \<Longrightarrow> 0 < atoi port \<Longrightarrow> atoi port \<le> 65535 \<Longrightarrow>
   parse_hostport (host @ CHR '':'' # port) out = (True, host, word_of_int (atoi port))"
  by (simp add: parse_hostport_def str_rfind_append Let_def)

section \<open>Properties\<close>



end
