(* ===== verification/Thread_Pool.thy ===== *)
theory Thread_Pool
  imports Prelude
begin

text \<open>
  \<open>src/core/thread_pool.h\<close> and \<open>thread_pool.cpp\<close>: a queue of tasks and the workers that take them.
  The mutex makes every operation one step.  A worker's loop is the step \<open>tp_take\<close> (the critical
  section of \<open>worker_loop\<close>) followed by running the task outside the lock, so several taken tasks
  can be in progress at a time; \<open>running\<close> holds them.
\<close>

record 'a ThreadPool =
  workers :: nat
  queue :: "'a list"
  running :: "'a list"
  shutdown :: bool

definition tp_new :: "'a ThreadPool" where
  "tp_new = \<lparr>workers = 0, queue = [], running = [], shutdown = False\<rparr>"

definition tp_start :: "nat \<Rightarrow> 'a ThreadPool \<Rightarrow> 'a ThreadPool" where
  "tp_start count tp = tp\<lparr>shutdown := False, workers := workers tp + (if count = 0 then 1 else count)\<rparr>"

text \<open>\<open>stop\<close> joins the workers: it returns only when no task is being run; queued tasks stay.\<close>

definition tp_stop :: "'a ThreadPool \<Rightarrow> 'a ThreadPool option" where
  "tp_stop tp = (if running tp = [] then Some (tp\<lparr>shutdown := True, workers := 0\<rparr>) else None)"

definition tp_pending :: "'a ThreadPool \<Rightarrow> nat" where
  "tp_pending tp = length (queue tp)"

definition tp_enqueue :: "'a \<Rightarrow> 'a ThreadPool \<Rightarrow> 'a ThreadPool" where
  "tp_enqueue t tp = tp\<lparr>queue := queue tp @ [t]\<rparr>"

text \<open>A worker that is not running a task takes the front one, unless the pool is shut down.\<close>

definition tp_take :: "'a ThreadPool \<Rightarrow> ('a \<times> 'a ThreadPool) option" where
  "tp_take tp =
     (if shutdown tp \<or> workers tp \<le> length (running tp) then None
      else case queue tp of
        [] \<Rightarrow> None
      | t # ts \<Rightarrow> Some (t, tp\<lparr>queue := ts, running := running tp @ [t]\<rparr>))"

definition tp_done :: "'a \<Rightarrow> 'a ThreadPool \<Rightarrow> 'a ThreadPool" where
  "tp_done t tp = tp\<lparr>running := remove1 t (running tp)\<rparr>"

text \<open>The history of one pool: what was enqueued, taken and finished, in this order.\<close>

inductive tp_run :: "nat \<Rightarrow> 'a list \<Rightarrow> 'a list \<Rightarrow> 'a list \<Rightarrow> 'a ThreadPool \<Rightarrow> bool" for n where
  start: "tp_run n [] [] [] (tp_start n tp_new)"
| enq: "tp_run n en tk fin tp \<Longrightarrow> tp_run n (en @ [t]) tk fin (tp_enqueue t tp)"
| take: "tp_run n en tk fin tp \<Longrightarrow> tp_take tp = Some (t, tp') \<Longrightarrow> tp_run n en (tk @ [t]) fin tp'"
| fin: "tp_run n en tk fin tp \<Longrightarrow> t \<in> set (running tp) \<Longrightarrow> tp_run n en tk (fin @ [t]) (tp_done t tp)"

lemma tp_take_Some:
  "tp_take tp = Some (t, tp') \<longleftrightarrow> \<not> shutdown tp \<and> length (running tp) < workers tp
     \<and> (\<exists>ts. queue tp = t # ts \<and> tp' = tp\<lparr>queue := ts, running := running tp @ [t]\<rparr>)"
  by (auto simp: tp_take_def split: list.splits)

lemma tp_run_fifo: "tp_run n en tk fin tp \<Longrightarrow> en = tk @ queue tp"
  by (induction rule: tp_run.induct)
     (auto simp: tp_start_def tp_new_def tp_enqueue_def tp_take_Some tp_done_def)

lemma tp_run_workers:
  "tp_run n en tk fin tp \<Longrightarrow> length (running tp) \<le> workers tp \<and> workers tp = max 1 n"
  by (induction rule: tp_run.induct)
     (auto simp: tp_start_def tp_new_def tp_enqueue_def tp_take_Some tp_done_def length_remove1)

lemma tp_run_single:
  "tp_run n en tk fin tp \<Longrightarrow> n \<le> 1 \<Longrightarrow> tk = fin @ running tp"
proof (induction rule: tp_run.induct)
  case (take en tk fin tp t tp')
  have "workers tp = 1" using tp_run_workers [OF take.hyps(1)] take.prems by simp
  then have "running tp = []" using take.hyps(2) by (auto simp: tp_take_Some)
  then show ?case using take by (auto simp: tp_take_Some)
next
  case (fin en tk fin tp t)
  have "length (running tp) \<le> 1" using tp_run_workers [OF fin.hyps(1)] fin.prems by simp
  then have "running tp = [t]" using fin.hyps(2) by (cases "running tp") auto
  then show ?case using fin by (simp add: tp_done_def)
qed (auto simp: tp_start_def tp_new_def tp_enqueue_def)

text \<open>
  With one worker (\<open>start (1)\<close>, also \<open>start (0)\<close>) tasks finish exactly in the order they were
  enqueued: the finished tasks, the one in progress and the queue together are the enqueued ones.
\<close>

theorem single_worker_in_order:
  assumes "tp_run n en tk fin tp" and "n \<le> 1"
  shows "en = fin @ running tp @ queue tp \<and> length (running tp) \<le> 1"
  using tp_run_fifo [OF assms(1)] tp_run_single [OF assms] tp_run_workers [OF assms(1)] assms(2)
  by simp

theorem single_worker_in_order_witness:
  "[7, 8] = [7 :: nat] @ running \<lparr>workers = 1, queue = [8], running = [], shutdown = False\<rparr>
     @ queue \<lparr>workers = 1, queue = [8], running = [], shutdown = False\<rparr>"
proof -
  let ?s = "tp_start 1 tp_new :: nat ThreadPool"
  have a: "tp_run 1 [7, 8] [] [] (tp_enqueue 8 (tp_enqueue 7 ?s))"
    using tp_run.enq [OF tp_run.enq [OF tp_run.start]] by simp
  have "tp_run 1 [7, 8] [7] [] \<lparr>workers = 1, queue = [8], running = [7 :: nat], shutdown = False\<rparr>"
    using tp_run.take [OF a, of 7] by (simp add: tp_take_Some tp_enqueue_def tp_start_def tp_new_def)
  from tp_run.fin [OF this, of 7]
  have "tp_run 1 [7, 8] [7] [7] \<lparr>workers = 1, queue = [8], running = [] :: nat list, shutdown = False\<rparr>"
    by (simp add: tp_done_def)
  from single_worker_in_order [OF this] show ?thesis by simp
qed

text \<open>
  With two workers a task that was enqueued later can finish first: the queue alone does not
  order the tasks of one chain.
\<close>

theorem two_workers_reorder:
  assumes "2 \<le> n"
  shows "\<exists>tp :: 'a ThreadPool. tp_run n [t, u] [t, u] [u, t] tp \<and> running tp = [] \<and> queue tp = []"
proof -
  let ?s = "tp_start n tp_new :: 'a ThreadPool"
  let ?st = "\<lambda>q r. \<lparr>workers = n, queue = q, running = r, shutdown = False\<rparr> :: 'a ThreadPool"
  have a: "tp_run n [t, u] [] [] (tp_enqueue u (tp_enqueue t ?s))"
    using tp_run.enq [OF tp_run.enq [OF tp_run.start]] by simp
  have b: "tp_run n [t, u] [t] [] (?st [u] [t])"
    using tp_run.take [OF a, of t] assms by (simp add: tp_take_Some tp_enqueue_def tp_start_def tp_new_def)
  have c: "tp_run n [t, u] [t, u] [] (?st [] [t, u])"
    using tp_run.take [OF b, of u] assms by (simp add: tp_take_Some)
  have d: "tp_run n [t, u] [t, u] [u] (?st [] (remove1 u [t, u]))"
    using tp_run.fin [OF c, of u] by (simp add: tp_done_def)
  have "tp_run n [t, u] [t, u] [u, t] (?st [] (remove1 t (remove1 u [t, u])))"
    using tp_run.fin [OF d, of t] by (auto simp: tp_done_def split: if_splits)
  moreover have "remove1 t (remove1 u [t, u]) = []" by simp
  ultimately show ?thesis by (metis ThreadPool.select_convs(2,3))
qed

theorem two_workers_reorder_witness:
  "\<exists>tp. tp_run 4 [1, 2] [1, 2] [2, 1 :: nat] tp \<and> running tp = [] \<and> queue tp = []"
  by (rule two_workers_reorder) simp

end
