(* ===== verification/Chain.thy ===== *)
theory Chain
  imports Module_Api Config Thread_Pool
begin

text \<open>
  \<open>src/core/chain.h\<close>, \<open>chain.cpp\<close>, \<open>module_instance.h\<close>, \<open>kernel_api.h\<close> and the lookup of
  \<open>module_base.h\<close>: a chain of module instances, its buffers, its work queue and its backpressure.

  The state is the record \<open>Chain\<close> together with the state \<open>'k\<close> of the owner (\<open>KernelAPI::ctx\<close>).
  A module pointer is the position of the module in \<open>_modules\<close>; following a pointer that is null
  or out of range is the result \<open>None\<close>, as is freeing a buffer twice.  The contents of the heap are
  \<open>cells\<close>; the answers of \<open>std::malloc\<close> (whether it fails) and of \<open>std::rand\<close> are lists in the
  state.  A task of the pool is a record instead of a closure.  Each task runs as one step:
  \<open>dir_mutex\<close> excludes two tasks of one module and direction, and different modules share only the
  atomic counters of the chain.
\<close>

section \<open>State\<close>

record 'k KernelAPI =
  ka_alloc_module_id :: "'k \<Rightarrow> int \<times> 'k"
  ka_wire_write :: "int \<Rightarrow> bytes \<Rightarrow> 'k \<Rightarrow> (int \<times> 'k) option"

record 'c Module =
  m_base :: string
  m_id :: int
  near :: "nat option list"
  wire_dst :: int
  cfg_idx :: nat
  m_ctx :: "'c option"
  heartbeat_interval_sec :: int
  last_activity :: millis

record WorkTask =
  task_data :: ptr
  task_len :: nat
  task_src :: int
  task_dir :: int
  task_mod :: nat

record 'c Chain =
  cells :: "ptr \<rightharpoonup> bytes"
  next_ptr :: ptr
  oom :: "bool list"
  rands :: "int list"
  modules :: "'c Module list"
  bytes_allocated :: int
  entry_ext :: "nat option"
  wire_entries :: "nat option list"
  pool :: "WorkTask ThreadPool"
  owner :: bool
  cancelled :: bool
  inflight :: int
  requested_outputs :: "(nat \<times> int) list"
  backpressure_paused :: "bool list"
  pause_cb :: "bool list"
  pause_calls :: "(nat \<times> bool) list"
  ctx_src_idx :: int

type_synonym ('c, 'k) world = "'c Chain \<times> 'k"

record ('c, 'k) ModuleBase =
  mb_mid :: string
  mb_builtin :: bool
  init_fn :: "('c, 'k) world ModuleChain \<Rightarrow> string \<Rightarrow> ('c, 'k) world \<Rightarrow> ('c option \<times> ('c, 'k) world) option"
  process_fn :: "('c, ('c, 'k) world) process_fn"

type_synonym ('c, 'k) bases = "string \<rightharpoonup> ('c, 'k) ModuleBase"

abbreviation (input) "BACKPRESSURE_HIGH \<equiv> (524288 :: int)"
abbreviation (input) "BACKPRESSURE_LOW \<equiv> (131072 :: int)"
abbreviation (input) "MAX_WIRE_CONNECTIONS \<equiv> (200 :: int)"

definition chain_empty :: "'c Chain" where
  "chain_empty = \<lparr>cells = (\<lambda>_. None), next_ptr = 0, oom = [], rands = [], modules = [], bytes_allocated = 0,
     entry_ext = None, wire_entries = [], pool = tp_new, owner = True, cancelled = False, inflight = 0,
     requested_outputs = [], backpressure_paused = [False, False], pause_cb = [False, False],
     pause_calls = [], ctx_src_idx = 0\<rparr>"

section \<open>Buffers and backpressure\<close>

definition check_dir :: "nat \<Rightarrow> 'c Chain \<Rightarrow> 'c Chain" where
  "check_dir dir c =
     (let bytes = bytes_allocated c; was_paused = backpressure_paused c ! dir;
          set_paused = (\<lambda>b c. c\<lparr>backpressure_paused := (backpressure_paused c)[dir := b],
             pause_calls := pause_calls c @ (if pause_cb c ! dir then [(dir, b)] else [])\<rparr>);
          c = (if bytes > BACKPRESSURE_HIGH \<and> \<not> was_paused then set_paused True c else c)
      in if bytes \<le> BACKPRESSURE_LOW \<and> was_paused then set_paused False c else c)"

definition check_backpressure :: "'c Chain \<Rightarrow> 'c Chain" where
  "check_backpressure c = check_dir 1 (check_dir 0 c)"

definition alloc_buffer :: "nat \<Rightarrow> 'c Chain \<Rightarrow> ptr option \<times> 'c Chain" where
  "alloc_buffer sz c =
     (case oom c of
        True # rest \<Rightarrow> (None, c\<lparr>oom := rest\<rparr>)
      | _ \<Rightarrow>
          (Some (next_ptr c),
           check_backpressure
             (c\<lparr>oom := tl (oom c), cells := (cells c)(next_ptr c \<mapsto> replicate sz 0),
                next_ptr := next_ptr c + 1, bytes_allocated := bytes_allocated c + int sz\<rparr>)))"

definition free_buffer :: "ptr \<Rightarrow> 'c Chain \<Rightarrow> 'c Chain option" where
  "free_buffer p c =
     (case cells c p of
        None \<Rightarrow> None
      | Some b \<Rightarrow> Some (check_backpressure
            (c\<lparr>cells := (cells c)(p := None), bytes_allocated := bytes_allocated c - int (length b)\<rparr>)))"

definition store_buffer :: "ptr \<Rightarrow> nat \<Rightarrow> bytes \<Rightarrow> 'c Chain \<Rightarrow> 'c Chain option" where
  "store_buffer p off bs c =
     (case cells c p of
        None \<Rightarrow> None
      | Some b \<Rightarrow> if off + length bs \<le> length b then Some (c\<lparr>cells := (cells c)(p \<mapsto> patch off bs b)\<rparr>)
                 else None)"

text \<open>Reading \<open>len\<close> bytes of a buffer.\<close>

definition read_buffer :: "ptr \<Rightarrow> nat \<Rightarrow> 'c Chain \<Rightarrow> bytes option" where
  "read_buffer p len c =
     (case cells c p of None \<Rightarrow> None | Some b \<Rightarrow> if len \<le> length b then Some (take len b) else None)"

definition is_drained :: "'c Chain \<Rightarrow> bool" where
  "is_drained c \<longleftrightarrow> inflight c = 0"

definition is_backpressure_paused :: "nat \<Rightarrow> 'c Chain \<Rightarrow> bool" where
  "is_backpressure_paused dir c = backpressure_paused c ! dir"

definition set_pause_callback :: "nat \<Rightarrow> 'c Chain \<Rightarrow> 'c Chain" where
  "set_pause_callback dir c = c\<lparr>pause_cb := (pause_cb c)[dir := True]\<rparr>"

definition cancel :: "'c Chain \<Rightarrow> 'c Chain" where
  "cancel c = c\<lparr>cancelled := True\<rparr>"

definition total_extra_outputs :: "'c Chain \<Rightarrow> int" where
  "total_extra_outputs c =
     (if length (wire_entries c) < 2 then 0 else int (length (wire_entries c) - 2))"

section \<open>Passing packets\<close>

definition module_at :: "nat \<Rightarrow> 'c Chain \<Rightarrow> 'c Module option" where
  "module_at i c = (if i < length (modules c) then Some (modules c ! i) else None)"

definition upd_module :: "nat \<Rightarrow> ('c Module \<Rightarrow> 'c Module) \<Rightarrow> 'c Chain \<Rightarrow> 'c Chain" where
  "upd_module i f c = c\<lparr>modules := (modules c)[i := f (modules c ! i)]\<rparr>"

definition enqueue_module :: "nat option \<Rightarrow> ptr \<Rightarrow> nat \<Rightarrow> int \<Rightarrow> int \<Rightarrow> 'c Chain \<Rightarrow> 'c Chain option" where
  "enqueue_module m data len src dir c =
     (if \<not> owner c then free_buffer data c
      else do {
        i \<leftarrow> m;
        _ \<leftarrow> module_at i c;
        Some (c\<lparr>inflight := inflight c + 1,
                pool := tp_enqueue \<lparr>task_data = data, task_len = len, task_src = src, task_dir = dir,
                                    task_mod = i\<rparr> (pool c)\<rparr>)
      })"

definition push_packet :: "'k KernelAPI \<Rightarrow> ptr \<Rightarrow> nat \<Rightarrow> int \<Rightarrow> int \<Rightarrow> ('c, 'k) world \<Rightarrow> ('c, 'k) world option" where
  "push_packet K data len src dir w =
     (case w of (c, k) \<Rightarrow>
        let drop_it = (\<lambda>k. map_option (\<lambda>c. (c, k)) (free_buffer data c));
            enq = (\<lambda>m. map_option (\<lambda>c. (c, k)) (enqueue_module m data len src dir c))
        in if cancelled c then drop_it k
           else if entry_ext c = None then do {
             d \<leftarrow> read_buffer data len c;
             (_, k) \<leftarrow> ka_wire_write K (if dir = 0 then 1 else 0) d k;
             drop_it k
           }
           else if \<not> owner c then drop_it k
           else if dir = 0 then enq (entry_ext c)
           else if src < 0 \<or> int (length (wire_entries c)) \<le> src then drop_it k
           else enq (wire_entries c ! nat src))"

definition write_packet_impl ::
  "'k KernelAPI \<Rightarrow> nat \<Rightarrow> int \<Rightarrow> ptr \<Rightarrow> nat \<Rightarrow> ('c, 'k) world \<Rightarrow> (int \<times> ('c, 'k) world) option" where
  "write_packet_impl K i dst data len w =
     (case w of (c, k) \<Rightarrow> do {
        m \<leftarrow> module_at i c;
        let dir = (if dst = 0 then 1 else 0);
        if 0 \<le> dst \<and> dst < int (length (near m)) \<and> near m ! nat dst \<noteq> None then do {
          c \<leftarrow> enqueue_module (near m ! nat dst) data len (ctx_src_idx c) dir c;
          Some (0, (c, k))
        }
        else do {
          d \<leftarrow> read_buffer data len c;
          (ret, k) \<leftarrow> ka_wire_write K (if dst = 0 then 0 else wire_dst m) d k;
          c \<leftarrow> free_buffer data c;
          Some (ret, (c, k))
        }
      })"

definition request_outputs_impl :: "nat \<Rightarrow> int \<Rightarrow> 'c Chain \<Rightarrow> int \<times> 'c Chain" where
  "request_outputs_impl i count c =
     (if count < 1 then (0, c)
      else (count, c\<lparr>requested_outputs := filter (\<lambda>e. fst e \<noteq> i) (requested_outputs c) @ [(i, count)]\<rparr>))"

definition request_heartbeat_impl :: "nat \<Rightarrow> int \<Rightarrow> 'c Chain \<Rightarrow> 'c Chain" where
  "request_heartbeat_impl i interval c =
     upd_module i (\<lambda>m. m\<lparr>heartbeat_interval_sec :=
       (if interval > 0 then interval else if interval = 0 then -2 else 0)\<rparr>) c"

definition chain_rand :: "'c Chain \<Rightarrow> int \<times> 'c Chain" where
  "chain_rand c = (case rands c of [] \<Rightarrow> (0, c) | n # ns \<Rightarrow> (\<bar>n\<bar>, c\<lparr>rands := ns\<rparr>))"

text \<open>The function pointers a module receives (\<open>write_packet_static\<close> and the other stubs).\<close>

definition chain_api :: "'k KernelAPI \<Rightarrow> nat \<Rightarrow> ('c, 'k) world ModuleChain" where
  "chain_api K i = \<lparr>
     mc_malloc = (\<lambda>n (c, k). let (p, c) = alloc_buffer n c in (p, (c, k))),
     mc_free = (\<lambda>p (c, k). map_option (\<lambda>c. (c, k)) (free_buffer p c)),
     mc_load = (\<lambda>p (c, k). cells c p),
     mc_store = (\<lambda>p off bs (c, k). map_option (\<lambda>c. (c, k)) (store_buffer p off bs c)),
     mc_write_packet = write_packet_impl K i,
     mc_request_outputs = (\<lambda>n (c, k). let (r, c) = request_outputs_impl i n c in (r, (c, k))),
     mc_get_node_id = (\<lambda>(c, k). m_id (modules c ! i)),
     mc_rand = (\<lambda>(c, k). let (n, c) = chain_rand c in (n, (c, k)))\<rparr>"

text \<open>The call of a module's \<open>process\<close>; the module's context is written back.\<close>

definition call_process ::
  "('c, 'k) bases \<Rightarrow> 'k KernelAPI \<Rightarrow> nat \<Rightarrow> int \<Rightarrow> int \<Rightarrow> ptr option \<Rightarrow> nat \<Rightarrow> ('c, 'k) world
   \<Rightarrow> (int \<times> ('c, 'k) world) option" where
  "call_process B K i dir src data len w = do {
     m \<leftarrow> module_at i (fst w);
     base \<leftarrow> B (m_base m);
     ctx \<leftarrow> m_ctx m;
     (ret, ctx, (c, k)) \<leftarrow> process_fn base (chain_api K i) ctx dir src data len w;
     Some (ret, (upd_module i (\<lambda>m. m\<lparr>m_ctx := Some ctx\<rparr>) c, k))
   }"

definition task_done :: "WorkTask \<Rightarrow> 'c Chain \<Rightarrow> 'c Chain" where
  "task_done t c = c\<lparr>inflight := inflight c - 1, pool := tp_done t (pool c)\<rparr>"

text \<open>The function of a task: the lambda of \<open>enqueue_module\<close>.\<close>

definition run_task ::
  "('c, 'k) bases \<Rightarrow> 'k KernelAPI \<Rightarrow> millis \<Rightarrow> WorkTask \<Rightarrow> ('c, 'k) world \<Rightarrow> ('c, 'k) world option" where
  "run_task B K now t w =
     (case w of (c, k) \<Rightarrow>
        if cancelled c then do {
          c \<leftarrow> free_buffer (task_data t) c;
          Some (task_done t c, k)
        }
        else do {
          let c = upd_module (task_mod t) (\<lambda>m. m\<lparr>last_activity := now\<rparr>) (c\<lparr>ctx_src_idx := task_src t\<rparr>);
          (ret, (c, k)) \<leftarrow> call_process B K (task_mod t) (task_dir t) (task_src t) (Some (task_data t))
                             (task_len t) (c, k);
          if ret < 0 then do {
            c \<leftarrow> free_buffer (task_data t) c;
            Some (task_done t c, k)
          }
          else Some (task_done t c, k)
        })"

text \<open>One round of a worker: take the front task of the queue and run it.\<close>

definition worker_step ::
  "('c, 'k) bases \<Rightarrow> 'k KernelAPI \<Rightarrow> millis \<Rightarrow> ('c, 'k) world \<Rightarrow> ('c, 'k) world option" where
  "worker_step B K now w =
     (case tp_take (pool (fst w)) of
        None \<Rightarrow> Some w
      | Some (t, tp) \<Rightarrow> run_task B K now t ((fst w)\<lparr>pool := tp\<rparr>, snd w))"

fun worker_steps ::
  "nat \<Rightarrow> ('c, 'k) bases \<Rightarrow> 'k KernelAPI \<Rightarrow> millis \<Rightarrow> ('c, 'k) world \<Rightarrow> ('c, 'k) world option" where
  "worker_steps 0 B K now w = Some w"
| "worker_steps (Suc n) B K now w = Option.bind (worker_step B K now w) (worker_steps n B K now)"

section \<open>Heartbeats\<close>

definition module_heartbeat ::
  "('c, 'k) bases \<Rightarrow> 'k KernelAPI \<Rightarrow> int \<Rightarrow> millis \<Rightarrow> nat \<Rightarrow> ('c, 'k) world \<Rightarrow> ('c, 'k) world option" where
  "module_heartbeat B K system_interval_ms now i w = do {
     m \<leftarrow> module_at i (fst w);
     let interval = heartbeat_interval_sec m;
     let tick = (\<lambda>w. map_option snd (call_process B K i (-1) 0 None 0 w));
     if interval = 0 then Some w
     else if interval = -2 then tick w
     else do {
       let eff = max 1000 (if interval < 0 then system_interval_ms else interval * 1000);
       if now - last_activity m \<ge> eff
       then tick (upd_module i (\<lambda>m. m\<lparr>last_activity := now\<rparr>) (fst w), snd w)
       else Some w
     }
   }"

fun heartbeat_loop ::
  "('c, 'k) bases \<Rightarrow> 'k KernelAPI \<Rightarrow> int \<Rightarrow> millis \<Rightarrow> nat list \<Rightarrow> ('c, 'k) world \<Rightarrow> ('c, 'k) world option" where
  "heartbeat_loop B K ms now [] w = Some w"
| "heartbeat_loop B K ms now (i # is) w =
     Option.bind (module_heartbeat B K ms now i w) (heartbeat_loop B K ms now is)"

definition check_module_heartbeats ::
  "('c, 'k) bases \<Rightarrow> 'k KernelAPI \<Rightarrow> int \<Rightarrow> millis \<Rightarrow> ('c, 'k) world \<Rightarrow> ('c, 'k) world option" where
  "check_module_heartbeats B K ms now w = heartbeat_loop B K ms now [0..<length (modules (fst w))] w"

section \<open>Construction\<close>

definition new_module :: "string \<Rightarrow> int \<Rightarrow> nat \<Rightarrow> 'c Module" where
  "new_module name i cidx = \<lparr>m_base = name, m_id = i, near = [None, None], wire_dst = -1, cfg_idx = cidx,
     m_ctx = None, heartbeat_interval_sec = 0, last_activity = 0\<rparr>"

text \<open>
  \<open>create_one\<close> adds a module at the end of the list; the flag is \<open>False\<close> when it returned the null
  pointer, and then the module is gone again.
\<close>

definition create_one ::
  "('c, 'k) bases \<Rightarrow> 'k KernelAPI \<Rightarrow> millis \<Rightarrow> ModuleSpec \<Rightarrow> nat \<Rightarrow> ('c, 'k) world
   \<Rightarrow> (bool \<times> ('c, 'k) world) option" where
  "create_one B K now spec cidx w =
     (case B (ms_name spec) of
        None \<Rightarrow> Some (False, w)
      | Some base \<Rightarrow>
          (let (c, k) = w; (mid, k) = ka_alloc_module_id K k; i = length (modules c)
           in do {
             (ctx, (c, k)) \<leftarrow> init_fn base (chain_api K i) (c_str (ms_params spec))
                 (c\<lparr>modules := modules c @ [new_module (ms_name spec) mid cidx]\<rparr>, k);
             case ctx of
               None \<Rightarrow> Some (False, (c\<lparr>modules := take i (modules c)\<rparr>, k))
             | Some _ \<Rightarrow>
                 Some (True, (upd_module i (\<lambda>m. m\<lparr>m_ctx := ctx, last_activity := now\<rparr>) c, k))
           }))"

fun build_main ::
  "('c, 'k) bases \<Rightarrow> 'k KernelAPI \<Rightarrow> millis \<Rightarrow> ModuleSpec list \<Rightarrow> nat \<Rightarrow> ('c, 'k) world
   \<Rightarrow> (bool \<times> ('c, 'k) world) option" where
  "build_main B K now [] i w = Some (True, w)"
| "build_main B K now (s # ss) i w = do {
     (okay, w) \<leftarrow> create_one B K now s i w;
     if okay then build_main B K now ss (i + 1) w else Some (False, w)
   }"

definition link_main :: "'c Chain \<Rightarrow> 'c Chain" where
  "link_main c =
     (let n = length (modules c);
          ms = map (\<lambda>i. (modules c ! i)\<lparr>near := [if i > 0 then Some (i - 1) else None,
                                              if i + 1 < n then Some (i + 1) else None]\<rparr>) [0..<n];
          c = c\<lparr>modules := ms, entry_ext := Some 0, wire_entries := [None, Some (n - 1)]\<rparr>
      in upd_module (n - 1) (\<lambda>m. m\<lparr>wire_dst := 1\<rparr>) (upd_module 0 (\<lambda>m. m\<lparr>wire_dst := 0\<rparr>) c))"

definition vec_resize :: "nat \<Rightarrow> 'a \<Rightarrow> 'a list \<Rightarrow> 'a list" where
  "vec_resize n x xs = take n xs @ replicate (n - length xs) x"

text \<open>
  The modules of one sub-chain, behind \<open>prev_mod\<close>; the result holds the first and the last of them.
\<close>

fun build_sub ::
  "('c, 'k) bases \<Rightarrow> 'k KernelAPI \<Rightarrow> millis \<Rightarrow> (nat \<times> ModuleSpec) list \<Rightarrow> nat \<Rightarrow> nat \<Rightarrow> nat option
   \<Rightarrow> ('c, 'k) world \<Rightarrow> (bool \<times> nat option \<times> nat \<times> ('c, 'k) world) option" where
  "build_sub B K now [] md prev_mod first_sub w = Some (True, first_sub, prev_mod, w)"
| "build_sub B K now ((ri, spec) # rest) md prev_mod first_sub w =
     (let mp = length (modules (fst w)) in do {
        (okay, (c, k)) \<leftarrow> create_one B K now spec ri w;
        if \<not> okay then Some (False, first_sub, prev_mod, (c, k))
        else do {
          let c = upd_module mp (\<lambda>m. m\<lparr>near := (near m)[0 := Some prev_mod]\<rparr>) c;
          let c = (if prev_mod \<noteq> md
                   then upd_module prev_mod (\<lambda>m. m\<lparr>near := (near m)[1 := Some mp]\<rparr>) c else c);
          build_sub B K now rest md mp (if first_sub = None then Some mp else first_sub) (c, k)
        }
      })"

text \<open>The sub-chains \<open>k\<close>, \<open>k + 1\<close>, ... of one module, \<open>n\<close> of them; ports are numbered upwards.\<close>

fun build_outputs ::
  "('c, 'k) bases \<Rightarrow> 'k KernelAPI \<Rightarrow> millis \<Rightarrow> (nat \<times> ModuleSpec) list \<Rightarrow> nat \<Rightarrow> nat \<Rightarrow> nat \<Rightarrow> nat
   \<Rightarrow> ('c, 'k) world \<Rightarrow> (bool \<times> nat \<times> ('c, 'k) world) option" where
  "build_outputs B K now specs md 0 k port w = Some (True, port, w)"
| "build_outputs B K now specs md (Suc n) k port w = do {
     (okay, first_sub, prev_mod, (c, kk)) \<leftarrow> build_sub B K now specs md md None w;
     if \<not> okay then Some (False, port, (c, kk))
     else do {
       let c = upd_module prev_mod (\<lambda>m. m\<lparr>wire_dst := int port\<rparr>) c;
       let we = (if length (wire_entries c) \<le> port then vec_resize (port + 1) None (wire_entries c)
                 else wire_entries c);
       let c = c\<lparr>wire_entries := we[port := Some prev_mod]\<rparr>;
       let c = upd_module md (\<lambda>m. m\<lparr>near := (near m)[1 + k := first_sub]\<rparr>) c;
       build_outputs B K now specs md n (k + 1) (port + 1) (c, kk)
     }
   }"

fun build_requests ::
  "('c, 'k) bases \<Rightarrow> 'k KernelAPI \<Rightarrow> millis \<Rightarrow> ModuleSpec list \<Rightarrow> (nat \<times> int) list \<Rightarrow> nat
   \<Rightarrow> ('c, 'k) world \<Rightarrow> (bool \<times> nat \<times> ('c, 'k) world) option" where
  "build_requests B K now cfg [] port w = Some (True, port, w)"
| "build_requests B K now cfg ((md, count) # ps) port w = do {
     m \<leftarrow> module_at md (fst w);
     let mc = cfg_idx m;
     if length cfg \<le> mc + 1 then build_requests B K now cfg ps port w
     else do {
       let c = upd_module md (\<lambda>m. m\<lparr>near := vec_resize (2 + nat count) None (near m)\<rparr>) (fst w);
       (okay, port, w) \<leftarrow> build_outputs B K now (drop (mc + 1) (enumerate 0 cfg)) md (nat count) 1 port (c, snd w);
       if okay then build_requests B K now cfg ps port w else Some (False, port, w)
     }
   }"

text \<open>
  The loop over the requested outputs.  \<open>order\<close> is the order in which \<open>std::unordered_map\<close> yields its
  entries, which the language leaves open.  When a module of a sub-chain cannot be made, all modules
  are destroyed but the entry points keep pointing at them.
\<close>

partial_function (option) build_loop ::
  "('c, 'k) bases \<Rightarrow> 'k KernelAPI \<Rightarrow> ((nat \<times> int) list \<Rightarrow> (nat \<times> int) list) \<Rightarrow> millis \<Rightarrow> ModuleSpec list
   \<Rightarrow> nat \<Rightarrow> ('c, 'k) world \<Rightarrow> ('c, 'k) world option" where
  "build_loop B K order now cfg port w =
     (if requested_outputs (fst w) = [] then Some w
      else do {
        (okay, port, w) \<leftarrow> build_requests B K now cfg (order (requested_outputs (fst w))) port
                              ((fst w)\<lparr>requested_outputs := []\<rparr>, snd w);
        if okay then build_loop B K order now cfg port w
        else Some ((fst w)\<lparr>modules := []\<rparr>, snd w)
      })"

declare build_loop.simps [code]

definition chain_new ::
  "('c, 'k) bases \<Rightarrow> 'k KernelAPI \<Rightarrow> ((nat \<times> int) list \<Rightarrow> (nat \<times> int) list) \<Rightarrow> millis \<Rightarrow> ChainConfig
   \<Rightarrow> ('c, 'k) world \<Rightarrow> ('c, 'k) world option" where
  "chain_new B K order now cfg w = do {
     (okay, (c, k)) \<leftarrow> build_main B K now (cc_modules cfg) 0 w;
     if \<not> okay then Some (c\<lparr>modules := []\<rparr>, k)
     else if modules c = [] then Some (c, k)
     else build_loop B K order now (cc_modules cfg) 2 (link_main c, k)
   }"

text \<open>The destructor: \<open>cancel\<close> and \<open>wait_drain\<close>, which returns once the workers have run \<open>n\<close> tasks.\<close>

definition chain_destroy ::
  "nat \<Rightarrow> ('c, 'k) bases \<Rightarrow> 'k KernelAPI \<Rightarrow> millis \<Rightarrow> ('c, 'k) world \<Rightarrow> ('c, 'k) world option" where
  "chain_destroy n B K now w = do {
     w \<leftarrow> worker_steps n B K now (cancel (fst w), snd w);
     if is_drained (fst w) then Some w else None
   }"

end
