(* ===== verification/Modules.thy ===== *)
theory Modules
  imports Split Chain
begin

text \<open>
  The small modules, \<open>src/core/modules/copy.cpp\<close> and \<open>src/modules/base64/base64.c\<close>, and the
  registry of modules, \<open>src/core/module_base.h\<close>, \<open>module_base.cpp\<close> and \<open>src/core/modules/modules.cpp\<close>.
  The encoder and decoder of \<open>libbase64\<close> and the hash of OpenSSL are parameters; the trace output of
  the modules is not modelled.
\<close>

section \<open>Copy\<close>

record copy_ctx =
  cp_trace :: bool
  cp_node_id :: int
  mode_copy :: bool

definition copy_init :: "'w ModuleChain \<Rightarrow> string \<Rightarrow> 'w \<Rightarrow> copy_ctx" where
  "copy_init A config w =
     \<lparr>cp_trace = (strstr config ''trace'' \<noteq> None), cp_node_id = mc_get_node_id A w,
      mode_copy = (case strstr config ''m:'' of
                     None \<Rightarrow> False
                   | Some m \<Rightarrow> take 1 (drop 2 m) = ''c'')\<rparr>"

definition copy_process :: "(copy_ctx, 'w) process_fn" where
  "copy_process A ctx dir trigger_idx data len w =
     (case data of
        None \<Rightarrow> Some (-1, ctx, w)
      | Some p \<Rightarrow>
          if len = 0 then Some (-1, ctx, w)
          else
            let write_dst = (if dir = 0 then 1 else 0)
            in if mode_copy ctx then
                 (case mc_malloc A len w of
                    (None, w) \<Rightarrow> Some (-1, ctx, w)
                  | (Some cp, w) \<Rightarrow> do {
                      b \<leftarrow> mc_load A p w;
                      w \<leftarrow> mc_store A cp 0 (take len b) w;
                      w \<leftarrow> mc_free A p w;
                      (ret, w) \<leftarrow> mc_write_packet A write_dst cp len w;
                      Some (ret, ctx, w)
                    })
               else do {
                 (ret, w) \<leftarrow> mc_write_packet A write_dst p len w;
                 Some (ret, ctx, w)
               })"

section \<open>Base64\<close>

record b64_ctx =
  b64_trace :: bool
  b64_node_id :: int

definition b64_init :: "'w ModuleChain \<Rightarrow> string \<Rightarrow> 'w \<Rightarrow> b64_ctx" where
  "b64_init A config w = \<lparr>b64_trace = (strstr config ''trace'' \<noteq> None), b64_node_id = mc_get_node_id A w\<rparr>"

definition b64_process :: "(bytes \<Rightarrow> bytes) \<Rightarrow> (bytes \<Rightarrow> bytes option) \<Rightarrow> (b64_ctx, 'w) process_fn" where
  "b64_process base64_encode base64_decode A ctx dir trigger_idx data len w =
     (case data of
        None \<Rightarrow> Some (-1, ctx, w)
      | Some p \<Rightarrow>
          if len = 0 then Some (-1, ctx, w)
          else if dir = 0 then
            (case mc_malloc A ((len + 2) div 3 * 4) w of
               (None, w) \<Rightarrow> Some (-1, ctx, w)
             | (Some wbuf, w) \<Rightarrow> do {
                 b \<leftarrow> mc_load A p w;
                 let out = base64_encode (take len b);
                 w \<leftarrow> mc_store A wbuf 0 out w;
                 w \<leftarrow> mc_free A p w;
                 (ret, w) \<leftarrow> mc_write_packet A 1 wbuf (length out) w;
                 Some (ret, ctx, w)
               })
          else
            (case mc_malloc A len w of
               (None, w) \<Rightarrow> Some (-1, ctx, w)
             | (Some buf, w) \<Rightarrow> do {
                 b \<leftarrow> mc_load A p w;
                 w \<leftarrow> mc_store A buf 0 (take len b) w;
                 case base64_decode (take len b) of
                   None \<Rightarrow> do { w \<leftarrow> mc_free A buf w; Some (-1, ctx, w) }
                 | Some out \<Rightarrow> do {
                     w \<leftarrow> mc_store A buf 0 out w;
                     w \<leftarrow> mc_free A p w;
                     (ret, w) \<leftarrow> mc_write_packet A 0 buf (length out) w;
                     Some (ret, ctx, w)
                   }
               }))"

section \<open>Registry\<close>

text \<open>The context of a module, as the void pointer the chain keeps.\<close>

datatype module_ctx = CopyCtx copy_ctx | B64Ctx b64_ctx | SplitCtx SplitContext

definition copy_base :: "(string \<Rightarrow> string) \<Rightarrow> (module_ctx, 'k) ModuleBase" where
  "copy_base hex_sha256 = \<lparr>
     mb_mid = hex_sha256 (''copy|1.0.0|copy data from input to output (move or copy)''),
     mb_builtin = True,
     init_fn = (\<lambda>A config w. Some (Some (CopyCtx (copy_init A config w)), w)),
     process_fn = (\<lambda>A ctx dir trigger data len w. case ctx of
        CopyCtx x \<Rightarrow> map_option (\<lambda>(r, x, w). (r, CopyCtx x, w)) (copy_process A x dir trigger data len w)
      | _ \<Rightarrow> None)\<rparr>"

definition split_base :: "(string \<Rightarrow> string) \<Rightarrow> (module_ctx, 'k) ModuleBase" where
  "split_base hex_sha256 = \<lparr>
     mb_mid = hex_sha256 (''split|1.0.3|Split/merge module for multi-stream data transfer''),
     mb_builtin = False,
     init_fn = (\<lambda>A config w. let (x, w) = split_init A config w in Some (Some (SplitCtx x), w)),
     process_fn = (\<lambda>A ctx dir trigger data len w. case ctx of
        SplitCtx x \<Rightarrow> map_option (\<lambda>(r, x, w). (r, SplitCtx x, w)) (split_process A x dir trigger data len w)
      | _ \<Rightarrow> None)\<rparr>"

definition b64_base :: "(bytes \<Rightarrow> bytes) \<Rightarrow> (bytes \<Rightarrow> bytes option) \<Rightarrow> (string \<Rightarrow> string)
    \<Rightarrow> (module_ctx, 'k) ModuleBase" where
  "b64_base enc dec hex_sha256 = \<lparr>
     mb_mid = hex_sha256 (''base64|1.0.1|Base64 encode/decode with SIMD acceleration''),
     mb_builtin = False,
     init_fn = (\<lambda>A config w. Some (Some (B64Ctx (b64_init A config w)), w)),
     process_fn = (\<lambda>A ctx dir trigger data len w. case ctx of
        B64Ctx x \<Rightarrow> map_option (\<lambda>(r, x, w). (r, B64Ctx x, w)) (b64_process enc dec A x dir trigger data len w)
      | _ \<Rightarrow> None)\<rparr>"

text \<open>
  What \<open>load\<close> finds at a path: \<open>dlopen\<close> may fail, a symbol may be missing, or the library gives its
  name, version and description and the two functions.
\<close>

datatype ('c, 'k) library =
    DlopenFails
  | MissingSymbol
  | Library string string string "('c, 'k) ModuleBase"

datatype 'a outcome = Ok 'a | ExitProcess

definition scan_modules :: "string \<Rightarrow> string list \<Rightarrow> string list" where
  "scan_modules dir names =
     map (\<lambda>n. dir @ ''/'' @ n) (filter (\<lambda>n. 3 < length n \<and> drop (length n - 3) n = ''.so'') names)"

fun load_paths ::
  "(string \<Rightarrow> string) \<Rightarrow> (string \<Rightarrow> ('c, 'k) library) \<Rightarrow> string list \<Rightarrow> ('c, 'k) bases \<Rightarrow> ('c, 'k) bases outcome" where
  "load_paths hex_sha256 dl [] B = Ok B"
| "load_paths hex_sha256 dl (p # ps) B =
     (case dl p of
        DlopenFails \<Rightarrow> load_paths hex_sha256 dl ps B
      | MissingSymbol \<Rightarrow> load_paths hex_sha256 dl ps B
      | Library name version desc base \<Rightarrow>
          (case B name of
             Some old \<Rightarrow> if mb_builtin old then load_paths hex_sha256 dl ps B else ExitProcess
           | None \<Rightarrow>
               load_paths hex_sha256 dl ps
                 (B(name \<mapsto> base\<lparr>mb_builtin := False,
                                mb_mid := hex_sha256 (name @ ''|'' @ version @ ''|'' @ desc)\<rparr>))))"

definition load_dir ::
  "(string \<Rightarrow> string) \<Rightarrow> (string \<Rightarrow> ('c, 'k) library) \<Rightarrow> string \<Rightarrow> string list \<Rightarrow> ('c, 'k) bases
   \<Rightarrow> ('c, 'k) bases outcome" where
  "load_dir hex_sha256 dl dir names B = load_paths hex_sha256 dl (scan_modules dir names) B"

definition register_builtin :: "string \<Rightarrow> ('c, 'k) ModuleBase \<Rightarrow> ('c, 'k) bases \<Rightarrow> ('c, 'k) bases outcome" where
  "register_builtin name base B =
     (case B name of
        Some old \<Rightarrow> if mb_builtin old then Ok B else ExitProcess
      | None \<Rightarrow> Ok (B(name \<mapsto> base)))"

definition register_builtin_modules ::
  "(string \<Rightarrow> string) \<Rightarrow> (module_ctx, 'k) bases \<Rightarrow> (module_ctx, 'k) bases outcome" where
  "register_builtin_modules hex_sha256 B = register_builtin ''copy'' (copy_base hex_sha256) B"

text \<open>
  Loading a directory never replaces a module that is already registered, neither a built-in nor
  a loaded one: it keeps every entry, or ends the process.
\<close>

theorem load_keeps_registered:
  "load_dir hex_sha256 dl dir names B = Ok B' \<Longrightarrow> B name = Some base \<Longrightarrow> B' name = Some base"
proof -
  have "load_paths hex_sha256 dl ps B = Ok B' \<Longrightarrow> B name = Some base \<Longrightarrow> B' name = Some base" for ps
  proof (induction ps arbitrary: B)
    case (Cons p ps)
    then show ?case
      by (cases "dl p") (auto split: option.splits if_splits, metis fun_upd_other option.distinct(1))
  qed simp
  then show "load_dir hex_sha256 dl dir names B = Ok B' \<Longrightarrow> B name = Some base \<Longrightarrow> B' name = Some base"
    by (simp add: load_dir_def)
qed

text \<open>A registry with the modules of the repository that are modelled.\<close>

definition std_bases :: "(module_ctx, 'k) bases" where
  "std_bases = [''copy'' \<mapsto> copy_base (\<lambda>s. s), ''split'' \<mapsto> split_base (\<lambda>s. s)]"

theorem load_keeps_registered_witness:
  "load_dir (\<lambda>s. s) (\<lambda>p. Library ''copy'' ''9'' ''evil'' (split_base (\<lambda>s. s))) ''/m'' [''x.so'']
     (std_bases :: (module_ctx, unit) bases) = Ok std_bases
   \<and> (std_bases :: (module_ctx, unit) bases) ''copy'' = Some (copy_base (\<lambda>s. s))"
proof -
  have eq: "load_dir (\<lambda>s. s) (\<lambda>p. Library ''copy'' ''9'' ''evil'' (split_base (\<lambda>s. s))) ''/m'' [''x.so'']
     (std_bases :: (module_ctx, unit) bases) = Ok std_bases"
    by (simp add: load_dir_def scan_modules_def std_bases_def copy_base_def)
  have "(std_bases :: (module_ctx, unit) bases) ''copy'' = Some (copy_base (\<lambda>s. s))"
    by (simp add: std_bases_def)
  from load_keeps_registered [OF eq this] eq show ?thesis by simp
qed

end
