(* ===== verification/Reassembly.thy ===== *)
theory Reassembly
  imports Split "HOL-Library.Multiset"
begin

text \<open>
  Correctness of the split module: what \<open>process_split\<close> emits, and that \<open>process_merge\<close> puts the
  packets together again from their chunks in any order of arrival, duplicates included, without
  losing a buffer.  All lemmas about the two operations are proved in the locale \<open>module_env\<close>, for
  any provider of the module interface.
\<close>

section \<open>Packet numbers and slot keys\<close>

lemma seq32_window:
  fixes e p :: u32
  assumes "unat e + 49152 \<le> 2 ^ 32" and "unat p < unat e + 16384" and "unat e \<le> unat p + 16384"
  shows "seq32 e (ucast (p AND 0x7FFF)) = p"
proof -
  let ?f = "(e AND NOT 0x7FFF) OR ucast (ucast (p AND 0x7FFF) :: u16)"
  let ?E = "unat e" and ?P = "unat p"
  define F where "F = unat ?f"
  have F: "F = ?E - ?E mod 32768 + ?P mod 32768" unfolding F_def by (rule seq32_base)
  have bl: "F < ?E + 32768" unfolding F using mod_less_divisor [of 32768 ?P] by linarith
  have add: "unat (x + n) = unat x + unat n" if "unat x + unat n < 2 ^ 32" for x n :: u32
    using that by (simp add: unat_word_ariths)
  have lim: "unat x < 2 ^ 32" for x :: u32 using unsigned_less [of x] by simp
  have c1: "?f + 16384 < e \<longleftrightarrow> F + 16384 < ?E"
    using add [of ?f 16384] bl assms(1) by (simp add: word_less_nat_alt F_def)
  have c2: "?f \<ge> e + 16384 \<longleftrightarrow> ?E + 16384 \<le> F"
    using add [of e 16384] assms(1) by (simp add: word_le_nat_alt F_def)
  have q: "?P = 32768 * (?P div 32768) + ?P mod 32768" "?E = 32768 * (?E div 32768) + ?E mod 32768"
    by simp_all
  have F2: "F = 32768 * (?E div 32768) + ?P mod 32768" using F q(2) by linarith
  have m: "?P mod 32768 < 32768" "?E mod 32768 < 32768" by simp_all
  consider "?P div 32768 = ?E div 32768" | "?P div 32768 = Suc (?E div 32768)" | "Suc (?P div 32768) = ?E div 32768"
    using assms(2,3) q m by linarith
  then show ?thesis
  proof cases
    case 1
    then have "F = ?P" using F2 q(1) by simp
    then show ?thesis using c1 c2 assms(2,3) by (simp add: seq32_def Let_def F_def word_unat_eq_iff)
  next
    case 2
    then have P: "?P = F + 32768" using F2 q(1) by simp
    then have "unat (?f + 32768) = ?P"
      using add [of ?f 32768] lim [of p] by (simp add: F_def)
    then show ?thesis using c1 assms(2) P by (simp add: seq32_def Let_def word_unat_eq_iff)
  next
    case 3
    then have P: "F = ?P + 32768" using F2 q(1) by linarith
    then have "?f = p + 32768" using add [of p 32768] lim [of ?f]
      by (simp add: F_def word_unat_eq_iff)
    moreover have "\<not> ?f + 16384 < e" "?f \<ge> e + 16384" using c1 c2 P assms(3) by simp_all
    ultimately show ?thesis by (simp add: seq32_def Let_def)
  qed
qed

lemma unat_slot_key:
  assumes "unat c < 65536"
  shows "unat (slot_key p c) = unat p * 65536 + unat c"
proof -
  have "unat (slot_key p c) = push_bit 16 (unat p) OR unat c"
  proof (rule bit_eqI)
    fix n
    have "\<not> bit c n" if "16 \<le> n"
    proof -
      have "take_bit 16 (unat c) = unat c" using assms by (simp add: take_bit_nat_eq_self)
      then have "\<not> bit (unat c) n" using that by (metis bit_take_bit_iff not_le)
      then show ?thesis using bit_imp_le_length [of c n] by (auto simp: bit_unsigned_iff)
    qed
    then show "bit (unat (slot_key p c)) n = bit (push_bit 16 (unat p) OR unat c) n"
      using bit_imp_le_length [of p "n - 16"] bit_imp_le_length [of c n]
      by (auto simp: slot_key_def bit_unsigned_iff bit_or_iff bit_push_bit_iff bit_ucast_iff)
  qed
  also have "\<dots> = push_bit 16 (unat p) + unat c"
  proof (rule disjunctive_add [symmetric])
    fix n
    have "take_bit 16 (unat c) = unat c" using assms by (simp add: take_bit_nat_eq_self)
    then have "bit (unat c) n \<longrightarrow> n < 16" by (metis bit_take_bit_iff)
    then show "\<not> bit (push_bit 16 (unat p)) n \<or> \<not> bit (unat c) n" by (auto simp: bit_push_bit_iff)
  qed
  also have "\<dots> = unat p * 65536 + unat c" by (simp add: push_bit_eq_mult)
  finally show ?thesis .
qed

lemma slot_key_0: "slot_key p 0 = push_bit 16 (ucast p)"
  by (simp add: slot_key_def)

section \<open>Ordered maps\<close>

abbreviation ordered :: "('k::linorder \<times> 'v) list \<Rightarrow> bool" where
  "ordered m \<equiv> sorted_wrt (<) (map fst m)"

lemma ordered_distinct: "ordered m \<Longrightarrow> distinct (map fst m)"
  by (simp add: strict_sorted_iff)

lemma set_map_insert: "ordered m \<Longrightarrow> set (map_insert k v m) = insert (k, v) {e \<in> set m. fst e \<noteq> k}"
  by (induction k v m rule: map_insert.induct) (auto split: if_splits)

lemma ordered_map_insert: "ordered m \<Longrightarrow> ordered (map_insert k v m)"
  by (induction k v m rule: map_insert.induct) (auto simp: set_map_insert split: if_splits)

lemma map_of_map_insert: "ordered m \<Longrightarrow> map_of (map_insert k v m) = (map_of m)(k \<mapsto> v)"
  by (induction k v m rule: map_insert.induct) (auto simp: fun_eq_iff)

lemma ordered_filter: "ordered m \<Longrightarrow> ordered (filter P m)"
  by (induction m) auto

lemma map_range_filter:
  "ordered m \<Longrightarrow> map_range lo hi m = filter (\<lambda>e. lo \<le> fst e \<and> fst e \<le> hi) m"
proof (induction m)
  case Nil
  then show ?case by (simp add: map_range_def)
next
  case (Cons e m)
  have up: "takeWhile (\<lambda>e. fst e \<le> hi) m = filter (\<lambda>e. fst e \<le> hi) m" if "ordered m"
    for m :: "('a \<times> 'b) list" using that
  proof (induction m)
    case (Cons x m)
    have "filter (\<lambda>e. fst e \<le> hi) m = []" if "\<not> fst x \<le> hi"
      using Cons.prems that by (fastforce simp: filter_empty_conv)
    then show ?case using Cons by simp
  qed simp
  show ?case
  proof (cases "fst e < lo")
    case True
    then show ?thesis using Cons by (auto simp: map_range_def)
  next
    case False
    then have "filter (\<lambda>e. lo \<le> fst e \<and> fst e \<le> hi) (e # m) = filter (\<lambda>e. fst e \<le> hi) (e # m)"
      using Cons.prems by (intro filter_cong) auto
    then show ?thesis using False up [OF Cons.prems] by (simp add: map_range_def)
  qed
qed

section \<open>Chunks of a sequence of packets\<close>

text \<open>
  A sequence of packets is given by the chunks each was cut into; chunk \<open>(i, j)\<close> is the \<open>j\<close>-th of
  packet \<open>i\<close>, and packet \<open>i\<close> carries the number \<open>e + i\<close>.
\<close>

definition chunk_ids :: "bytes list list \<Rightarrow> (nat \<times> nat) set" where
  "chunk_ids Ps = {(i, j). i < length Ps \<and> j < length (Ps ! i)}"

definition chunk_wire :: "nat \<Rightarrow> bytes list list \<Rightarrow> nat \<times> nat \<Rightarrow> bytes" where
  "chunk_wire e Ps c = (case c of (i, j) \<Rightarrow>
     hdr_bytes (encode_hdr (of_nat (e + i)) (Suc j < length (Ps ! i)) (of_nat j)) @ Ps ! i ! j)"

definition chunk_key :: "nat \<Rightarrow> nat \<Rightarrow> nat \<Rightarrow> u64" where
  "chunk_key e i j = slot_key (of_nat (e + i)) (of_nat j)"

definition packets_ok :: "nat \<Rightarrow> bytes list list \<Rightarrow> bool" where
  "packets_ok e Ps \<longleftrightarrow> e + length Ps + 49152 \<le> 2 ^ 32
     \<and> (\<forall>p \<in> set Ps. p \<noteq> [] \<and> length p \<le> 65536)"

lemma chunk_bounds:
  "packets_ok e Ps \<Longrightarrow> (i, j) \<in> chunk_ids Ps \<Longrightarrow> e + i < 2 ^ 32 \<and> j < 65536"
  unfolding packets_ok_def chunk_ids_def using nth_mem [of i Ps] by fastforce

lemma unat_chunk_key:
  assumes "packets_ok e Ps" and "(i, j) \<in> chunk_ids Ps"
  shows "unat (chunk_key e i j) = (e + i) * 65536 + j"
proof -
  have b: "e + i < 2 ^ 32" "j < 65536" using chunk_bounds [OF assms] by auto
  then have "unat (of_nat j :: u32) = j" "unat (of_nat (e + i) :: u32) = e + i"
    by (simp_all add: unat_of_nat del: of_nat_add)
  then show ?thesis using b by (simp add: chunk_key_def unat_slot_key del: of_nat_add)
qed

lemma chunk_key_le:
  assumes "packets_ok e Ps" and "(i, j) \<in> chunk_ids Ps" and "(a, b) \<in> chunk_ids Ps"
  shows "chunk_key e i j \<le> chunk_key e a b \<longleftrightarrow> i < a \<or> i = a \<and> j \<le> b"
proof -
  have b: "j < 65536" "b < 65536" using chunk_bounds [OF assms(1)] assms(2,3) by auto
  consider "i < a" | "i = a" | "a < i" by linarith
  then have "(e + i) * 65536 + j \<le> (e + a) * 65536 + b \<longleftrightarrow> i < a \<or> i = a \<and> j \<le> b"
  proof cases
    case 1
    then have "Suc (e + i) * 65536 \<le> (e + a) * 65536" by (intro mult_le_mono1) simp
    then have "(e + i) * 65536 + j \<le> (e + a) * 65536 + b" using b by simp
    with 1 show ?thesis by simp
  next
    case 2
    then show ?thesis by simp
  next
    case 3
    then have "Suc (e + a) * 65536 \<le> (e + i) * 65536" by (intro mult_le_mono1) simp
    then have "\<not> (e + i) * 65536 + j \<le> (e + a) * 65536 + b" using b by simp
    with 3 show ?thesis by simp
  qed
  then show ?thesis
    using unat_chunk_key [OF assms(1,2)] unat_chunk_key [OF assms(1,3)] by (simp add: word_le_nat_alt)
qed

lemma chunk_key_inj:
  assumes "packets_ok e Ps" and "(i, j) \<in> chunk_ids Ps" and "(a, b) \<in> chunk_ids Ps"
  shows "chunk_key e i j = chunk_key e a b \<longleftrightarrow> i = a \<and> j = b"
  unfolding order_eq_iff [of "chunk_key e i j"] chunk_key_le [OF assms] chunk_key_le [OF assms(1,3,2)]
  by auto

text \<open>The slots of the received chunks \<open>S\<close>: ordered, one per chunk, each owning its own buffer.\<close>

definition slot_ok :: "(ptr \<rightharpoonup> bytes) \<Rightarrow> bytes list list \<Rightarrow> nat \<Rightarrow> nat \<Rightarrow> SlotEntry \<Rightarrow> bool" where
  "slot_ok h Ps i j se \<longleftrightarrow> h (se_data se) = Some (Ps ! i ! j) \<and> se_size se = length (Ps ! i ! j)
     \<and> (se_more se \<longleftrightarrow> Suc j < length (Ps ! i))"

definition slot_ptrs :: "(u64 \<times> SlotEntry) list \<Rightarrow> ptr list" where
  "slot_ptrs m = map (\<lambda>e. se_data (snd e)) m"

lemma slot_ptrs_simps [simp]:
  "slot_ptrs [] = []" "slot_ptrs (x # m) = se_data (snd x) # slot_ptrs m"
  by (simp_all add: slot_ptrs_def)

lemma slot_ptrs_mem: "x \<in> set m \<Longrightarrow> se_data (snd x) \<in> set (slot_ptrs m)"
  by (simp add: slot_ptrs_def)

definition slots_ok :: "(ptr \<rightharpoonup> bytes) \<Rightarrow> nat \<Rightarrow> bytes list list \<Rightarrow> (nat \<times> nat) set
    \<Rightarrow> (u64 \<times> SlotEntry) list \<Rightarrow> bool" where
  "slots_ok h e Ps S m \<longleftrightarrow> ordered m \<and> distinct (slot_ptrs m)
     \<and> (\<forall>k se. (k, se) \<in> set m \<longrightarrow> (\<exists>i j. (i, j) \<in> S \<and> k = chunk_key e i j \<and> slot_ok h Ps i j se))
     \<and> (\<forall>i j. (i, j) \<in> S \<longrightarrow> (\<exists>se. (chunk_key e i j, se) \<in> set m))"

lemma slots_ok_lookup:
  assumes "slots_ok h e Ps S m" and "packets_ok e Ps" and "S \<subseteq> chunk_ids Ps" and "(i, j) \<in> S"
  obtains se where "map_of m (chunk_key e i j) = Some se" "slot_ok h Ps i j se"
proof -
  obtain se where se: "(chunk_key e i j, se) \<in> set m" using assms(1,4) unfolding slots_ok_def by blast
  then obtain a b where "(a, b) \<in> S" "chunk_key e i j = chunk_key e a b" "slot_ok h Ps a b se"
    using assms(1) unfolding slots_ok_def by blast
  moreover have "distinct (map fst m)" using assms(1) by (simp add: slots_ok_def ordered_distinct)
  ultimately show thesis using that [of se] se chunk_key_inj [OF assms(2)] assms(3,4)
    by (metis map_of_is_SomeI subset_iff)
qed

lemma slots_ok_missing:
  assumes "slots_ok h e Ps S m" and "packets_ok e Ps" and "S \<subseteq> chunk_ids Ps"
    and "(i, j) \<in> chunk_ids Ps" and "(i, j) \<notin> S"
  shows "map_of m (chunk_key e i j) = None"
proof (rule ccontr)
  assume "map_of m (chunk_key e i j) \<noteq> None"
  then obtain se where "(chunk_key e i j, se) \<in> set m" by (auto dest: map_of_SomeD)
  then obtain a b where "(a, b) \<in> S" "chunk_key e i j = chunk_key e a b"
    using assms(1) unfolding slots_ok_def by blast
  then show False using chunk_key_inj [OF assms(2,4)] assms(3,5) by blast
qed

lemma slots_ok_insert:
  assumes "slots_ok h e Ps S m" and "packets_ok e Ps" and "S \<subseteq> chunk_ids Ps"
    and "(i, j) \<in> chunk_ids Ps" and "(i, j) \<notin> S" and "se_data se \<notin> set (slot_ptrs m)"
    and "slot_ok h' Ps i j se" and "\<And>p. p \<in> set (slot_ptrs m) \<Longrightarrow> h' p = h p"
  shows "slots_ok h' e Ps (insert (i, j) S) (map_insert (chunk_key e i j) se m)"
proof -
  have ord: "ordered m" using assms(1) by (simp add: slots_ok_def)
  have new: "\<forall>x \<in> set m. fst x \<noteq> chunk_key e i j"
    using slots_ok_missing [OF assms(1-5)] by (force simp: map_of_eq_None_iff)
  then have set: "set (map_insert (chunk_key e i j) se m) = insert (chunk_key e i j, se) (set m)"
    using set_map_insert [OF ord] by auto
  have perm: "mset (map_insert k v m) = add_mset (k, v) (mset m)" if "\<forall>x \<in> set m. fst x \<noteq> k" for k v
    and m :: "(u64 \<times> SlotEntry) list"
    using that by (induction k v m rule: map_insert.induct) auto
  have "mset (slot_ptrs (map_insert (chunk_key e i j) se m)) = add_mset (se_data se) (mset (slot_ptrs m))"
    using perm [OF new] by (simp add: slot_ptrs_def)
  then have "distinct (slot_ptrs (map_insert (chunk_key e i j) se m))"
    using assms(1,6) by (metis distinct.simps(2) mset.simps(2) mset_eq_imp_distinct_iff slots_ok_def)
  moreover have "\<exists>a b. (a, b) \<in> insert (i, j) S \<and> k = chunk_key e a b \<and> slot_ok h' Ps a b x"
    if kx: "(k, x) \<in> set m" for k x
  proof -
    obtain a b where ab: "(a, b) \<in> S" "k = chunk_key e a b" "slot_ok h Ps a b x"
      using assms(1) kx unfolding slots_ok_def by blast
    have "se_data x \<in> set (slot_ptrs m)" using that by (force simp: slot_ptrs_def)
    then have "slot_ok h' Ps a b x" using ab(3) assms(8) by (simp add: slot_ok_def)
    then show ?thesis using ab by blast
  qed
  ultimately show ?thesis
    using assms(1,7) ordered_map_insert [OF ord, of "chunk_key e i j" se]
    unfolding slots_ok_def set insert_iff by (simp add: prod_eq_iff) blast
qed

lemma slots_ok_filter:
  assumes "slots_ok h e Ps S m" and "packets_ok e Ps" and "S \<subseteq> chunk_ids Ps" and "S' \<subseteq> S"
    and "\<And>i j. (i, j) \<in> S \<Longrightarrow> P (chunk_key e i j) \<longleftrightarrow> (i, j) \<in> S'"
    and "\<And>p. p \<in> set (slot_ptrs (filter (\<lambda>x. P (fst x)) m)) \<Longrightarrow> h' p = h p"
  shows "slots_ok h' e Ps S' (filter (\<lambda>x. P (fst x)) m)"
proof -
  let ?m = "filter (\<lambda>x. P (fst x)) m"
  have "distinct (slot_ptrs m)" "ordered m" using assms(1) by (simp_all add: slots_ok_def)
  then have d: "distinct (slot_ptrs ?m)" "ordered ?m"
    by (simp_all add: slot_ptrs_def distinct_map_filter ordered_filter)
  have "\<exists>i j. (i, j) \<in> S' \<and> k = chunk_key e i j \<and> slot_ok h' Ps i j se" if kx: "(k, se) \<in> set ?m" for k se
  proof -
    obtain i j where ij: "(i, j) \<in> S" "k = chunk_key e i j" "slot_ok h Ps i j se"
      using assms(1) filter_is_subset [THEN subsetD, OF kx] unfolding slots_ok_def by blast
    then have "(i, j) \<in> S'" using assms(5) [OF ij(1)] that by auto
    moreover have "slot_ok h' Ps i j se"
      using assms(6) [of "se_data se"] that ij(3) by (force simp: slot_ok_def slot_ptrs_def)
    ultimately show ?thesis using ij(2) by blast
  qed
  moreover have "\<exists>se. (chunk_key e i j, se) \<in> set ?m" if "(i, j) \<in> S'" for i j
  proof -
    have S: "(i, j) \<in> S" using that assms(4) by blast
    then obtain se where "(chunk_key e i j, se) \<in> set m" using assms(1) unfolding slots_ok_def by blast
    then show ?thesis using assms(5) [OF S] that by auto
  qed
  ultimately show ?thesis using d unfolding slots_ok_def by blast
qed

lemma flush_range:
  assumes "slots_ok h e Ps S m" and "packets_ok e Ps" and "S \<subseteq> chunk_ids Ps"
    and all: "\<forall>b \<le> j. (i, b) \<in> S"
  shows "list_all2 (\<lambda>x b. fst x = chunk_key e i b \<and> slot_ok h Ps i b (snd x))
           (map_range (chunk_key e i 0) (chunk_key e i j) m) [0..<Suc j]"
proof -
  let ?es = "map_range (chunk_key e i 0) (chunk_key e i j) m"
  have ord: "ordered m" using assms(1) by (simp add: slots_ok_def)
  have es: "?es = filter (\<lambda>x. chunk_key e i 0 \<le> fst x \<and> fst x \<le> chunk_key e i j) m"
    by (rule map_range_filter [OF ord])
  have ids: "(i, b) \<in> chunk_ids Ps" if "b \<le> j" for b using all assms(3) that by blast
  have "set (map fst ?es) = chunk_key e i ` {0..<Suc j}"
  proof
    show "set (map fst ?es) \<subseteq> chunk_key e i ` {0..<Suc j}"
    proof
      fix k assume "k \<in> set (map fst ?es)"
      then obtain se where se: "(k, se) \<in> set m" "chunk_key e i 0 \<le> k" "k \<le> chunk_key e i j"
        unfolding es by auto
      then obtain a b where ab: "(a, b) \<in> S" "k = chunk_key e a b"
        using assms(1) unfolding slots_ok_def by blast
      then have "(a, b) \<in> chunk_ids Ps" using assms(3) by blast
      then have "a = i \<and> b \<le> j"
        using se(2,3) ab(2) chunk_key_le [OF assms(2)] ids [of 0] ids [of j]
        by (metis le_refl linorder_neqE_nat not_less_iff_gr_or_eq zero_le)
      then show "k \<in> chunk_key e i ` {0..<Suc j}" using ab(2) by auto
    qed
    show "chunk_key e i ` {0..<Suc j} \<subseteq> set (map fst ?es)"
    proof
      fix k assume "k \<in> chunk_key e i ` {0..<Suc j}"
      then obtain b where b: "b \<le> j" "k = chunk_key e i b"
        by (metis atLeastLessThan_iff image_iff less_Suc_eq_le)
      then obtain se where "(k, se) \<in> set m" using assms(1) all unfolding slots_ok_def by blast
      moreover have "chunk_key e i 0 \<le> k" "k \<le> chunk_key e i j"
        using b chunk_key_le [OF assms(2)] ids by auto
      ultimately show "k \<in> set (map fst ?es)" unfolding es by force
    qed
  qed
  moreover have "sorted_wrt (<) (map fst ?es)" unfolding es using ord by (rule ordered_filter)
  moreover have "sorted_wrt (<) (map (chunk_key e i) [0..<Suc j])"
  proof (clarsimp simp: sorted_wrt_map sorted_wrt_iff_nth_less simp del: upt_Suc)
    fix a b assume "a < b" "b < Suc j"
    then show "chunk_key e i a < chunk_key e i b"
      using chunk_key_le [OF assms(2) ids [of b] ids [of a]] by (simp add: not_le [symmetric])
  qed
  ultimately have keys: "map fst ?es = map (chunk_key e i) [0..<Suc j]"
    by (intro strict_sorted_equal) (simp_all del: upt_Suc)
  have len: "length ?es = length [0..<Suc j]" using arg_cong [OF keys, of length] by simp
  have "slot_ok h Ps i b (snd x)" if x: "x \<in> set ?es" "fst x = chunk_key e i b" "b \<le> j" for x b
  proof -
    have "x \<in> set m" using x(1) es by simp
    then obtain a c where ac: "(a, c) \<in> S" "fst x = chunk_key e a c" "slot_ok h Ps a c (snd x)"
      using assms(1) unfolding slots_ok_def by (metis prod.collapse)
    then have "a = i \<and> c = b" using x chunk_key_inj [OF assms(2)] ids assms(3) by (metis subsetD)
    then show ?thesis using ac(3) by simp
  qed
  moreover have "fst (?es ! n) = chunk_key e i ([0..<Suc j] ! n)" if "n < length ?es" for n
    using arg_cong [OF keys, of "\<lambda>l. l ! n"] that len by (simp del: upt_Suc)
  ultimately show ?thesis
    using len by (auto simp: list_all2_conv_all_nth simp del: upt_Suc)
qed

context module_env
begin

lemma flush_chunks_ok:
  "wf w \<Longrightarrow> list_all2 (\<lambda>x c. heap w (se_data (snd x)) = Some c \<and> se_size (snd x) = length c) es cs \<Longrightarrow>
   distinct (slot_ptrs es) \<Longrightarrow> q \<notin> set (slot_ptrs es) \<Longrightarrow> heap w q = Some b \<Longrightarrow>
   off + length (concat cs) \<le> length b \<Longrightarrow>
   \<exists>w'. flush_chunks A q off es w = Some w' \<and> wf w' \<and> trace w' = trace w
     \<and> heap w' = (\<lambda>x. if x \<in> set (slot_ptrs es) then None
                      else if x = q then Some (patch off (concat cs) b) else heap w x)"
proof (induction es arbitrary: off w cs b)
  case Nil
  then show ?case by (auto simp: patch_def fun_eq_iff)
next
  case (Cons x es)
  obtain k se where x: "x = (k, se)" by (cases x)
  from Cons.prems(2) obtain c cs' where cs: "cs = c # cs'"
      "heap w (se_data se) = Some c" "se_size se = length c"
      "list_all2 (\<lambda>x c. heap w (se_data (snd x)) = Some c \<and> se_size (snd x) = length c) es cs'"
    by (auto simp: x list_all2_Cons1)
  obtain w1 where w1: "mc_store A q off c w = Some w1" "wf w1" "trace w1 = trace w"
      "heap w1 = (heap w)(q \<mapsto> patch off c b)"
    using store_ok [OF Cons.prems(1,5), of off c] Cons.prems(6) by (auto simp: cs(1))
  have pq: "se_data se \<noteq> q" using Cons.prems(4) by (simp add: x)
  then obtain w2 where w2: "mc_free A (se_data se) w1 = Some w2" "wf w2" "trace w2 = trace w1"
      "heap w2 = (heap w1)(se_data se := None)"
    using free_ok [of w1 "se_data se" c] w1 cs(2) by auto
  have pe: "se_data se \<notin> set (slot_ptrs es)" using Cons.prems(3) by (simp add: x)
  have "list_all2 (\<lambda>x c. heap w2 (se_data (snd x)) = Some c \<and> se_size (snd x) = length c) es cs'"
    using cs(4)
  proof (rule list.rel_mono_strong)
    fix y d assume "y \<in> set es" "heap w (se_data (snd y)) = Some d \<and> se_size (snd y) = length d"
    moreover have "se_data (snd y) \<in> set (slot_ptrs es)" using \<open>y \<in> set es\<close> by (rule slot_ptrs_mem)
    then have "se_data (snd y) \<noteq> se_data se" "se_data (snd y) \<noteq> q"
      using pe Cons.prems(4) by (auto simp: x)
    ultimately show "heap w2 (se_data (snd y)) = Some d \<and> se_size (snd y) = length d"
      by (simp add: w2(4) w1(4))
  qed
  moreover have "heap w2 q = Some (patch off c b)" using pq by (simp add: w2(4) w1(4))
  ultimately obtain w' where w': "flush_chunks A q (off + length c) es w2 = Some w'" "wf w'"
      "trace w' = trace w2"
      "heap w' = (\<lambda>x. if x \<in> set (slot_ptrs es) then None
         else if x = q then Some (patch (off + length c) (concat cs') (patch off c b)) else heap w2 x)"
    using Cons.IH [of w2 cs' "patch off c b" "off + length c"] w2(2) Cons.prems(3,4,6)
    by (auto simp: x cs(1))
  have "patch (off + length c) (concat cs') (patch off c b) = patch off (concat cs) b"
    using Cons.prems(6) by (simp add: patch_patch cs(1) add.assoc)
  then show ?case
    using w1 w2 w' load_ok [OF Cons.prems(1) cs(2)] cs(1,3) pq
    by (auto simp: x fun_eq_iff)
qed

end

text \<open>
  The state of the merge is a function of the set \<open>R\<close> of chunks received so far: all packets before
  number \<open>i\<close> are complete and delivered, the first \<open>j\<close> chunks of packet \<open>i\<close> are there, and the
  slots hold exactly the received chunks of the packets from \<open>i\<close> on.  \<open>H\<close> is the rest of the heap.
\<close>

definition merge_pos :: "bytes list list \<Rightarrow> (nat \<times> nat) set \<Rightarrow> nat \<Rightarrow> nat \<Rightarrow> bool" where
  "merge_pos Ps R i j \<longleftrightarrow> i \<le> length Ps \<and> (if i < length Ps then j < length (Ps ! i) else j = 0)
     \<and> R \<subseteq> chunk_ids Ps \<and> (\<forall>a b. (a, b) \<in> chunk_ids Ps \<longrightarrow> a < i \<or> a = i \<and> b < j \<longrightarrow> (a, b) \<in> R)"

definition slots_frame :: "(ptr \<rightharpoonup> bytes) \<Rightarrow> (ptr \<rightharpoonup> bytes) \<Rightarrow> (u64 \<times> SlotEntry) list \<Rightarrow> bool" where
  "slots_frame h H m \<longleftrightarrow> (\<forall>x. if x \<in> set (slot_ptrs m) then H x = None else h x = H x)"

lemma slots_frame_at:
  "slots_frame h H m \<Longrightarrow> if x \<in> set (slot_ptrs m) then H x = None else h x = H x"
  by (simp add: slots_frame_def)

lemma slots_ok_cong:
  assumes "slots_ok h e Ps S m" and "packets_ok e Ps" and "S \<subseteq> chunk_ids Ps"
    and "\<And>p. p \<in> set (slot_ptrs m) \<Longrightarrow> h' p = h p"
  shows "slots_ok h' e Ps S m"
  using slots_ok_filter [OF assms(1-3) order_refl, of "\<lambda>_. True" h'] assms(4) by simp

definition merge_rep :: "(ptr \<rightharpoonup> bytes) \<Rightarrow> (ptr \<rightharpoonup> bytes) \<Rightarrow> nat \<Rightarrow> bytes list list
    \<Rightarrow> (nat \<times> nat) set \<Rightarrow> nat \<Rightarrow> nat \<Rightarrow> SplitContext \<Rightarrow> bool" where
  "merge_rep h H e Ps R i j ctx \<longleftrightarrow> exp_pkt ctx = of_nat (e + i) \<and> exp_chunk ctx = of_nat j
     \<and> merge_pos Ps R i j \<and> slots_ok h e Ps {c \<in> R. i \<le> fst c} (pending ctx)
     \<and> slots_frame h H (pending ctx)"

lemma merge_pos_more:
  "merge_pos Ps R i j \<Longrightarrow> (i, j) \<in> R \<Longrightarrow> Suc j < length (Ps ! i) \<Longrightarrow> merge_pos Ps R i (Suc j)"
  by (auto simp: merge_pos_def less_Suc_eq chunk_ids_def)

lemma merge_pos_flush:
  assumes "merge_pos Ps R i j" and "(i, j) \<in> R" and "\<not> Suc j < length (Ps ! i)" and "packets_ok e Ps"
  shows "merge_pos Ps R (Suc i) 0 \<and> length (Ps ! i) = Suc j \<and> i < length Ps"
proof -
  have ij: "i < length Ps" "j < length (Ps ! i)" using assms(1,2) by (auto simp: merge_pos_def chunk_ids_def)
  have "0 < length (Ps ! Suc i)" if "Suc i < length Ps"
    using that assms(4) nth_mem [OF that] by (simp add: packets_ok_def)
  moreover have "length (Ps ! i) = Suc j" using ij assms(3) by linarith
  moreover have "(a, b) \<in> R" if "(a, b) \<in> chunk_ids Ps" "a < Suc i" for a b
  proof (cases "a = i \<and> b = j")
    case False
    then have "a < i \<or> a = i \<and> b < j" using that ij assms(3) by (auto simp: chunk_ids_def less_Suc_eq)
    then show ?thesis using that(1) assms(1) unfolding merge_pos_def by blast
  qed (use assms(2) in simp)
  ultimately show ?thesis using assms(1) ij unfolding merge_pos_def by simp
qed

lemma merge_rep_lookup:
  assumes "merge_rep h H e Ps R i j ctx" and "packets_ok e Ps"
  shows "if (i, j) \<in> R
    then \<exists>se. map_of (pending ctx) (slot_key (exp_pkt ctx) (exp_chunk ctx)) = Some se \<and> slot_ok h Ps i j se
    else map_of (pending ctx) (slot_key (exp_pkt ctx) (exp_chunk ctx)) = None"
proof -
  have key: "slot_key (exp_pkt ctx) (exp_chunk ctx) = chunk_key e i j"
    using assms(1) by (simp add: merge_rep_def chunk_key_def)
  have s: "slots_ok h e Ps {c \<in> R. i \<le> fst c} (pending ctx)" "merge_pos Ps R i j"
    using assms(1) by (simp_all add: merge_rep_def)
  then have sub: "{c \<in> R. i \<le> fst c} \<subseteq> chunk_ids Ps" by (auto simp: merge_pos_def)
  show ?thesis
  proof (cases "(i, j) \<in> R")
    case True
    then show ?thesis using slots_ok_lookup [OF s(1) assms(2) sub, of i j] key by auto
  next
    case False
    have "map_of (pending ctx) (chunk_key e i j) = None"
    proof (cases "i < length Ps")
      case True
      then show ?thesis using False s(2) slots_ok_missing [OF s(1) assms(2) sub, of i j]
        by (auto simp: merge_pos_def chunk_ids_def)
    next
      case F: False
      then have "{c \<in> R. i \<le> fst c} = {}" using s(2) by (auto simp: merge_pos_def chunk_ids_def)
      then have "pending ctx = []" using s(1) unfolding slots_ok_def by (cases "pending ctx") force+
      then show ?thesis by simp
    qed
    then show ?thesis using False key by simp
  qed
qed

lemma merge_rep_more:
  assumes "merge_rep h H e Ps R i j ctx" and "(i, j) \<in> R" and "Suc j < length (Ps ! i)"
  shows "merge_rep h H e Ps R i (Suc j) (ctx\<lparr>exp_chunk := exp_chunk ctx + 1\<rparr>)"
  using assms merge_pos_more [of Ps R i j] by (simp add: merge_rep_def add.commute)

lemma slot_ptrs_filter:
  "set (slot_ptrs m) = set (slot_ptrs (filter P m)) \<union> set (slot_ptrs (filter (\<lambda>x. \<not> P x) m))"
proof -
  have "set m = set (filter P m) \<union> set (filter (\<lambda>x. \<not> P x) m)" by auto
  then show ?thesis unfolding slot_ptrs_def set_map by (metis image_Un)
qed

lemma slot_ptrs_disjoint:
  assumes "distinct (slot_ptrs m)" and "x \<in> set (slot_ptrs (filter (\<lambda>x. \<not> P x) m))"
  shows "x \<notin> set (slot_ptrs (filter P m))"
proof
  assume "x \<in> set (slot_ptrs (filter P m))"
  then obtain a where a: "a \<in> set m" "P a" "x = se_data (snd a)" by (auto simp: slot_ptrs_def)
  obtain b where b: "b \<in> set m" "\<not> P b" "x = se_data (snd b)" using assms(2) by (auto simp: slot_ptrs_def)
  have "inj_on (\<lambda>e. se_data (snd e)) (set m)" using assms(1) by (simp add: slot_ptrs_def distinct_map)
  then have "a = b" using a b by (simp add: inj_on_def)
  then show False using a b by simp
qed

lemma slots_ok_owned: "slots_ok h e Ps S m \<Longrightarrow> x \<in> set (slot_ptrs m) \<Longrightarrow> h x \<noteq> None"
proof -
  assume s: "slots_ok h e Ps S m" and "x \<in> set (slot_ptrs m)"
  then obtain k se where "(k, se) \<in> set m" "x = se_data se" by (auto simp: slot_ptrs_def)
  then obtain i j where "slot_ok h Ps i j se" using s unfolding slots_ok_def by blast
  then show "h x \<noteq> None" using \<open>x = se_data se\<close> by (simp add: slot_ok_def)
qed

context module_env
begin

lemma merge_flush_ok:
  assumes "wf w" and "merge_rep (heap w) H e Ps R i j ctx" and "packets_ok e Ps" and "(i, j) \<in> R"
    and "\<not> Suc j < length (Ps ! i)" and "0 \<in> ports"
    and es: "es = map_range (push_bit 16 (ucast (exp_pkt ctx))) (slot_key (exp_pkt ctx) (exp_chunk ctx)) (pending ctx)"
    and totd: "n0 = sum_list (map (\<lambda>x. se_size (snd x)) es)"
  shows "\<exists>q w1 w2 r w3. mc_malloc A n0 w = (Some q, w1) \<and> flush_chunks A q 0 es w1 = Some w2
    \<and> mc_write_packet A 0 q n0 w2 = Some (r, w3) \<and> wf w3
    \<and> trace w3 = trace w @ [obs 0 (concat (Ps ! i))]
    \<and> merge_rep (heap w3) H e Ps R (Suc i) 0
         (ctx\<lparr>pending := filter (\<lambda>x. x \<notin> set es) (pending ctx), packets_flushed := n,
              exp_pkt := exp_pkt ctx + 1, exp_chunk := 0\<rparr>)"
proof -
  let ?m = "pending ctx" and ?S = "{c \<in> R. i \<le> fst c}" and ?S' = "{c \<in> R. Suc i \<le> fst c}"
  have rep: "slots_ok (heap w) e Ps ?S ?m" "merge_pos Ps R i j" "exp_pkt ctx = of_nat (e + i)"
      "exp_chunk ctx = of_nat j"
      "\<And>x. if x \<in> set (slot_ptrs ?m) then H x = None else heap w x = H x"
    using assms(2) unfolding merge_rep_def slots_frame_def by simp_all
  have ord: "ordered ?m" and dis: "distinct (slot_ptrs ?m)" using rep(1) by (simp_all add: slots_ok_def)
  have sub: "?S \<subseteq> chunk_ids Ps" using rep(2) by (auto simp: merge_pos_def)
  have pos: "merge_pos Ps R (Suc i) 0" "length (Ps ! i) = Suc j" "i < length Ps"
    using merge_pos_flush [OF rep(2) assms(4,5,3)] by simp_all
  have es2: "es = map_range (chunk_key e i 0) (chunk_key e i j) ?m"
    unfolding es rep(3,4) chunk_key_def slot_key_0 [symmetric] by simp
  have ids: "(i, b) \<in> R" if "b \<le> j" for b
  proof (cases "b = j")
    case False
    then have "b < j" "(i, b) \<in> chunk_ids Ps" using that pos(2,3) by (simp_all add: chunk_ids_def)
    then show ?thesis using rep(2) unfolding merge_pos_def by blast
  qed (use assms(4) in simp)
  then have la: "list_all2 (\<lambda>x b. fst x = chunk_key e i b \<and> slot_ok (heap w) Ps i b (snd x)) es [0..<Suc j]"
    unfolding es2 by (intro flush_range [OF rep(1) assms(3) sub]) auto
  have esf: "es = filter (\<lambda>x. chunk_key e i 0 \<le> fst x \<and> fst x \<le> chunk_key e i j) ?m"
    unfolding es2 by (rule map_range_filter [OF ord])
  have sube: "set (slot_ptrs es) \<subseteq> set (slot_ptrs ?m)" unfolding esf by (auto simp: slot_ptrs_def)
  have chunks: "list_all2 (\<lambda>x c. heap w (se_data (snd x)) = Some c \<and> se_size (snd x) = length c) es (Ps ! i)"
    using la pos(2) by (auto simp: list_all2_conv_all_nth slot_ok_def simp del: upt_Suc)
  have "map (\<lambda>x. se_size (snd x)) es = map length (Ps ! i)"
    using chunks by (auto simp: list_all2_conv_all_nth intro!: nth_equalityI)
  then have n0_eq: "n0 = length (concat (Ps ! i))" by (simp add: totd length_concat)
  obtain q w1 b where w1: "mc_malloc A n0 w = (Some q, w1)" "wf w1" "heap w q = None"
      "length b = n0" "heap w1 = (heap w)(q \<mapsto> b)" "trace w1 = trace w"
    using malloc_ok [OF assms(1)] by blast
  note own = slots_ok_owned [OF rep(1)]
  have q: "q \<notin> set (slot_ptrs ?m)" using w1(3) own by blast
  have ch1: "list_all2 (\<lambda>x c. heap w1 (se_data (snd x)) = Some c \<and> se_size (snd x) = length c) es (Ps ! i)"
    using chunks
  proof (rule list.rel_mono_strong)
    fix x c assume "x \<in> set es" "heap w (se_data (snd x)) = Some c \<and> se_size (snd x) = length c"
    then show "heap w1 (se_data (snd x)) = Some c \<and> se_size (snd x) = length c" using w1(3,5) by auto
  qed
  have dise: "distinct (slot_ptrs es)" using dis unfolding esf by (simp add: slot_ptrs_def distinct_map_filter)
  obtain w2 where w2: "flush_chunks A q 0 es w1 = Some w2" "wf w2" "trace w2 = trace w1"
      "heap w2 = (\<lambda>x. if x \<in> set (slot_ptrs es) then None
         else if x = q then Some (patch 0 (concat (Ps ! i)) b) else heap w1 x)"
    using flush_chunks_ok [OF w1(2) ch1 dise, of q b 0] q sube w1(4,5) n0_eq by auto
  have "heap w2 q = Some (concat (Ps ! i))" using w2(4) q sube w1(4) n0_eq by (auto simp: patch_full)
  then obtain r w3 where w3: "mc_write_packet A 0 q n0 w2 = Some (r, w3)" "wf w3"
      "heap w3 = (heap w2)(q := None)" "trace w3 = trace w2 @ [obs 0 (concat (Ps ! i))]"
    using write_ok [OF w2(2) _ assms(6)] n0_eq by metis
  let ?P = "\<lambda>k. chunk_key e i 0 \<le> k \<and> k \<le> chunk_key e i j"
  let ?m' = "filter (\<lambda>x. x \<notin> set es) ?m"
  have m': "?m' = filter (\<lambda>x. \<not> ?P (fst x)) ?m"
    unfolding esf by (intro filter_cong) auto
  have un: "set (slot_ptrs ?m) = set (slot_ptrs es) \<union> set (slot_ptrs ?m')"
    unfolding m' unfolding esf by (rule slot_ptrs_filter)
  have hp: "heap w3 x = heap w x" if "x \<in> set (slot_ptrs ?m')" for x
  proof -
    have "x \<notin> set (slot_ptrs es)"
      using slot_ptrs_disjoint [OF dis that [unfolded m']] unfolding esf .
    moreover have "x \<noteq> q" using that un q by blast
    ultimately show ?thesis by (simp add: w3(3) w2(4) w1(5))
  qed
  have "slots_ok (heap w3) e Ps ?S' ?m'"
    unfolding m'
  proof (rule slots_ok_filter [OF rep(1) assms(3) sub])
    fix a b assume ab: "(a, b) \<in> ?S"
    then have c: "(a, b) \<in> chunk_ids Ps" using sub by blast
    have o: "(i, 0) \<in> chunk_ids Ps" "(i, j) \<in> chunk_ids Ps" using pos(2,3) by (simp_all add: chunk_ids_def)
    have "b \<le> j" if "a = i" using c pos(2) that by (simp add: chunk_ids_def)
    then show "(\<not> ?P (chunk_key e a b)) = ((a, b) \<in> ?S')"
      using ab unfolding chunk_key_le [OF assms(3) o(1) c] chunk_key_le [OF assms(3) c o(2)] by auto
  qed (use hp m' in auto)
  moreover have "if x \<in> set (slot_ptrs ?m') then H x = None else heap w3 x = H x" for x
    using rep(5) [of x] un q w1(3) by (auto simp: w3(3) w2(4) w1(5))
  ultimately show ?thesis
    using w1(1) w2(1) w3(1,2) w1(6) w2(3) w3(4) pos(1) rep(3)
    by (auto simp: merge_rep_def slots_frame_def add.commute)
qed

end

lemma slots_free_other:
  assumes "slots_ok h e Ps S m" and fr: "slots_frame h H m" and "packets_ok e Ps" and "S \<subseteq> chunk_ids Ps"
    and "H p = Some d"
  shows "slots_ok (h(p := None)) e Ps S m \<and> slots_frame (h(p := None)) (H(p := None)) m"
proof -
  have p: "p \<notin> set (slot_ptrs m)" using slots_frame_at [OF fr, of p] assms(5) by auto
  then have "slots_ok (h(p := None)) e Ps S m" by (intro slots_ok_cong [OF assms(1,3,4)]) auto
  moreover have "slots_frame (h(p := None)) (H(p := None)) m"
    using fr p unfolding slots_frame_def by simp
  ultimately show ?thesis by simp
qed

lemma filter_fst_eq:
  "distinct (map fst m) \<Longrightarrow> (k, v) \<in> set m \<Longrightarrow> filter (\<lambda>x. fst x = k) m = [(k, v)]"
proof (induction m)
  case (Cons x m)
  show ?case
  proof (cases "fst x = k")
    case True
    then have none: "k \<notin> fst ` set m" using Cons.prems(1) by auto
    then have "(k, v) \<notin> set m" by force
    then have "x = (k, v)" using Cons.prems(2) by simp
    moreover have "filter (\<lambda>x. fst x = k) m = []" using none by (auto simp: filter_empty_conv)
    ultimately show ?thesis by simp
  qed (use Cons in auto)
qed simp

lemma slots_insert:
  assumes s: "slots_ok h e Ps S m" and fr: "slots_frame h H m" and ok: "packets_ok e Ps"
    and sub: "S \<subseteq> chunk_ids Ps" and c: "(a, b) \<in> chunk_ids Ps" and new: "(a, b) \<notin> S"
    and se: "slot_ok h' Ps a b se" and fresh: "h (se_data se) = None"
    and h': "\<And>x. x \<noteq> se_data se \<Longrightarrow> h' x = h x"
  shows "slots_ok h' e Ps (insert (a, b) S) (map_insert (chunk_key e a b) se m)
    \<and> slots_frame h' H (map_insert (chunk_key e a b) se m)"
proof -
  have nin: "se_data se \<notin> set (slot_ptrs m)" using slots_ok_owned [OF s] fresh by blast
  have "slots_ok h' e Ps (insert (a, b) S) (map_insert (chunk_key e a b) se m)"
  proof (rule slots_ok_insert [OF s ok sub c _ nin se])
    show "h' p = h p" if "p \<in> set (slot_ptrs m)" for p using that nin h' by metis
  qed (use new in simp)
  moreover have ptrs: "set (slot_ptrs (map_insert (chunk_key e a b) se m)) = insert (se_data se) (set (slot_ptrs m))"
  proof -
    have ord: "ordered m" using s by (simp add: slots_ok_def)
    have "\<forall>x \<in> set m. fst x \<noteq> chunk_key e a b"
      using slots_ok_missing [OF s ok sub c] new by (force simp: map_of_eq_None_iff)
    then have "{x \<in> set m. fst x \<noteq> chunk_key e a b} = set m" by auto
    then show ?thesis using set_map_insert [OF ord, of "chunk_key e a b" se] by (simp add: slot_ptrs_def)
  qed
  moreover have "if x \<in> insert (se_data se) (set (slot_ptrs m)) then H x = None else h' x = H x" for x
    using slots_frame_at [OF fr, of x] nin fresh h' [of x] by (cases "x = se_data se") auto
  ultimately show ?thesis unfolding slots_frame_def by simp
qed

lemma slots_drop:
  assumes s: "slots_ok h e Ps S m" and fr: "slots_frame h H m" and ok: "packets_ok e Ps"
    and sub: "S \<subseteq> chunk_ids Ps" and c: "(a, b) \<in> chunk_ids Ps"
    and se: "map_of m (chunk_key e a b) = Some se"
    and h': "h' = h(se_data se := None)"
  shows "slots_ok h' e Ps (S - {(a, b)}) (map_erase (chunk_key e a b) m)
    \<and> slots_frame h' H (map_erase (chunk_key e a b) m)"
proof -
  let ?P = "\<lambda>k. k \<noteq> chunk_key e a b"
  have ord: "ordered m" and dis: "distinct (slot_ptrs m)" using s by (simp_all add: slots_ok_def)
  have k: "(chunk_key e a b, se) \<in> set m" using se by (rule map_of_SomeD)
  have only: "filter (\<lambda>x. \<not> ?P (fst x)) m = [(chunk_key e a b, se)]"
    using filter_fst_eq [OF ordered_distinct [OF ord] k] by simp
  have ptrs: "set (slot_ptrs m) = insert (se_data se) (set (slot_ptrs (filter (\<lambda>x. ?P (fst x)) m)))"
    using slot_ptrs_filter [of m "\<lambda>x. \<not> ?P (fst x)"] only by simp
  have nin: "se_data se \<notin> set (slot_ptrs (filter (\<lambda>x. ?P (fst x)) m))"
    using slot_ptrs_disjoint [OF dis, of _ "\<lambda>x. ?P (fst x)"] only by auto
  have "slots_ok h' e Ps (S - {(a, b)}) (filter (\<lambda>x. ?P (fst x)) m)"
  proof (rule slots_ok_filter [OF s ok sub])
    fix x y assume "(x, y) \<in> S"
    then show "?P (chunk_key e x y) = ((x, y) \<in> S - {(a, b)})"
      using chunk_key_inj [OF ok, of x y a b] sub c by auto
  qed (use h' nin in auto)
  moreover have "if x \<in> set (slot_ptrs (filter (\<lambda>x. ?P (fst x)) m)) then H x = None else h' x = H x" for x
    using slots_frame_at [OF fr, of x] ptrs nin h' by (cases "x = se_data se") auto
  ultimately show ?thesis unfolding map_erase_def slots_frame_def by simp
qed

context module_env
begin

lemma merge_loop_ok:
  assumes "wf w" and "merge_rep (heap w) H e Ps R i j ctx" and "packets_ok e Ps" and "0 \<in> ports"
  shows "\<exists>i' j' ctx' w'. merge_loop A ctx w = Some (ctx', w') \<and> wf w'
    \<and> merge_rep (heap w') H e Ps R i' j' ctx' \<and> (i', j') \<notin> R \<and> i \<le> i'
    \<and> trace w' = trace w @ map (\<lambda>p. obs 0 (concat p)) (drop i (take i' Ps))"
  using assms(1,2)
proof (induction "sum_list (map length (drop i Ps)) - j" arbitrary: i j ctx w rule: less_induct)
  case less
  have pos: "merge_pos Ps R i j" using less.prems(2) by (simp add: merge_rep_def)
  note look = merge_rep_lookup [OF less.prems(2) assms(3)]
  show ?case
  proof (cases "(i, j) \<in> R")
    case False
    then have "merge_loop A ctx w = Some (ctx, w)" using look by (subst merge_loop.simps) simp
    then show ?thesis using less.prems False by (intro exI [of _ i] exI [of _ j]) simp
  next
    case True
    then obtain se where se: "map_of (pending ctx) (slot_key (exp_pkt ctx) (exp_chunk ctx)) = Some se"
        "slot_ok (heap w) Ps i j se" using look by auto
    have "i < length Ps" "j < length (Ps ! i)" using True pos by (auto simp: merge_pos_def chunk_ids_def)
    then have meas: "sum_list (map length (drop i Ps)) = length (Ps ! i) + sum_list (map length (drop (Suc i) Ps))"
      by (simp add: Cons_nth_drop_Suc [symmetric])
    show ?thesis
    proof (cases "Suc j < length (Ps ! i)")
      case more: True
      let ?ctx = "ctx\<lparr>exp_chunk := exp_chunk ctx + 1\<rparr>"
      have rep: "merge_rep (heap w) H e Ps R i (Suc j) ?ctx"
        using merge_rep_more [OF less.prems(2) True more] .
      have "se_more se" using se(2) more by (simp add: slot_ok_def)
      then have eq: "merge_loop A ctx w = merge_loop A ?ctx w"
        using se(1) by (subst merge_loop.simps) simp
      have "sum_list (map length (drop i Ps)) - Suc j < sum_list (map length (drop i Ps)) - j"
        using meas more by simp
      then show ?thesis unfolding eq by (rule less.hyps [OF _ less.prems(1) rep])
    next
      case False
      have nm: "\<not> se_more se" using se(2) False by (simp add: slot_ok_def)
      define es where "es = map_range (push_bit 16 (ucast (exp_pkt ctx)))
        (slot_key (exp_pkt ctx) (exp_chunk ctx)) (pending ctx)"
      define n0 where "n0 = sum_list (map (\<lambda>x. se_size (snd x)) es)"
      let ?ctx = "ctx\<lparr>pending := filter (\<lambda>x. x \<notin> set es) (pending ctx),
        packets_flushed := packets_flushed ctx + 1, exp_pkt := exp_pkt ctx + 1, exp_chunk := 0\<rparr>"
      obtain q w1 w2 r w3 where st: "mc_malloc A n0 w = (Some q, w1)" "flush_chunks A q 0 es w1 = Some w2"
          "mc_write_packet A 0 q n0 w2 = Some (r, w3)" "wf w3"
          "trace w3 = trace w @ [obs 0 (concat (Ps ! i))]" "merge_rep (heap w3) H e Ps R (Suc i) 0 ?ctx"
        using merge_flush_ok [OF less.prems assms(3) True False assms(4) es_def n0_def] by blast
      have eq: "merge_loop A ctx w = merge_loop A ?ctx w3"
        using se(1) nm st(1-3) by (subst merge_loop.simps) (simp add: es_def [symmetric] n0_def [symmetric])
      have "sum_list (map length (drop (Suc i) Ps)) - 0 < sum_list (map length (drop i Ps)) - j"
        using meas \<open>j < length (Ps ! i)\<close> by simp
      from less.hyps [OF this st(4,6)] obtain i' j' ctx' w' where
        r: "merge_loop A ?ctx w3 = Some (ctx', w')" "wf w'" "merge_rep (heap w') H e Ps R i' j' ctx'"
          "(i', j') \<notin> R" "Suc i \<le> i'"
          "trace w' = trace w3 @ map (\<lambda>p. obs 0 (concat p)) (drop (Suc i) (take i' Ps))" by blast
      have "drop i (take i' Ps) = Ps ! i # drop (Suc i) (take i' Ps)"
        using r(5) \<open>i < length Ps\<close> by (simp add: Cons_nth_drop_Suc [symmetric])
      then show ?thesis unfolding eq using r st(5) by (intro exI [of _ i'] exI [of _ j']) auto
    qed
  qed
qed

lemma drop_slot_ok:
  assumes "wf w" and "slots_ok (heap w) e Ps S (pending ctx)" and "slots_frame (heap w) H (pending ctx)"
    and "packets_ok e Ps" and "S \<subseteq> chunk_ids Ps" and "(a, b) \<in> chunk_ids Ps"
  shows "\<exists>m w'. drop_slot A (chunk_key e a b) ctx w = Some (ctx\<lparr>pending := m\<rparr>, w') \<and> wf w'
    \<and> trace w' = trace w \<and> slots_ok (heap w') e Ps (S - {(a, b)}) m \<and> slots_frame (heap w') H m"
proof (cases "map_of (pending ctx) (chunk_key e a b)")
  case None
  then have "(a, b) \<notin> S" using slots_ok_lookup [OF assms(2,4,5)] by (metis option.distinct(1))
  then have "S - {(a, b)} = S" by simp
  then show ?thesis using None assms by (intro exI [of _ "pending ctx"] exI [of _ w]) (simp add: drop_slot_def)
next
  case (Some se)
  then have "se_data se \<in> set (slot_ptrs (pending ctx))" using slot_ptrs_mem map_of_SomeD by fastforce
  then obtain d where "heap w (se_data se) = Some d" using slots_ok_owned [OF assms(2)] by blast
  then obtain w' where w': "mc_free A (se_data se) w = Some w'" "wf w'" "trace w' = trace w"
      "heap w' = (heap w)(se_data se := None)" using free_ok [OF assms(1)] by blast
  then show ?thesis
    using Some slots_drop [OF assms(2-6) Some w'(4)]
    by (intro exI [of _ "map_erase (chunk_key e a b) (pending ctx)"] exI [of _ w']) (simp add: drop_slot_def)
qed

lemma process_merge_store:
  assumes "wf w" and rep: "merge_rep (heap w) H e Ps R i j ctx"
    and ok: "packets_ok e Ps" and port: "0 \<in> ports" and c: "(a, b) \<in> chunk_ids Ps" and "i \<le> a"
    and p: "H p = Some d"
  shows "\<exists>m w1 q w2 w3 i' j' ctx' w4 w5. drop_slot A (chunk_key e a b) ctx w = Some (ctx\<lparr>pending := m\<rparr>, w1)
    \<and> mc_malloc A (length (Ps ! a ! b)) w1 = (Some q, w2) \<and> mc_store A q 0 (Ps ! a ! b) w2 = Some w3
    \<and> merge_loop A (ctx\<lparr>pending := map_insert (chunk_key e a b)
          \<lparr>se_data = q, se_size = length (Ps ! a ! b), se_more = Suc b < length (Ps ! a)\<rparr> m,
          chunks_received := n\<rparr>) w3 = Some (ctx', w4)
    \<and> mc_free A p w4 = Some w5 \<and> wf w5
    \<and> merge_rep (heap w5) (H(p := None)) e Ps (insert (a, b) R) i' j' ctx'
    \<and> (i', j') \<notin> insert (a, b) R \<and> i \<le> i'
    \<and> trace w5 = trace w @ map (\<lambda>p. obs 0 (concat p)) (drop i (take i' Ps))"
proof -
  let ?S = "{c \<in> R. i \<le> fst c}" and ?c = "Ps ! a ! b"
  have s: "slots_ok (heap w) e Ps ?S (pending ctx)" "merge_pos Ps R i j"
      "slots_frame (heap w) H (pending ctx)" "exp_pkt ctx = of_nat (e + i)" "exp_chunk ctx = of_nat j"
    using rep by (simp_all add: merge_rep_def)
  have sub: "?S \<subseteq> chunk_ids Ps" using s(2) by (auto simp: merge_pos_def)
  obtain m w1 where w1: "drop_slot A (chunk_key e a b) ctx w = Some (ctx\<lparr>pending := m\<rparr>, w1)" "wf w1"
      "trace w1 = trace w" "slots_ok (heap w1) e Ps (?S - {(a, b)}) m" "slots_frame (heap w1) H m"
    using drop_slot_ok [OF assms(1) s(1,3) ok sub c] by blast
  obtain q w2 w3 where w3: "mc_malloc A (length ?c) w1 = (Some q, w2)" "mc_store A q 0 ?c w2 = Some w3"
      "wf w2" "wf w3" "heap w1 q = None" "heap w3 = (heap w1)(q \<mapsto> ?c)" "trace w3 = trace w1"
    using malloc_fill [OF w1(2), of ?c] by blast
  let ?se = "\<lparr>se_data = q, se_size = length ?c, se_more = Suc b < length (Ps ! a)\<rparr>"
  let ?ctx = "ctx\<lparr>pending := map_insert (chunk_key e a b) ?se m, chunks_received := n\<rparr>"
  have sub1: "?S - {(a, b)} \<subseteq> chunk_ids Ps" using sub by blast
  have "slots_ok (heap w3) e Ps (insert (a, b) (?S - {(a, b)})) (map_insert (chunk_key e a b) ?se m)
      \<and> slots_frame (heap w3) H (map_insert (chunk_key e a b) ?se m)"
    by (rule slots_insert [OF w1(4,5) ok sub1 c]) (use w3(5,6) in \<open>auto simp: slot_ok_def\<close>)
  moreover have "insert (a, b) (?S - {(a, b)}) = {c \<in> insert (a, b) R. i \<le> fst c}" using assms(6) by auto
  moreover have "merge_pos Ps (insert (a, b) R) i j" using s(2) c by (auto simp: merge_pos_def)
  ultimately have rep3: "merge_rep (heap w3) H e Ps (insert (a, b) R) i j ?ctx"
    using s(4,5) by (simp add: merge_rep_def)
  from merge_loop_ok [OF w3(4) rep3 ok port] obtain i' j' ctx' w4 where
    l: "merge_loop A ?ctx w3 = Some (ctx', w4)" "wf w4"
      "merge_rep (heap w4) H e Ps (insert (a, b) R) i' j' ctx'" "(i', j') \<notin> insert (a, b) R" "i \<le> i'"
      "trace w4 = trace w3 @ map (\<lambda>p. obs 0 (concat p)) (drop i (take i' Ps))" by blast
  have l3: "slots_ok (heap w4) e Ps {c \<in> insert (a, b) R. i' \<le> fst c} (pending ctx')"
      "slots_frame (heap w4) H (pending ctx')" "{c \<in> insert (a, b) R. i' \<le> fst c} \<subseteq> chunk_ids Ps"
    using l(3) by (auto simp: merge_rep_def merge_pos_def)
  have "heap w4 p = Some d" using slots_frame_at [OF l3(2), of p] p by (auto split: if_splits)
  then obtain w5 where w5: "mc_free A p w4 = Some w5" "wf w5" "heap w5 = (heap w4)(p := None)"
      "trace w5 = trace w4" using free_ok [OF l(2)] by blast
  have "merge_rep (heap w5) (H(p := None)) e Ps (insert (a, b) R) i' j' ctx'"
    using l(3) slots_free_other [OF l3(1,2) ok l3(3) p] unfolding merge_rep_def w5(3) by blast
  moreover have "trace w5 = trace w @ map (\<lambda>p. obs 0 (concat p)) (drop i (take i' Ps))"
    using w1(3) w3(7) l(6) w5(4) by simp
  ultimately show ?thesis using w1(1) w3(1,2) l(1,4,5) w5(1,2) by blast
qed

lemma process_merge_ok:
  assumes "wf w" and rep: "merge_rep (heap w) H e Ps R i j ctx" and set: "(i, j) \<notin> R"
    and ok: "packets_ok e Ps" and port: "0 \<in> ports" and c: "(a, b) \<in> chunk_ids Ps"
    and win: "a < i + 16384" "i \<le> a + 16384"
    and d: "d = chunk_wire e Ps (a, b)" and p: "H p = Some d"
  shows "\<exists>i' j' ctx' w'. process_merge A ctx t (Some p) (length d) w = Some (0, ctx', w') \<and> wf w'
    \<and> merge_rep (heap w') (H(p := None)) e Ps (insert (a, b) R) i' j' ctx'
    \<and> (i', j') \<notin> insert (a, b) R \<and> i \<le> i'
    \<and> trace w' = trace w @ map (\<lambda>p. obs 0 (concat p)) (drop i (take i' Ps))"
proof -
  have s: "slots_ok (heap w) e Ps {c \<in> R. i \<le> fst c} (pending ctx)" "merge_pos Ps R i j"
      "slots_frame (heap w) H (pending ctx)" "exp_pkt ctx = of_nat (e + i)" "exp_chunk ctx = of_nat j"
    using rep by (simp_all add: merge_rep_def)
  have sub: "{c \<in> R. i \<le> fst c} \<subseteq> chunk_ids Ps" using s(2) by (auto simp: merge_pos_def)
  have hp: "heap w p = Some d" using slots_frame_at [OF s(3), of p] p by (auto split: if_splits)
  have len: "length d = 4 + length (Ps ! a ! b)" "drop 4 d = Ps ! a ! b"
    by (simp_all add: d chunk_wire_def hdr_bytes_def)
  have hdr: "read_hdr d = encode_hdr (of_nat (e + a)) (Suc b < length (Ps ! a)) (of_nat b)"
    by (simp add: d chunk_wire_def read_hdr_bytes)
  have lim: "i \<le> length Ps" "a < length Ps" "e + length Ps + 49152 \<le> 2 ^ 32"
    using s(2) c ok by (simp_all add: merge_pos_def chunk_ids_def packets_ok_def)
  then have u: "unat (of_nat (e + a) :: u32) = e + a" "unat (of_nat (e + i) :: u32) = e + i"
    by (simp_all add: unat_of_nat del: of_nat_add)
  have seq: "seq32 (exp_pkt ctx) (wire_id_of (read_hdr d)) = of_nat (e + a)"
    unfolding hdr wire_id_of_encode s(4) by (rule seq32_window) (use u win lim in linarith)+
  have less: "(of_nat (e + a) :: u32) < exp_pkt ctx \<longleftrightarrow> a < i"
    unfolding s(4) word_less_nat_alt u by simp
  have ld: "mc_load A p w = Some d" by (rule load_ok [OF assms(1) hp])
  show ?thesis
  proof (cases "a < i")
    case True
    have "(a, b) \<in> R" using c s(2) True unfolding merge_pos_def by blast
    then have R: "insert (a, b) R = R" by blast
    obtain w' where w': "mc_free A p w = Some w'" "wf w'" "heap w' = (heap w)(p := None)"
        "trace w' = trace w" using free_ok [OF assms(1) hp] by blast
    have "process_merge A ctx t (Some p) (length d) w
        = Some (0, ctx\<lparr>chunks_lost := chunks_lost ctx + 1\<rparr>, w')"
      using ld seq len less True w'(1) by (simp add: process_merge_def Let_def del: of_nat_add)
    moreover have "merge_rep (heap w') (H(p := None)) e Ps R i j (ctx\<lparr>chunks_lost := chunks_lost ctx + 1\<rparr>)"
      using s slots_free_other [OF s(1,3) ok sub p] by (simp add: merge_rep_def w'(3))
    moreover have "trace w' = trace w @ map (\<lambda>p. obs 0 (concat p)) (drop i (take i Ps))" using w'(4) by simp
    ultimately show ?thesis unfolding R using w'(2) set by blast
  next
    case False
    then have "i \<le> a" by simp
    from process_merge_store [OF assms(1) rep ok port c this p, of "chunks_received ctx + 1"]
    obtain m w1 q w2 w3 i' j' ctx' w4 w5 where
      st: "drop_slot A (chunk_key e a b) ctx w = Some (ctx\<lparr>pending := m\<rparr>, w1)"
        "mc_malloc A (length (Ps ! a ! b)) w1 = (Some q, w2)" "mc_store A q 0 (Ps ! a ! b) w2 = Some w3"
        "merge_loop A (ctx\<lparr>pending := map_insert (chunk_key e a b)
          \<lparr>se_data = q, se_size = length (Ps ! a ! b), se_more = Suc b < length (Ps ! a)\<rparr> m,
          chunks_received := chunks_received ctx + 1\<rparr>) w3 = Some (ctx', w4)"
        "mc_free A p w4 = Some w5" and rest: "wf w5"
        "merge_rep (heap w5) (H(p := None)) e Ps (insert (a, b) R) i' j' ctx'"
        "(i', j') \<notin> insert (a, b) R" "i \<le> i'"
        "trace w5 = trace w @ map (\<lambda>p. obs 0 (concat p)) (drop i (take i' Ps))" by blast
    have "b < 65536" using chunk_bounds [OF ok c] by simp
    then have "ucast (of_nat b :: u16) = (of_nat b :: u32)"
      by (simp add: word_unat_eq_iff unsigned_ucast_eq unsigned_of_nat take_bit_nat_eq_self)
    then have key: "slot_key (of_nat (e + a)) (ucast (chunk_id_of (read_hdr d))) = chunk_key e a b"
      unfolding hdr chunk_id_of_encode chunk_key_def by simp
    have "more_of (read_hdr d) = (Suc b < length (Ps ! a))" unfolding hdr by (rule more_of_encode)
    then have "process_merge A ctx t (Some p) (length d) w = Some (0, ctx', w5)"
      using st ld seq len less False key by (simp add: process_merge_def Let_def del: of_nat_add)
    then show ?thesis using rest by blast
  qed
qed

end

lemma drop_take_split:
  assumes "i \<le> j" and "j \<le> k"
  shows "drop i (take j xs) @ drop j (take k xs) = drop i (take k xs)"
proof -
  have "take k xs = take j xs @ drop j (take k xs)"
    using assms(2) append_take_drop_id [of j "take k xs"] by simp
  moreover have "drop (i - length (take j xs)) (drop j (take k xs)) = drop j (take k xs)"
    using assms(1) by (cases "j \<le> length xs") auto
  ultimately show ?thesis by (metis drop_append)
qed

context module_env
begin

lemma merge_feed_ok:
  assumes "wf w" and "merge_rep (heap w) H e Ps R i j ctx" and "(i, j) \<notin> R"
    and "packets_ok e Ps" and "length Ps \<le> 16384" and "0 \<in> ports" and "set cs \<subseteq> chunk_ids Ps"
  shows "\<exists>i' j' ctx' w'. feed_packets split_process A 1 (map (chunk_wire e Ps) cs) ctx w = Some (ctx', w')
    \<and> wf w' \<and> merge_rep (heap w') H e Ps (R \<union> set cs) i' j' ctx' \<and> (i', j') \<notin> R \<union> set cs \<and> i \<le> i'
    \<and> trace w' = trace w @ map (\<lambda>p. obs 0 (concat p)) (drop i (take i' Ps))"
  using assms(1-3,7)
proof (induction cs arbitrary: w R i j ctx)
  case Nil
  then show ?case by (intro exI [of _ i] exI [of _ j]) simp
next
  case (Cons c cs)
  obtain a b where c: "c = (a, b)" by (cases c)
  let ?d = "chunk_wire e Ps c"
  have ab: "(a, b) \<in> chunk_ids Ps" using Cons.prems(4) c by simp
  have s: "slots_ok (heap w) e Ps {c \<in> R. i \<le> fst c} (pending ctx)" "merge_pos Ps R i j"
      "slots_frame (heap w) H (pending ctx)" "exp_pkt ctx = of_nat (e + i)" "exp_chunk ctx = of_nat j"
    using Cons.prems(2) by (simp_all add: merge_rep_def)
  obtain p w1 w2 where w2: "mc_malloc A (length ?d) w = (Some p, w1)" "mc_store A p 0 ?d w1 = Some w2"
      "wf w2" "heap w p = None" "heap w2 = (heap w)(p \<mapsto> ?d)" "trace w2 = trace w"
    using malloc_fill [OF Cons.prems(1), of ?d] by blast
  let ?H = "H(p \<mapsto> ?d)"
  have np: "p \<notin> set (slot_ptrs (pending ctx))" using slots_ok_owned [OF s(1)] w2(4) by blast
  have Hp: "H p = None" using slots_frame_at [OF s(3), of p] np w2(4) by simp
  have "slots_ok (heap w2) e Ps {c \<in> R. i \<le> fst c} (pending ctx)"
    by (rule slots_ok_cong [OF s(1) assms(4)]) (use s(2) np w2(5) in \<open>auto simp: merge_pos_def\<close>)
  moreover have "slots_frame (heap w2) ?H (pending ctx)"
    using s(3) np unfolding slots_frame_def w2(5) by simp
  ultimately have rep: "merge_rep (heap w2) ?H e Ps R i j ctx" using s by (simp add: merge_rep_def)
  have win: "a < i + 16384" "i \<le> a + 16384"
    using ab s(2) assms(5) by (auto simp: chunk_ids_def merge_pos_def)
  have "?H p = Some ?d" by simp
  from process_merge_ok [OF w2(3) rep Cons.prems(3) assms(4,6) ab win arg_cong [OF c] this, of 1]
  obtain i1 j1 ctx1 w3 where m: "process_merge A ctx 1 (Some p) (length ?d) w2 = Some (0, ctx1, w3)" "wf w3"
      "merge_rep (heap w3) (?H(p := None)) e Ps (insert (a, b) R) i1 j1 ctx1"
      "(i1, j1) \<notin> insert (a, b) R" "i \<le> i1"
      "trace w3 = trace w2 @ map (\<lambda>p. obs 0 (concat p)) (drop i (take i1 Ps))"
    by blast
  have "?H(p := None) = H" using Hp by auto
  then have m3: "merge_rep (heap w3) H e Ps (insert (a, b) R) i1 j1 ctx1" using m(3) by simp
  have "set cs \<subseteq> chunk_ids Ps" using Cons.prems(4) by simp
  from Cons.IH [OF m(2) m3 m(4) this] obtain i2 j2 ctx2 w4 where
    f: "feed_packets split_process A 1 (map (chunk_wire e Ps) cs) ctx1 w3 = Some (ctx2, w4)" "wf w4"
      "merge_rep (heap w4) H e Ps (insert (a, b) R \<union> set cs) i2 j2 ctx2"
      "(i2, j2) \<notin> insert (a, b) R \<union> set cs" "i1 \<le> i2"
      "trace w4 = trace w3 @ map (\<lambda>p. obs 0 (concat p)) (drop i1 (take i2 Ps))" by blast
  have dt: "drop i (take i1 Ps) @ drop i1 (take i2 Ps) = drop i (take i2 Ps)"
    by (rule drop_take_split [OF m(5) f(5)])
  have "trace w4 = trace w @ map (\<lambda>p. obs 0 (concat p)) (drop i (take i1 Ps) @ drop i1 (take i2 Ps))"
    using f(6) m(6) w2(6) by simp
  then have tr: "trace w4 = trace w @ map (\<lambda>p. obs 0 (concat p)) (drop i (take i2 Ps))" unfolding dt .
  have run: "feed_packets split_process A 1 (map (chunk_wire e Ps) (c # cs)) ctx w = Some (ctx2, w4)"
    using w2(1,2) m(1) f(1) by (simp add: split_process_def)
  have un: "insert (a, b) R \<union> set cs = R \<union> set (c # cs)" using c by auto
  have "i \<le> i2" using m(5) f(5) by simp
  then show ?case using run tr f(2) f(3,4) [unfolded un] by blast
qed

end

section \<open>What splitting emits\<close>

text \<open>The output of the \<open>k\<close>-th chunk of a packet and the packets emitted for chunks \<open>cs\<close>.\<close>

definition out_port :: "SplitContext \<Rightarrow> nat \<Rightarrow> int" where
  "out_port ctx k = 1 + int32 (uint ((rr_idx ctx + of_nat k) mod word_of_int (num_outputs ctx)))"

fun emitted :: "(int \<Rightarrow> bytes \<Rightarrow> 'o) \<Rightarrow> SplitContext \<Rightarrow> nat \<Rightarrow> bytes list \<Rightarrow> 'o list" where
  "emitted obs ctx k [] = []"
| "emitted obs ctx k (c # cs) =
     obs (out_port ctx k) (hdr_bytes (encode_hdr (pkt_seq ctx) (cs \<noteq> []) (of_nat k)) @ c)
     # emitted obs ctx (Suc k) cs"

text \<open>What \<open>init\<close> guarantees about the configuration.\<close>

definition split_cfg_ok :: "SplitContext \<Rightarrow> bool" where
  "split_cfg_ok ctx \<longleftrightarrow> 64 \<le> chunk_size_min ctx \<and> chunk_size_min ctx \<le> chunk_size_max ctx
     \<and> chunk_size_max ctx \<le> 65536 \<and> 1 \<le> num_outputs ctx \<and> num_outputs ctx < 2 ^ 31"

lemma clamp_bounds: "64 \<le> clamp x MIN_CHUNK MAX_CHUNK \<and> clamp x MIN_CHUNK MAX_CHUNK \<le> 65536"
  by (simp add: clamp_def)

lemma parse_size_bounds: "64 \<le> parse_size s DEF_CHUNK_SIZE \<and> parse_size s DEF_CHUNK_SIZE \<le> 65536"
  using clamp_bounds by (simp add: parse_size_def Let_def)

lemma parse_chunk_sizes_bounds:
  "case parse_chunk_sizes s of (mn, mx) \<Rightarrow> 64 \<le> mn \<and> mn \<le> mx \<and> mx \<le> 65536"
  using parse_size_bounds by (auto simp: parse_chunk_sizes_def Let_def split: option.splits)

lemma int32_less: "int32 n < 2 ^ 31"
  using sint_lt [of "word_of_int n :: 32 word"] by (simp add: int32_def)

lemma split_init_cfg: "split_cfg_ok (fst (split_init A config w))"
proof -
  have "parse_outputs config < 2 ^ 31"
    using int32_less by (auto simp: parse_outputs_def atoi_def split: option.splits)
  then show ?thesis
    using parse_chunk_sizes_bounds [of config]
    by (auto simp: split_init_def split_cfg_ok_def split_ctx_new_def Let_def split: prod.splits)
qed

lemma out_port_range: "split_cfg_ok ctx \<Longrightarrow> out_port ctx k \<in> {1..num_outputs ctx}"
proof -
  assume ok: "split_cfg_ok ctx"
  let ?n = "word_of_int (num_outputs ctx) :: u32" and ?x = "rr_idx ctx + of_nat k"
  have n: "uint ?n = num_outputs ctx" using ok by (simp add: split_cfg_ok_def uint_word_of_int)
  have "uint (?x mod ?n) = uint ?x mod num_outputs ctx" by (simp add: uint_mod n)
  moreover have "0 \<le> uint ?x mod num_outputs ctx" "uint ?x mod num_outputs ctx < num_outputs ctx"
    using ok by (simp_all add: split_cfg_ok_def)
  ultimately show ?thesis using ok by (simp add: out_port_def split_cfg_ok_def)
qed

context module_env
begin

lemma next_chunk_size_ok:
  assumes "wf w" and "split_cfg_ok ctx"
  shows "\<exists>n w'. next_chunk_size A ctx w = (n, w') \<and> 1 \<le> n \<and> wf w' \<and> heap w' = heap w \<and> trace w' = trace w"
proof (cases "chunk_size_min ctx \<ge> chunk_size_max ctx")
  case True
  then show ?thesis using assms by (simp add: next_chunk_size_def split_cfg_ok_def)
next
  case False
  let ?d = "chunk_size_max ctx - chunk_size_min ctx + 1" and ?r = "uint (word_of_int (fst (mc_rand A w)) :: u32)"
  have "uint (word_of_int ?d :: u32) = ?d"
    by (rule uint_word_of_int_u32) (use assms(2) in \<open>simp_all add: split_cfg_ok_def\<close>)
  moreover have "0 \<le> ?r mod ?d" "?r mod ?d < ?d"
    using False pos_mod_bound [of ?d ?r] pos_mod_sign [of ?d ?r] by linarith+
  then have "int32 (?r mod ?d) = ?r mod ?d" using assms(2) by (intro int32_id) (auto simp: split_cfg_ok_def)
  moreover have "1 \<le> chunk_size_min ctx + ?r mod ?d"
    using assms(2) \<open>0 \<le> ?r mod ?d\<close> unfolding split_cfg_ok_def by linarith
  ultimately show ?thesis
    using False rand_ok [OF assms(1)]
    by (cases "mc_rand A w") (simp add: next_chunk_size_def split_cfg_ok_def Let_def)
qed

lemma split_loop_ok:
  assumes "split_cfg_ok ctx" and "{1..num_outputs ctx} \<subseteq> ports" and "length d < 2 ^ 31"
    and "wf w" and "heap w p = Some d" and "off \<le> length d" and "k \<le> 65535 \<or> off = length d \<and> k \<le> 65536"
  shows "\<exists>cs w'. split_loop A p (int (length d)) (int off) (int k)
      (ctx\<lparr>rr_idx := rr_idx ctx + of_nat k, chunk_idx := of_nat k\<rparr>) w
    = Some (Inr (int (k + length cs)),
        ctx\<lparr>rr_idx := rr_idx ctx + of_nat (k + length cs), chunk_idx := of_nat (k + length cs)\<rparr>, w')
    \<and> wf w' \<and> heap w' = heap w \<and> trace w' = trace w @ emitted obs ctx k cs
    \<and> concat cs = drop off d \<and> [] \<notin> set cs \<and> k + length cs \<le> 65536"
  using assms(4-7)
proof (induction "length d - off" arbitrary: off k w rule: less_induct)
  case less
  let ?ctx = "\<lambda>k. ctx\<lparr>rr_idx := rr_idx ctx + of_nat k, chunk_idx := of_nat k\<rparr>"
  show ?case
  proof (cases "off < length d")
    case False
    then show ?thesis using less.prems
      by (intro exI [of _ "[]"] exI [of _ w]) (subst split_loop.simps, auto)
  next
    case True
    have cfg: "split_cfg_ok (?ctx k)" using assms(1) by (simp add: split_cfg_ok_def)
    obtain n w0 where n: "(if int k \<ge> MAX_CHUNKS_PER_PASS - 1 then (int (length d) - int off, w)
          else next_chunk_size A (?ctx k) w) = (n, w0)" "1 \<le> n" "wf w0" "heap w0 = heap w" "trace w0 = trace w"
        and last: "int k \<ge> MAX_CHUNKS_PER_PASS - 1 \<Longrightarrow> n = int (length d) - int off"
    proof (cases "int k \<ge> MAX_CHUNKS_PER_PASS - 1")
      case T: True
      then show thesis using that [of "int (length d) - int off" w] True less.prems(1) by simp
    next
      case F: False
      then show thesis using that next_chunk_size_ok [OF less.prems(1) cfg] by fastforce
    qed
    define m where "m = nat (min n (int (length d) - int off))"
    have m: "1 \<le> m" "off + m \<le> length d" "(if n > int (length d) - int off then int (length d) - int off else n) = int m"
      using n(2) True by (auto simp: m_def)
    let ?c = "take m (drop off d)" and ?more = "off + m < length d"
    let ?b = "hdr_bytes (encode_hdr (pkt_seq ctx) ?more (of_nat k)) @ ?c"
    have lb: "length ?b = m + 4" using m(2) by (simp add: hdr_bytes_def)
    obtain q w1 w2 where w2: "mc_malloc A (length ?b) w0 = (Some q, w1)" "mc_store A q 0 ?b w1 = Some w2"
        "wf w1" "wf w2" "heap w0 q = None" "heap w2 = (heap w0)(q \<mapsto> ?b)" "trace w2 = trace w0"
        "\<forall>q b. heap w0 q = Some b \<longrightarrow> heap w1 q = Some b"
      using malloc_fill [OF n(3), of ?b] by blast
    have ld: "mc_load A p w1 = Some d" by (rule load_ok [OF w2(3)]) (use w2(8) n(4) less.prems(2) in simp)
    have port: "out_port ctx k \<in> ports" using out_port_range [OF assms(1)] assms(2) by blast
    have hq: "heap w2 q = Some ?b" using w2(6) by simp
    obtain r w3 where w3: "mc_write_packet A (out_port ctx k) q (length ?b) w2 = Some (r, w3)" "wf w3"
        "heap w3 = (heap w2)(q := None)" "trace w3 = trace w2 @ [obs (out_port ctx k) ?b]"
      using write_ok [OF w2(4) hq port] by blast
    have h3: "heap w3 = heap w" using w3(3) w2(5,6) n(4) by auto
    have k: "Suc k \<le> 65535 \<or> off + m = length d \<and> Suc k \<le> 65536"
      using less.prems(4) True last m by (cases "int k \<ge> MAX_CHUNKS_PER_PASS - 1") auto
    have uc: "ucast (of_nat k :: u32) = (of_nat k :: u16)"
      by (simp add: word_unat_eq_iff unsigned_ucast_eq unsigned_of_nat take_bit_eq_mod mod_mod_cancel)
    have ctx: "(?ctx k)\<lparr>rr_idx := rr_idx (?ctx k) + 1, chunk_idx := chunk_idx (?ctx k) + 1\<rparr> = ?ctx (Suc k)"
      by (simp add: add_ac)
    have "split_loop A p (int (length d)) (int off) (int k) (?ctx k) w
        = split_loop A p (int (length d)) (int (off + m)) (int (Suc k)) (?ctx (Suc k)) w3"
    proof -
      have s: "\<not> \<not> int off < int (length d)" using True by simp
      have hd: "encode_hdr (pkt_seq (?ctx k)) (int off + int m < int (length d)) (ucast (chunk_idx (?ctx k)))
          = encode_hdr (pkt_seq ctx) ?more (of_nat k)" using uc by (simp flip: of_nat_add)
      have op: "1 + int32 (uint (rr_idx (?ctx k) mod word_of_int (num_outputs (?ctx k)))) = out_port ctx k"
        by (simp add: out_port_def)
      have sz: "nat (int m + int HEADER_SIZE) = length ?b" using lb by simp
      have ok: "\<not> (int off < 0 \<or> int m < 0 \<or> int (length d) < int off + int m)" using m(2) by simp
      show ?thesis
        by (subst split_loop.simps)
           (simp only: Let_def n(1) split_conv m(3) hd op sz w2(1) option.case prod.case ld bind.bind_lunit
             s ok nat_int w2(2) w3(1) ctx if_True if_False, simp add: add.commute)
    qed
    moreover have dec: "length d - (off + m) < length d - off" using m True by simp
    have hp3: "heap w3 p = Some d" using h3 less.prems(2) by simp
    from less.hyps [OF dec w3(2) hp3 m(2) k] obtain cs w' where
      r: "split_loop A p (int (length d)) (int (off + m)) (int (Suc k)) (?ctx (Suc k)) w3
          = Some (Inr (int (Suc k + length cs)), ?ctx (Suc k + length cs), w')" "wf w'" "heap w' = heap w3"
        "trace w' = trace w3 @ emitted obs ctx (Suc k) cs" "concat cs = drop (off + m) d" "[] \<notin> set cs"
        "Suc k + length cs \<le> 65536"
      by blast
    moreover have "cs \<noteq> [] \<longleftrightarrow> ?more" 
    proof -
      have "concat cs = [] \<longleftrightarrow> cs = []" using r(6) by (cases cs) auto
      then show ?thesis unfolding r(5) by auto
    qed
    moreover have "?c @ drop (off + m) d = drop off d" by (metis append_take_drop_id drop_drop add.commute)
    moreover have "?c \<noteq> []" using m True by simp
    ultimately show ?thesis
      using w3(4) w2(7) n(5) h3 by (intro exI [of _ "?c # cs"] exI [of _ w']) simp
  qed
qed

end

lemma emitted_map: "emitted obs ctx k cs = map (\<lambda>(d, b). obs d b) (emitted Pair ctx k cs)"
  by (induction cs arbitrary: k) auto

lemma emitted_ports: "split_cfg_ok ctx \<Longrightarrow> fst ` set (emitted Pair ctx k cs) \<subseteq> {1..num_outputs ctx}"
  using out_port_range by (induction cs arbitrary: k) auto

text \<open>All chunks of a sequence of packets, in the order they are sent.\<close>

fun all_wire :: "nat \<Rightarrow> bytes list list \<Rightarrow> bytes list" where
  "all_wire e [] = []"
| "all_wire e (cs # Ps) = map (\<lambda>j. chunk_wire e (cs # Ps) (0, j)) [0..<length cs] @ all_wire (Suc e) Ps"

lemma chunk_wire_Suc: "chunk_wire e (cs # Ps) (Suc i, j) = chunk_wire (Suc e) Ps (i, j)"
  by (simp add: chunk_wire_def add_ac)

lemma chunk_ids_Cons:
  "chunk_ids (cs # Ps) = Pair 0 ` {0..<length cs} \<union> (\<lambda>(i, j). (Suc i, j)) ` chunk_ids Ps"
proof -
  have "x \<in> chunk_ids (cs # Ps) \<longleftrightarrow> x \<in> Pair 0 ` {0..<length cs} \<union> (\<lambda>(i, j). (Suc i, j)) ` chunk_ids Ps" for x
    by (cases x; cases "fst x") (auto simp: chunk_ids_def image_iff)
  then show ?thesis by blast
qed

lemma set_all_wire: "set (all_wire e Ps) = chunk_wire e Ps ` chunk_ids Ps"
proof (induction Ps arbitrary: e)
  case Nil
  then show ?case by (simp add: chunk_ids_def)
next
  case (Cons cs Ps)
  have "chunk_wire e (cs # Ps) ` (\<lambda>(i, j). (Suc i, j)) ` chunk_ids Ps = chunk_wire (Suc e) Ps ` chunk_ids Ps"
    unfolding image_image by (intro image_cong) (auto simp: chunk_wire_Suc)
  moreover have "chunk_wire e (cs # Ps) ` Pair 0 ` {0..<length cs}
      = (\<lambda>j. chunk_wire e (cs # Ps) (0, j)) ` {0..<length cs}" by (simp add: image_image)
  ultimately show ?case by (simp add: chunk_ids_Cons image_Un Cons.IH)
qed

lemma emitted_wire:
  assumes "pkt_seq ctx = of_nat e"
  shows "map snd (emitted Pair ctx k (drop k cs)) = map (\<lambda>j. chunk_wire e (cs # Ps) (0, j)) [k..<length cs]"
proof (induction "length cs - k" arbitrary: k)
  case 0
  then show ?case by simp
next
  case (Suc n)
  then have k: "k < length cs" by simp
  then have d: "drop k cs = cs ! k # drop (Suc k) cs" by (simp add: Cons_nth_drop_Suc)
  have "map snd (emitted Pair ctx (Suc k) (drop (Suc k) cs)) = map (\<lambda>j. chunk_wire e (cs # Ps) (0, j)) [Suc k..<length cs]"
    by (rule Suc.hyps) (use Suc.hyps(2) in simp)
  then show ?case unfolding d
    using k by (simp add: upt_conv_Cons chunk_wire_def assms not_le)
qed

lemma map_preimage: "set ys \<subseteq> f ` S \<Longrightarrow> \<exists>xs. ys = map f xs \<and> set xs \<subseteq> S"
proof (induction ys)
  case (Cons y ys)
  then obtain xs where "ys = map f xs" "set xs \<subseteq> S" by auto
  moreover obtain x where "y = f x" "x \<in> S" using Cons.prems by auto
  ultimately show ?case by (intro exI [of _ "x # xs"]) simp
qed simp

lemma chunk_wire_inj:
  assumes "packets_ok e Ps" and "length Ps \<le> 16384"
  shows "inj_on (chunk_wire e Ps) (chunk_ids Ps)"
proof (rule inj_onI)
  fix x y assume xy: "x \<in> chunk_ids Ps" "y \<in> chunk_ids Ps" "chunk_wire e Ps x = chunk_wire e Ps y"
  obtain i j a b where ij: "x = (i, j)" "y = (a, b)" by (cases x, cases y)
  have big: "e + length Ps + 49152 \<le> 2 ^ 32" using assms(1) by (simp add: packets_ok_def)
  have num: "seq32 (of_nat e) (wire_id_of (read_hdr (chunk_wire e Ps (i, j)))) = of_nat (e + i)
      \<and> chunk_id_of (read_hdr (chunk_wire e Ps (i, j))) = of_nat j" if c: "(i, j) \<in> chunk_ids Ps" for i j
  proof -
    have i: "i < length Ps" using c by (simp add: chunk_ids_def)
    have u: "unat (of_nat (e + i) :: u32) = e + i" "unat (of_nat e :: u32) = e"
      using big i by (simp_all add: unat_of_nat del: of_nat_add)
    have "seq32 (of_nat e) (ucast ((of_nat (e + i) :: u32) AND 0x7FFF)) = of_nat (e + i)"
      by (rule seq32_window) (use u big i assms(2) in linarith)+
    then show ?thesis
      by (simp add: chunk_wire_def read_hdr_bytes wire_id_of_encode chunk_id_of_encode del: of_nat_add)
  qed
  have eqs: "(of_nat (e + i) :: u32) = of_nat (e + a)" "(of_nat j :: u16) = of_nat b"
    using num [of i j] num [of a b] xy unfolding ij by metis+
  have lim: "e + i < 2 ^ 32" "j < 65536" "e + a < 2 ^ 32" "b < 65536"
    using chunk_bounds [OF assms(1)] xy(1,2) unfolding ij by blast+
  have "e + i = e + a" using arg_cong [OF eqs(1), of unat] lim(1,3) by (simp add: unat_of_nat del: of_nat_add)
  moreover have "j = b" using arg_cong [OF eqs(2), of unat] lim(2,4) by (simp add: unat_of_nat)
  ultimately show "x = y" using ij by simp
qed

context module_env
begin

lemma process_split_ok:
  assumes "split_cfg_ok ctx" and "{1..num_outputs ctx} \<subseteq> ports" and "length d < 2 ^ 31" and "d \<noteq> []"
    and "wf w" and "heap w p = Some d" and "chunk_idx ctx = 0"
  shows "\<exists>cs ctx' w'. process_split A ctx t (Some p) (length d) w = Some (0, ctx', w') \<and> wf w'
    \<and> heap w' = (heap w)(p := None) \<and> trace w' = trace w @ emitted obs ctx 0 cs \<and> concat cs = d
    \<and> [] \<notin> set cs \<and> cs \<noteq> [] \<and> length cs \<le> 65536 \<and> split_cfg_ok ctx'
    \<and> num_outputs ctx' = num_outputs ctx \<and> pkt_seq ctx' = pkt_seq ctx + 1 \<and> chunk_idx ctx' = 0"
proof -
  have c0: "ctx\<lparr>rr_idx := rr_idx ctx + of_nat 0, chunk_idx := of_nat 0\<rparr> = ctx" using assms(7) by simp
  obtain cs w1 where l: "split_loop A p (int (length d)) 0 0 ctx w = Some (Inr (int (length cs)),
        ctx\<lparr>rr_idx := rr_idx ctx + of_nat (length cs), chunk_idx := of_nat (length cs)\<rparr>, w1)"
      "wf w1" "heap w1 = heap w" "trace w1 = trace w @ emitted obs ctx 0 cs" "concat cs = d"
      "[] \<notin> set cs" "length cs \<le> 65536"
    using split_loop_ok [OF assms(1,2,3,5,6), of 0 0] unfolding c0 by auto
  have "heap w1 p = Some d" using l(3) assms(6) by simp
  then obtain w' where w': "mc_free A p w1 = Some w'" "wf w'" "heap w' = (heap w1)(p := None)"
      "trace w' = trace w1" using free_ok [OF l(2)] by blast
  have "int32 (int (length d)) = int (length d)" using assms(3) by simp
  then show ?thesis
    using l w' assms(1,4) by (simp add: process_split_def) (intro exI [of _ cs], auto simp: split_cfg_ok_def)
qed

lemma split_feed_ok:
  assumes "split_cfg_ok ctx" and "{1..num_outputs ctx} \<subseteq> ports" and "wf w" and "chunk_idx ctx = 0"
    and "pkt_seq ctx = of_nat e" and "\<forall>d \<in> set ds. d \<noteq> [] \<and> length d < 2 ^ 31"
  shows "\<exists>Ps outs ctx' w'. feed_packets split_process A 0 ds ctx w = Some (ctx', w') \<and> wf w'
    \<and> heap w' = heap w \<and> trace w' = trace w @ map (\<lambda>(d, b). obs d b) outs \<and> map concat Ps = ds
    \<and> (\<forall>p \<in> set Ps. p \<noteq> [] \<and> length p \<le> 65536) \<and> fst ` set outs \<subseteq> {1..num_outputs ctx}
    \<and> map snd outs = all_wire e Ps"
  using assms
proof (induction ds arbitrary: ctx w e)
  case Nil
  then show ?case by (intro exI [of _ "[]"]) simp
next
  case (Cons d ds)
  obtain p w1 w2 where w2: "mc_malloc A (length d) w = (Some p, w1)" "mc_store A p 0 d w1 = Some w2"
      "wf w2" "heap w p = None" "heap w2 = (heap w)(p \<mapsto> d)" "trace w2 = trace w"
    using malloc_fill [OF Cons.prems(3), of d] by blast
  have d: "length d < 2 ^ 31" "d \<noteq> []" using Cons.prems(6) by simp_all
  have hp: "heap w2 p = Some d" using w2(5) by simp
  from process_split_ok [OF Cons.prems(1,2) d w2(3) hp Cons.prems(4), of 1]
  obtain cs ctx1 w3 where s: "process_split A ctx 1 (Some p) (length d) w2 = Some (0, ctx1, w3)" "wf w3"
      "heap w3 = (heap w2)(p := None)" "trace w3 = trace w2 @ emitted obs ctx 0 cs" "concat cs = d"
      "[] \<notin> set cs" "cs \<noteq> []" "length cs \<le> 65536" "split_cfg_ok ctx1" "num_outputs ctx1 = num_outputs ctx"
      "pkt_seq ctx1 = pkt_seq ctx + 1" "chunk_idx ctx1 = 0" by blast
  have h3: "heap w3 = heap w" using s(3) w2(4,5) by auto
  have q: "pkt_seq ctx1 = of_nat (Suc e)" using s(11) Cons.prems(5) by simp
  have "{1..num_outputs ctx1} \<subseteq> ports" "\<forall>d \<in> set ds. d \<noteq> [] \<and> length d < 2 ^ 31"
    using Cons.prems(2,6) s(10) by simp_all
  from Cons.IH [OF s(9) this(1) s(2,12) q this(2)] obtain Ps outs ctx2 w4 where
    f: "feed_packets split_process A 0 ds ctx1 w3 = Some (ctx2, w4)" "wf w4" "heap w4 = heap w3"
      "trace w4 = trace w3 @ map (\<lambda>(d, b). obs d b) outs" "map concat Ps = ds"
      "\<forall>p \<in> set Ps. p \<noteq> [] \<and> length p \<le> 65536" "fst ` set outs \<subseteq> {1..num_outputs ctx1}"
      "map snd outs = all_wire (Suc e) Ps" by blast
  let ?outs = "emitted Pair ctx 0 cs @ outs"
  have run: "feed_packets split_process A 0 (d # ds) ctx w = Some (ctx2, w4)"
    using w2(1,2) s(1) f(1) by (simp add: split_process_def)
  have tr: "trace w4 = trace w @ map (\<lambda>(d, b). obs d b) ?outs"
    using f(4) s(4) w2(6) emitted_map [of obs ctx 0 cs] by simp
  have wire: "map snd ?outs = all_wire e (cs # Ps)"
    using emitted_wire [OF Cons.prems(5), of 0 cs Ps] f(8) by simp
  have "map concat (cs # Ps) = d # ds" using f(5) s(5) by simp
  moreover have "\<forall>p \<in> set (cs # Ps). p \<noteq> [] \<and> length p \<le> 65536" using f(6) s(7,8) by simp
  moreover have "fst ` set ?outs \<subseteq> {1..num_outputs ctx}"
    using f(7) emitted_ports [OF Cons.prems(1), of 0 cs] unfolding s(10) set_append image_Un by blast
  moreover have "heap w4 = heap w" using f(3) h3 by simp
  ultimately show ?case
    using run f(2) tr wire
    by (intro exI [of _ "cs # Ps"] exI [of _ ?outs] exI [of _ ctx2] exI [of _ w4] conjI)
qed

lemma merge_feed_new:
  assumes "wf w" and "exp_pkt ctx = of_nat e" and "exp_chunk ctx = 0" and "pending ctx = []"
    and ok: "packets_ok e Ps" and "length Ps \<le> 16384" and "0 \<in> ports"
    and "set arr \<subseteq> set (all_wire e Ps)"
  shows "\<exists>n ctx' w'. feed_packets split_process A 1 arr ctx w = Some (ctx', w') \<and> wf w'
    \<and> trace w' = trace w @ map (\<lambda>p. obs 0 (concat p)) (take n Ps)
    \<and> (set arr = set (all_wire e Ps) \<longrightarrow> n = length Ps \<and> pending ctx' = [] \<and> heap w' = heap w
         \<and> exp_pkt ctx' = of_nat (e + length Ps))"
proof -
  obtain cs where cs: "arr = map (chunk_wire e Ps) cs" "set cs \<subseteq> chunk_ids Ps"
    using assms(8) map_preimage [of arr "chunk_wire e Ps" "chunk_ids Ps"] unfolding set_all_wire by blast
  have "0 < length Ps \<Longrightarrow> 0 < length (Ps ! 0)" using ok nth_mem [of 0 Ps] by (simp add: packets_ok_def)
  then have rep: "merge_rep (heap w) (heap w) e Ps {} 0 0 ctx"
    using assms(2-4) by (simp add: merge_rep_def merge_pos_def slots_ok_def slots_frame_def)
  obtain n j ctx' w' where f: "feed_packets split_process A 1 arr ctx w = Some (ctx', w')" "wf w'"
      "merge_rep (heap w') (heap w) e Ps (set cs) n j ctx'" "(n, j) \<notin> set cs"
      "trace w' = trace w @ map (\<lambda>p. obs 0 (concat p)) (take n Ps)"
    using merge_feed_ok [OF assms(1) rep _ ok assms(6,7) cs(2)] unfolding cs(1) by auto
  have "n = length Ps \<and> pending ctx' = [] \<and> heap w' = heap w \<and> exp_pkt ctx' = of_nat (e + length Ps)"
    if "set arr = set (all_wire e Ps)"
  proof -
    have "chunk_wire e Ps ` set cs = chunk_wire e Ps ` chunk_ids Ps"
      using that unfolding cs(1) set_all_wire by simp
    then have all: "set cs = chunk_ids Ps"
      using inj_on_image_eq_iff [OF chunk_wire_inj [OF ok assms(6)] cs(2) order_refl] by blast
    have pos: "merge_pos Ps (set cs) n j" using f(3) by (simp add: merge_rep_def)
    then have n: "n = length Ps"
      using f(4) unfolding all merge_pos_def by (auto simp: chunk_ids_def split: if_splits)
    then have "{c \<in> set cs. n \<le> fst c} = {}" using all by (auto simp: chunk_ids_def)
    then have "slots_ok (heap w') e Ps {} (pending ctx')" using f(3) by (simp only: merge_rep_def)
    then have p: "pending ctx' = []" unfolding slots_ok_def by (cases "pending ctx'") auto
    then show ?thesis using f(3) n unfolding merge_rep_def slots_frame_def by auto
  qed
  then show ?thesis using f(1,2,5) by blast
qed

end

end
