(* ===== verification/Chain_Inv.thy ===== *)
theory Chain_Inv
  imports Modules Reassembly
begin

text \<open>
  Invariants of a chain: the byte counter is the size of the live buffers, the backpressure flags
  follow the counter with hysteresis, and the in-flight counter is the number of queued and running
  tasks.  Every operation of the chain keeps them, whatever the modules do with their interface.
\<close>

section \<open>Frame rules\<close>

lemma check_dir_frame [simp, frame_simps]:
  "cells (check_dir d c) = cells c" "next_ptr (check_dir d c) = next_ptr c" "oom (check_dir d c) = oom c"
  "rands (check_dir d c) = rands c" "modules (check_dir d c) = modules c"
  "bytes_allocated (check_dir d c) = bytes_allocated c" "entry_ext (check_dir d c) = entry_ext c"
  "wire_entries (check_dir d c) = wire_entries c" "pool (check_dir d c) = pool c"
  "owner (check_dir d c) = owner c" "cancelled (check_dir d c) = cancelled c"
  "inflight (check_dir d c) = inflight c" "requested_outputs (check_dir d c) = requested_outputs c"
  "pause_cb (check_dir d c) = pause_cb c" "ctx_src_idx (check_dir d c) = ctx_src_idx c"
  "length (backpressure_paused (check_dir d c)) = length (backpressure_paused c)"
  by (simp_all add: check_dir_def Let_def)

lemma check_backpressure_frame [simp, frame_simps]:
  "cells (check_backpressure c) = cells c" "next_ptr (check_backpressure c) = next_ptr c"
  "oom (check_backpressure c) = oom c" "rands (check_backpressure c) = rands c"
  "modules (check_backpressure c) = modules c" "bytes_allocated (check_backpressure c) = bytes_allocated c"
  "entry_ext (check_backpressure c) = entry_ext c" "wire_entries (check_backpressure c) = wire_entries c"
  "pool (check_backpressure c) = pool c" "owner (check_backpressure c) = owner c"
  "cancelled (check_backpressure c) = cancelled c" "inflight (check_backpressure c) = inflight c"
  "requested_outputs (check_backpressure c) = requested_outputs c"
  "pause_cb (check_backpressure c) = pause_cb c" "ctx_src_idx (check_backpressure c) = ctx_src_idx c"
  "length (backpressure_paused (check_backpressure c)) = length (backpressure_paused c)"
  by (simp_all add: check_backpressure_def)

section \<open>Invariants\<close>

definition heap_bytes :: "'c Chain \<Rightarrow> int" where
  "heap_bytes c = (\<Sum>p \<in> dom (cells c). int (length (the (cells c p))))"

definition heap_inv :: "'c Chain \<Rightarrow> bool" where
  "heap_inv c \<longleftrightarrow> finite (dom (cells c)) \<and> (\<forall>p \<ge> next_ptr c. cells c p = None)
     \<and> bytes_allocated c = heap_bytes c"

definition bp_inv :: "'c Chain \<Rightarrow> bool" where
  "bp_inv c \<longleftrightarrow> length (backpressure_paused c) = 2
     \<and> (\<forall>d < 2. if backpressure_paused c ! d then BACKPRESSURE_LOW < bytes_allocated c
                else bytes_allocated c \<le> BACKPRESSURE_HIGH)"

definition work_inv :: "'c Chain \<Rightarrow> bool" where
  "work_inv c \<longleftrightarrow> inflight c = int (length (queue (pool c)) + length (running (pool c)))"

definition chain_inv :: "'c Chain \<Rightarrow> bool" where
  "chain_inv c \<longleftrightarrow> heap_inv c \<and> bp_inv c \<and> work_inv c"

lemma check_dir_flag:
  assumes "d < length (backpressure_paused c)"
  shows "backpressure_paused (check_dir d c) = (backpressure_paused c)[d :=
    (if backpressure_paused c ! d then BACKPRESSURE_LOW < bytes_allocated c
     else BACKPRESSURE_HIGH < bytes_allocated c)]"
proof -
  have same: "xs = xs[d := b]" if "xs ! d = b" for xs :: "bool list" and b
    unfolding that [symmetric] by simp
  show ?thesis using assms by (auto simp: check_dir_def Let_def intro!: same)
qed

text \<open>Whatever the flags were, \<open>check_backpressure\<close> makes them fit the counter.\<close>

lemma check_backpressure_bp:
  assumes "length (backpressure_paused c) = 2"
  shows "bp_inv (check_backpressure c)"
proof -
  obtain a b where "backpressure_paused c = [a, b]"
    using assms by (metis (no_types, opaque_lifting) Suc_length_conv length_0_conv numeral_2_eq_2)
  then show ?thesis
    by (auto simp: bp_inv_def check_backpressure_def check_dir_flag less_2_cases_iff)
qed

lemma heap_bytes_insert:
  assumes "finite (dom (cells c))" and "cells c p = None"
  shows "heap_bytes (c\<lparr>cells := (cells c)(p \<mapsto> b)\<rparr>) = heap_bytes c + int (length b)"
proof -
  have p: "p \<notin> dom (cells c)" using assms(2) by auto
  have "(\<Sum>q \<in> dom (cells c). int (length (the (((cells c)(p \<mapsto> b)) q)))) = heap_bytes c"
    unfolding heap_bytes_def using p by (intro sum.cong) auto
  then show ?thesis using assms(1) p by (simp add: heap_bytes_def)
qed

lemma heap_bytes_remove:
  assumes "finite (dom (cells c))" and "cells c p = Some b"
  shows "heap_bytes (c\<lparr>cells := (cells c)(p := None)\<rparr>) = heap_bytes c - int (length b)"
proof -
  have "heap_bytes c = int (length b) + (\<Sum>q \<in> dom (cells c) - {p}. int (length (the (cells c q))))"
    unfolding heap_bytes_def using assms by (subst sum.remove [of _ p]) auto
  moreover have "(\<Sum>q \<in> dom (cells c) - {p}. int (length (the (((cells c)(p := None)) q))))
      = (\<Sum>q \<in> dom (cells c) - {p}. int (length (the (cells c q))))"
    by (intro sum.cong) auto
  ultimately show ?thesis by (simp add: heap_bytes_def)
qed

lemma heap_bytes_same_size:
  assumes "cells c p = Some b" and "length b' = length b"
  shows "heap_bytes (c\<lparr>cells := (cells c)(p \<mapsto> b')\<rparr>) = heap_bytes c"
proof -
  have "dom ((cells c)(p \<mapsto> b')) = dom (cells c)" using assms(1) by auto
  then show ?thesis unfolding heap_bytes_def using assms by (intro sum.cong) auto
qed

lemma heap_bytes_cong: "cells c' = cells c \<Longrightarrow> heap_bytes c' = heap_bytes c"
  by (simp add: heap_bytes_def)

section \<open>Every operation keeps the invariants\<close>

lemma alloc_buffer_inv [inv_intros]:
  assumes "chain_inv c" and "alloc_buffer n c = (p, c')"
  shows "chain_inv c'"
proof (cases "p = None")
  case True
  then show ?thesis using assms
    by (auto simp: alloc_buffer_def chain_inv_def heap_inv_def bp_inv_def work_inv_def heap_bytes_def
        split: list.splits bool.splits)
next
  case False
  let ?c = "c\<lparr>cells := (cells c)(next_ptr c \<mapsto> replicate n 0)\<rparr>"
  have c': "c' = check_backpressure (c\<lparr>oom := tl (oom c), cells := (cells c)(next_ptr c \<mapsto> replicate n 0),
      next_ptr := next_ptr c + 1, bytes_allocated := bytes_allocated c + int n\<rparr>)"
    using assms(2) False by (auto simp: alloc_buffer_def split: list.splits bool.splits)
  have h: "finite (dom (cells c))" "cells c (next_ptr c) = None" "\<And>q. next_ptr c \<le> q \<Longrightarrow> cells c q = None"
      "bytes_allocated c = heap_bytes c"
    using assms(1) by (simp_all add: chain_inv_def heap_inv_def)
  have "heap_bytes c' = heap_bytes ?c" unfolding c' by (rule heap_bytes_cong) simp
  then have "bytes_allocated c' = heap_bytes c'" using heap_bytes_insert [OF h(1,2)] h(4) by (simp add: c')
  then have "heap_inv c'" using h by (simp add: heap_inv_def c')
  moreover have "bp_inv c'" unfolding c' using assms(1)
    by (intro check_backpressure_bp) (simp add: chain_inv_def bp_inv_def)
  ultimately show ?thesis using assms(1) by (simp add: chain_inv_def work_inv_def c')
qed

lemma free_buffer_inv [inv_intros]:
  assumes "chain_inv c" and "free_buffer p c = Some c'"
  shows "chain_inv c'"
proof -
  obtain b where b: "cells c p = Some b" using assms(2) by (auto simp: free_buffer_def split: option.splits)
  have c': "c' = check_backpressure
      (c\<lparr>cells := (cells c)(p := None), bytes_allocated := bytes_allocated c - int (length b)\<rparr>)"
    using assms(2) b by (simp add: free_buffer_def)
  have h: "finite (dom (cells c))" "\<And>q. next_ptr c \<le> q \<Longrightarrow> cells c q = None" "bytes_allocated c = heap_bytes c"
    using assms(1) by (simp_all add: chain_inv_def heap_inv_def)
  have "heap_bytes c' = heap_bytes (c\<lparr>cells := (cells c)(p := None)\<rparr>)"
    unfolding c' by (rule heap_bytes_cong) simp
  then have "bytes_allocated c' = heap_bytes c'" using heap_bytes_remove [OF h(1) b] h(3) by (simp add: c')
  then have "heap_inv c'" using h by (simp add: heap_inv_def c')
  moreover have "bp_inv c'" unfolding c' using assms(1)
    by (intro check_backpressure_bp) (simp add: chain_inv_def bp_inv_def)
  ultimately show ?thesis using assms(1) by (simp add: chain_inv_def work_inv_def c')
qed

lemma store_buffer_inv [inv_intros]:
  assumes "chain_inv c" and "store_buffer p off bs c = Some c'"
  shows "chain_inv c'"
proof -
  obtain b where b: "cells c p = Some b" "off + length bs \<le> length b"
      "c' = c\<lparr>cells := (cells c)(p \<mapsto> patch off bs b)\<rparr>"
    using assms(2) by (auto simp: store_buffer_def split: option.splits if_splits)
  have "heap_bytes c' = heap_bytes c"
    unfolding b(3) by (rule heap_bytes_same_size [OF b(1)]) (use b(2) in simp)
  then show ?thesis using assms(1) b(1)
    by (auto simp: chain_inv_def heap_inv_def bp_inv_def work_inv_def b(3))
qed

text \<open>Updates of the fields the invariants do not mention.\<close>

lemma chain_inv_cong:
  assumes "chain_inv c" and "cells c' = cells c" and "next_ptr c' = next_ptr c"
    and "bytes_allocated c' = bytes_allocated c" and "backpressure_paused c' = backpressure_paused c"
    and "inflight c' - int (length (queue (pool c')) + length (running (pool c')))
       = inflight c - int (length (queue (pool c)) + length (running (pool c)))"
  shows "chain_inv c'"
proof -
  have "bp_inv c'" using assms(1,4,5) unfolding chain_inv_def bp_inv_def by metis
  then show ?thesis
    using assms heap_bytes_cong [OF assms(2)] by (simp add: chain_inv_def heap_inv_def work_inv_def)
qed

lemma upd_module_inv [simp]: "chain_inv (upd_module i f c) \<longleftrightarrow> chain_inv c"
  by (simp add: chain_inv_def heap_inv_def bp_inv_def work_inv_def heap_bytes_def upd_module_def)

lemma enqueue_module_inv [inv_intros]:
  assumes "chain_inv c" and "enqueue_module m data len src dir c = Some c'"
  shows "chain_inv c'"
proof (cases "owner c")
  case True
  then obtain i where c': "c' = c\<lparr>inflight := inflight c + 1,
      pool := tp_enqueue \<lparr>task_data = data, task_len = len, task_src = src, task_dir = dir, task_mod = i\<rparr> (pool c)\<rparr>"
    using assms(2) by (auto simp: enqueue_module_def split: bind_splits)
  show ?thesis using assms(1) by (rule chain_inv_cong) (simp_all add: c' tp_enqueue_def)
next
  case False
  then show ?thesis using assms free_buffer_inv by (simp add: enqueue_module_def)
qed

lemma push_packet_inv [inv_intros]:
  "chain_inv c \<Longrightarrow> push_packet K data len src dir (c, k) = Some (c', k') \<Longrightarrow> chain_inv c'"
  by (auto simp: push_packet_def Let_def split: if_splits bind_splits
      intro: free_buffer_inv enqueue_module_inv)

lemma write_packet_impl_inv [inv_intros]:
  "chain_inv c \<Longrightarrow> write_packet_impl K i dst data len (c, k) = Some (r, (c', k')) \<Longrightarrow> chain_inv c'"
  by (auto simp: write_packet_impl_def Let_def split: if_splits bind_splits
      intro: free_buffer_inv enqueue_module_inv)

section \<open>Modules keep what their interface keeps\<close>

text \<open>
  A predicate on the state that every function of the interface keeps is kept by every module: a
  module reaches the state only through its interface.
\<close>

locale api_invariant =
  fixes A :: "'w ModuleChain" and I :: "'w \<Rightarrow> bool"
  assumes malloc_keeps: "mc_malloc A n w = (p, w') \<Longrightarrow> I w \<Longrightarrow> I w'"
    and free_keeps: "mc_free A q w = Some w' \<Longrightarrow> I w \<Longrightarrow> I w'"
    and store_keeps: "mc_store A q off bs w = Some w' \<Longrightarrow> I w \<Longrightarrow> I w'"
    and write_keeps: "mc_write_packet A d q n w = Some (r, w') \<Longrightarrow> I w \<Longrightarrow> I w'"
    and outputs_keeps: "mc_request_outputs A m w = (r, w') \<Longrightarrow> I w \<Longrightarrow> I w'"
    and rand_keeps: "mc_rand A w = (m, w') \<Longrightarrow> I w \<Longrightarrow> I w'"
begin

lemmas api_keeps = malloc_keeps free_keeps store_keeps write_keeps outputs_keeps rand_keeps

lemma copy_process_keeps:
  "copy_process A ctx dir t data len w = Some (r, ctx', w') \<Longrightarrow> I w \<Longrightarrow> I w'"
  by (auto simp: copy_process_def Let_def split: option.splits if_splits prod.splits bind_splits
      dest!: api_keeps)

lemma b64_process_keeps:
  "b64_process enc dec A ctx dir t data len w = Some (r, ctx', w') \<Longrightarrow> I w \<Longrightarrow> I w'"
  by (auto simp: b64_process_def Let_def split: option.splits if_splits prod.splits bind_splits
      dest!: api_keeps)

lemma split_init_keeps: "split_init A config w = (ctx, w') \<Longrightarrow> I w \<Longrightarrow> I w'"
  by (auto simp: split_init_def Let_def split: prod.splits if_splits dest!: api_keeps)

lemma next_chunk_size_keeps: "next_chunk_size A ctx w = (n, w') \<Longrightarrow> I w \<Longrightarrow> I w'"
  by (auto simp: next_chunk_size_def Let_def split: prod.splits if_splits dest!: api_keeps)

lemma split_loop_keeps:
  assumes "split_loop A data sz offset chunks ctx w = Some y" and "I w"
  shows "I (snd (snd y))"
proof -
  have "A = A \<longrightarrow> I w \<longrightarrow> I (snd (snd y))"
    using assms(1)
    by (rule split_loop.raw_induct
          [where P = "\<lambda>A' data sz off ch ctx w y. A' = A \<longrightarrow> I w \<longrightarrow> I (snd (snd y))", rotated])
       (auto simp: Let_def split: if_splits prod.splits option.splits bind_splits
         dest!: api_keeps next_chunk_size_keeps)
  then show ?thesis using assms(2) by simp
qed

lemma flush_chunks_keeps: "flush_chunks A q off es w = Some w' \<Longrightarrow> I w \<Longrightarrow> I w'"
  by (induction es arbitrary: off w) (auto split: bind_splits dest!: api_keeps)

lemma merge_loop_keeps:
  assumes "merge_loop A ctx w = Some y" and "I w"
  shows "I (snd y)"
proof -
  have "A = A \<longrightarrow> I w \<longrightarrow> I (snd y)"
    using assms(1)
    by (rule merge_loop.raw_induct [where P = "\<lambda>A' ctx w y. A' = A \<longrightarrow> I w \<longrightarrow> I (snd y)", rotated])
       (auto simp: Let_def split: if_splits prod.splits option.splits bind_splits
         dest!: api_keeps flush_chunks_keeps)
  then show ?thesis using assms(2) by simp
qed

lemma split_process_keeps:
  assumes "split_process A ctx dir t data len w = Some (r, ctx', w')" and "I w"
  shows "I w'"
proof -
  have s: "I w'" if "process_split A ctx t data len w = Some (r, ctx', w')"
    using that assms(2)
    by (auto simp: process_split_def split: option.splits if_splits bind_splits sum.splits
        dest!: split_loop_keeps free_keeps)
  have m: "I w'" if "process_merge A ctx t data len w = Some (r, ctx', w')"
    using that assms(2)
    by (auto simp: process_merge_def drop_slot_def Let_def
        split: option.splits if_splits bind_splits prod.splits dest!: merge_loop_keeps api_keeps)
  show ?thesis using assms(1) s m by (auto simp: split_process_def split: if_splits)
qed

end

lemma alloc_buffer_pool [simp]: "alloc_buffer n c = (p, c') \<Longrightarrow> pool c' = pool c"
  by (auto simp: alloc_buffer_def split: list.splits bool.splits)

lemma free_buffer_pool: "free_buffer p c = Some c' \<Longrightarrow> pool c' = pool c"
  by (auto simp: free_buffer_def split: option.splits)

lemma store_buffer_pool: "store_buffer p off bs c = Some c' \<Longrightarrow> pool c' = pool c"
  by (auto simp: store_buffer_def split: option.splits if_splits)

lemma enqueue_module_running: "enqueue_module m p n s d c = Some c' \<Longrightarrow> running (pool c') = running (pool c)"
  by (auto simp: enqueue_module_def tp_enqueue_def split: if_splits bind_splits dest: free_buffer_pool)

lemma write_packet_impl_running:
  "write_packet_impl K i dst p n (c, k) = Some (r, (c', k')) \<Longrightarrow> running (pool c') = running (pool c)"
  by (auto simp: write_packet_impl_def Let_def split: if_splits bind_splits
      dest!: enqueue_module_running free_buffer_pool)

lemma upd_module_frame [simp, frame_simps]:
  "pool (upd_module i f c) = pool c" "cells (upd_module i f c) = cells c"
  "cancelled (upd_module i f c) = cancelled c" "owner (upd_module i f c) = owner c"
  "length (modules (upd_module i f c)) = length (modules c)"
  by (simp_all add: upd_module_def)

text \<open>The state between two calls of the interface while the tasks \<open>R\<close> are running.\<close>

abbreviation live :: "WorkTask list \<Rightarrow> ('c, 'k) world \<Rightarrow> bool" where
  "live R w \<equiv> chain_inv (fst w) \<and> running (pool (fst w)) = R"

interpretation chain_keeps: api_invariant "chain_api K i" "live R" for K i R
proof
  show "live R w'" if "mc_malloc (chain_api K i) n w = (p, w')" "live R w" for n w p w'
    using that by (auto simp: chain_api_def split: prod.splits dest: alloc_buffer_inv)
  show "live R w'" if "mc_free (chain_api K i) q w = Some w'" "live R w" for q w w'
    using that by (auto simp: chain_api_def split: prod.splits dest: free_buffer_inv free_buffer_pool)
  show "live R w'" if "mc_store (chain_api K i) q off bs w = Some w'" "live R w" for q off bs w w'
    using that by (auto simp: chain_api_def split: prod.splits dest: store_buffer_inv store_buffer_pool)
  show "live R w'" if "mc_write_packet (chain_api K i) d q n w = Some (r, w')" "live R w" for d q n w r w'
    using that write_packet_impl_inv [of "fst w" K i d q n "snd w" r "fst w'" "snd w'"]
      write_packet_impl_running [of K i d q n "fst w" "snd w" r "fst w'" "snd w'"]
    by (simp add: chain_api_def)
  show "live R w'" if "mc_request_outputs (chain_api K i) m w = (r, w')" "live R w" for m w r w'
    using that chain_inv_cong [of "fst w" "fst w'"]
    by (auto simp: chain_api_def request_outputs_impl_def split: prod.splits if_splits)
  show "live R w'" if "mc_rand (chain_api K i) w = (m, w')" "live R w" for w m w'
    using that chain_inv_cong [of "fst w" "fst w'"]
    by (auto simp: chain_api_def chain_rand_def split: prod.splits list.splits)
qed

text \<open>A registry whose modules keep the invariants; the modelled modules do.\<close>

definition base_ok :: "('c, 'k) ModuleBase \<Rightarrow> bool" where
  "base_ok base \<longleftrightarrow> (\<forall>K i R.
     (\<forall>ctx dir src data len w r ctx' w'.
        process_fn base (chain_api K i) ctx dir src data len w = Some (r, ctx', w') \<longrightarrow> live R w \<longrightarrow> live R w')
     \<and> (\<forall>config w ctx w'. init_fn base (chain_api K i) config w = Some (ctx, w') \<longrightarrow> live R w \<longrightarrow> live R w'))"

definition bases_ok :: "('c, 'k) bases \<Rightarrow> bool" where
  "bases_ok B \<longleftrightarrow> (\<forall>name base. B name = Some base \<longrightarrow> base_ok base)"

lemma copy_base_ok: "base_ok (copy_base h)"
  unfolding base_ok_def copy_base_def
  using chain_keeps.copy_process_keeps by (fastforce split: module_ctx.splits)

lemma split_base_ok: "base_ok (split_base h)"
  unfolding base_ok_def split_base_def
  using chain_keeps.split_process_keeps chain_keeps.split_init_keeps
  by (fastforce split: module_ctx.splits prod.splits)

lemma b64_base_ok: "base_ok (b64_base enc dec h)"
  unfolding base_ok_def b64_base_def
  using chain_keeps.b64_process_keeps by (fastforce split: module_ctx.splits)

lemma std_bases_ok: "bases_ok std_bases"
  by (simp add: bases_ok_def std_bases_def copy_base_ok split_base_ok)

lemma bases_okD:
  assumes "process_fn base (chain_api K i) ctx dir src data len w = Some (r, ctx', w')"
    and "B name = Some base" and "bases_ok B" and "live R w"
  shows "live R w'"
  using assms unfolding bases_ok_def base_ok_def by blast

lemma call_process_inv:
  assumes "bases_ok B" and "live R w" and "call_process B K i dir src data len w = Some (r, w')"
  shows "live R w'"
proof -
  note keep = bases_okD [OF _ _ assms(1,2)]
  show ?thesis using assms(3) by (auto simp: call_process_def split: bind_splits dest: keep)
qed

lemma task_done_inv:
  assumes "chain_inv c" and "t \<in> set (running (pool c))"
  shows "chain_inv (task_done t c)"
proof -
  have "length (running (pool c)) = Suc (length (remove1 t (running (pool c))))"
    using assms(2) length_pos_if_in_set [OF assms(2)] by (simp add: length_remove1)
  then show ?thesis
    by (intro chain_inv_cong [OF assms(1)]) (simp_all add: task_done_def tp_done_def)
qed

lemma run_task_inv:
  assumes "bases_ok B" and "chain_inv c" and "t \<in> set (running (pool c))"
    and "run_task B K now t (c, k) = Some w'"
  shows "chain_inv (fst w')"
proof (cases "cancelled c")
  case True
  then obtain c1 where "free_buffer (task_data t) c = Some c1" "w' = (task_done t c1, k)"
    using assms(4) by (auto simp: run_task_def split: bind_splits)
  then show ?thesis using assms(2,3) free_buffer_inv free_buffer_pool task_done_inv by (metis fst_conv)
next
  case False
  let ?c = "upd_module (task_mod t) (\<lambda>m. m\<lparr>last_activity := now\<rparr>) (c\<lparr>ctx_src_idx := task_src t\<rparr>)"
  have "chain_inv (c\<lparr>ctx_src_idx := task_src t\<rparr>)" by (rule chain_inv_cong [OF assms(2)]) simp_all
  then have l: "live (running (pool c)) (?c, k)" by simp
  obtain r c1 k1 where p: "call_process B K (task_mod t) (task_dir t) (task_src t) (Some (task_data t)) (task_len t) (?c, k)
      = Some (r, (c1, k1))"
    using assms(4) False by (auto simp: run_task_def Let_def split: bind_splits)
  have l1: "chain_inv c1" "t \<in> set (running (pool c1))" using call_process_inv [OF assms(1) l p] assms(3) by simp_all
  show ?thesis
  proof (cases "r < 0")
    case True
    then obtain c2 where "free_buffer (task_data t) c1 = Some c2" "w' = (task_done t c2, k1)"
      using assms(4) False p by (auto simp: run_task_def Let_def split: bind_splits)
    then show ?thesis using l1 free_buffer_inv free_buffer_pool task_done_inv by (metis fst_conv)
  next
    case False2: False
    then have "w' = (task_done t c1, k1)" using assms(4) False p by (simp add: run_task_def Let_def)
    then show ?thesis using l1 task_done_inv by simp
  qed
qed

lemma worker_step_inv [inv_intros]:
  assumes "bases_ok B" and "chain_inv (fst w)" and "worker_step B K now w = Some w'"
  shows "chain_inv (fst w')"
proof (cases "tp_take (pool (fst w))")
  case None
  then show ?thesis using assms by (simp add: worker_step_def)
next
  case (Some tt)
  then obtain t tp where t: "tp_take (pool (fst w)) = Some (t, tp)" by (cases tt) simp
  then have "chain_inv ((fst w)\<lparr>pool := tp\<rparr>)"
    by (intro chain_inv_cong [OF assms(2)]) (auto simp: tp_take_Some)
  moreover have "t \<in> set (running tp)" using t by (auto simp: tp_take_Some)
  ultimately show ?thesis
    using run_task_inv [OF assms(1), of "(fst w)\<lparr>pool := tp\<rparr>" t K now "snd w" w'] assms(3) t
    by (simp add: worker_step_def)
qed

lemma worker_steps_inv:
  "bases_ok B \<Longrightarrow> chain_inv (fst w) \<Longrightarrow> worker_steps n B K now w = Some w' \<Longrightarrow> chain_inv (fst w')"
  by (induction n arbitrary: w) (auto split: bind_splits dest: worker_step_inv)

lemma heartbeats_inv [inv_intros]:
  assumes "bases_ok B" and "chain_inv (fst w)" and "check_module_heartbeats B K ms now w = Some w'"
  shows "chain_inv (fst w')"
proof -
  have one: "chain_inv (fst w')"
    if "chain_inv (fst w)" "module_heartbeat B K ms now i w = Some w'" for i and w w' :: "('a, 'b) world"
  proof -
    have keep: "chain_inv (fst v')" if "call_process B K i (-1) 0 None 0 v = Some (r, v')" "chain_inv (fst v)" for v r v'
      using call_process_inv [OF assms(1) _ that(1), of "running (pool (fst v))"] that(2) by simp
    show ?thesis using that
      by (auto simp: module_heartbeat_def Let_def split: if_splits bind_splits dest!: keep)
  qed
  have "chain_inv (fst w')"
    if "chain_inv (fst w)" "heartbeat_loop B K ms now is w = Some w'" for "is" and w w' :: "('a, 'b) world"
    using that by (induction "is" arbitrary: w) (auto split: bind_splits dest: one)
  then show ?thesis using assms(2,3) by (simp add: check_module_heartbeats_def)
qed

lemma chain_inv_fields [simp]:
  "chain_inv (c\<lparr>modules := ms\<rparr>) \<longleftrightarrow> chain_inv c" "chain_inv (c\<lparr>wire_entries := we\<rparr>) \<longleftrightarrow> chain_inv c"
  "chain_inv (c\<lparr>entry_ext := e\<rparr>) \<longleftrightarrow> chain_inv c" "chain_inv (c\<lparr>requested_outputs := ro\<rparr>) \<longleftrightarrow> chain_inv c"
  "chain_inv (c\<lparr>cancelled := b\<rparr>) \<longleftrightarrow> chain_inv c"
  by (simp_all add: chain_inv_def heap_inv_def bp_inv_def work_inv_def heap_bytes_def)

lemma create_one_inv:
  assumes "create_one B K now spec i w = Some (okay, w')" and "bases_ok B" and "live R w"
  shows "live R w'"
proof (cases "B (ms_name spec)")
  case None
  then show ?thesis using assms by (simp add: create_one_def)
next
  case (Some base)
  have keep: "live R w'" if "init_fn base (chain_api K j) config w = Some (ctx, w')" "live R w" for j config w ctx w'
    using that assms(2) Some unfolding bases_ok_def base_ok_def by blast
  show ?thesis
    using assms(1,3) Some
    by (auto simp: create_one_def Let_def split: prod.splits bind_splits option.splits dest!: keep)
qed

lemma build_main_inv:
  "build_main B K now ss i w = Some (okay, w') \<Longrightarrow> bases_ok B \<Longrightarrow> live R w \<Longrightarrow> live R w'"
  by (induction ss arbitrary: i w) (auto split: bind_splits if_splits dest!: create_one_inv)

lemma build_sub_inv:
  "build_sub B K now ss md pm fs w = Some (okay, f, l, w') \<Longrightarrow> bases_ok B \<Longrightarrow> live R w \<Longrightarrow> live R w'"
proof (induction ss arbitrary: pm fs w)
  case (Cons s ss)
  then show ?case
    by (cases s) (auto simp: Let_def split: bind_splits if_splits dest!: create_one_inv)
qed simp

lemma build_outputs_inv:
  "build_outputs B K now ss md n k port w = Some (okay, p, w') \<Longrightarrow> bases_ok B \<Longrightarrow> live R w \<Longrightarrow> live R w'"
  by (induction n arbitrary: k port w) (auto simp: Let_def split: bind_splits if_splits dest!: build_sub_inv)

lemma build_requests_inv:
  "build_requests B K now cfg ps port w = Some (okay, p, w') \<Longrightarrow> bases_ok B \<Longrightarrow> live R w \<Longrightarrow> live R w'"
proof (induction ps arbitrary: port w)
  case (Cons x ps)
  then show ?case
    by (cases x) (auto simp: Let_def split: bind_splits if_splits dest!: build_outputs_inv)
qed simp

lemma build_loop_inv:
  assumes "build_loop B K order now cfg port w = Some w'" and "bases_ok B" and "live R w"
  shows "live R w'"
proof -
  have "bases_ok B \<longrightarrow> live R w \<longrightarrow> live R w'"
    using assms(1)
    by (rule build_loop.raw_induct
        [where P = "\<lambda>B K order now cfg port w w'. bases_ok B \<longrightarrow> live R w \<longrightarrow> live R w'", rotated])
       (auto split: bind_splits if_splits dest!: build_requests_inv)
  then show ?thesis using assms(2,3) by simp
qed

lemma chain_new_inv:
  assumes "chain_new B K order now cfg w = Some w'" and "bases_ok B" and "live R w"
  shows "live R w'"
  using assms
  by (auto simp: chain_new_def link_main_def Let_def split: bind_splits if_splits dest!: build_main_inv build_loop_inv)

lemma chain_empty_inv: "chain_inv chain_empty"
  by (simp add: chain_empty_def chain_inv_def heap_inv_def bp_inv_def work_inv_def heap_bytes_def tp_new_def less_2_cases_iff)

section \<open>Histories of a chain\<close>

text \<open>
  What the owner of a chain and the workers do with it: the owner allocates, fills, frees and pushes
  buffers, cancels the chain and drives the heartbeats, the workers run tasks.
\<close>

datatype chain_op =
    OpAlloc nat
  | OpStore ptr nat bytes
  | OpFree ptr
  | OpPush ptr nat int int
  | OpWork
  | OpHeartbeats int
  | OpCancel
  | OpStartWorkers nat

fun chain_op_step ::
  "('c, 'k) bases \<Rightarrow> 'k KernelAPI \<Rightarrow> millis \<Rightarrow> chain_op \<Rightarrow> ('c, 'k) world \<Rightarrow> ('c, 'k) world option" where
  "chain_op_step B K now (OpAlloc n) w = Some (snd (alloc_buffer n (fst w)), snd w)"
| "chain_op_step B K now (OpStore p off bs) w = map_option (\<lambda>c. (c, snd w)) (store_buffer p off bs (fst w))"
| "chain_op_step B K now (OpFree p) w = map_option (\<lambda>c. (c, snd w)) (free_buffer p (fst w))"
| "chain_op_step B K now (OpPush p len src dir) w = push_packet K p len src dir w"
| "chain_op_step B K now OpWork w = worker_step B K now w"
| "chain_op_step B K now (OpHeartbeats ms) w = check_module_heartbeats B K ms now w"
| "chain_op_step B K now OpCancel w = Some (cancel (fst w), snd w)"
| "chain_op_step B K now (OpStartWorkers n) w = Some ((fst w)\<lparr>pool := tp_start n (pool (fst w))\<rparr>, snd w)"

inductive chain_reach :: "('c, 'k) bases \<Rightarrow> 'k KernelAPI \<Rightarrow> ('c, 'k) world \<Rightarrow> bool" for B K where
  new: "chain_new B K order now cfg (chain_empty\<lparr>oom := fails, rands := rs\<rparr>, k) = Some w \<Longrightarrow> chain_reach B K w"
| step: "chain_reach B K w \<Longrightarrow> chain_op_step B K now op w = Some w' \<Longrightarrow> chain_reach B K w'"

fun chain_ops ::
  "('c, 'k) bases \<Rightarrow> 'k KernelAPI \<Rightarrow> millis \<Rightarrow> chain_op list \<Rightarrow> ('c, 'k) world \<Rightarrow> ('c, 'k) world option" where
  "chain_ops B K now [] w = Some w"
| "chain_ops B K now (op # ops) w = Option.bind (chain_op_step B K now op w) (chain_ops B K now ops)"

lemma chain_ops_reach: "chain_reach B K w \<Longrightarrow> chain_ops B K now ops w = Some w' \<Longrightarrow> chain_reach B K w'"
  by (induction ops arbitrary: w) (auto split: bind_splits intro: chain_reach.step)

lemma chain_op_step_inv:
  assumes "chain_op_step B K now op w = Some w'" and "bases_ok B" and "chain_inv (fst w)"
  shows "chain_inv (fst w')"
proof (cases op)
  case (OpAlloc n)
  then show ?thesis using assms alloc_buffer_inv by (metis chain_op_step.simps(1) fst_conv option.inject prod.collapse)
next
  case (OpPush p len src dir)
  then show ?thesis using assms push_packet_inv by (cases w, cases w') auto
next
  case (OpStartWorkers n)
  have "chain_inv ((fst w)\<lparr>pool := tp_start n (pool (fst w))\<rparr>)"
    by (rule chain_inv_cong [OF assms(3)]) (simp_all add: tp_start_def)
  then show ?thesis using assms(1) OpStartWorkers by auto
qed (use assms in \<open>auto simp: cancel_def dest: store_buffer_inv free_buffer_inv worker_step_inv heartbeats_inv\<close>)

lemma chain_reach_inv: "chain_reach B K w \<Longrightarrow> bases_ok B \<Longrightarrow> chain_inv (fst w)"
proof (induction rule: chain_reach.induct)
  case (new order now cfg rs fails k w)
  have "chain_inv (chain_empty\<lparr>oom := fails, rands := rs\<rparr> :: 'a Chain)"
    by (rule chain_inv_cong [OF chain_empty_inv]) simp_all
  then show ?case using chain_new_inv [OF new.hyps new.prems, of "[]"] by (simp add: chain_empty_def tp_new_def)
next
  case (step w now op w')
  then show ?case using chain_op_step_inv by blast
qed



section \<open>The kernel of the module tester\<close>

text \<open>\<open>src/module_tester/main.cpp\<close>: module ids count up, what leaves the chain is collected.\<close>

record TesterKernel =
  captured :: bytes
  next_id :: int

definition tester_alloc_id :: "TesterKernel \<Rightarrow> int \<times> TesterKernel" where
  "tester_alloc_id tk = (next_id tk, tk\<lparr>next_id := next_id tk + 1\<rparr>)"

definition tester_wire_write :: "int \<Rightarrow> bytes \<Rightarrow> TesterKernel \<Rightarrow> (int \<times> TesterKernel) option" where
  "tester_wire_write dst data tk = Some (int32 (int (length data)), tk\<lparr>captured := captured tk @ data\<rparr>)"

definition tester_kapi :: "TesterKernel KernelAPI" where
  "tester_kapi = \<lparr>ka_alloc_module_id = tester_alloc_id, ka_wire_write = tester_wire_write\<rparr>"

definition tester_start :: TesterKernel where
  "tester_start = \<lparr>captured = [], next_id = 0\<rparr>"

definition demo_cfg :: ChainConfig where
  "demo_cfg = cfg_default\<lparr>cc_modules := [copy_spec, \<lparr>ms_name = ''split'', ms_params = ''n:2 s:64''\<rparr>, copy_spec]\<rparr>"

definition demo_chain :: "(module_ctx, TesterKernel) world" where
  "demo_chain = the (chain_new std_bases tester_kapi (\<lambda>x. x) 0 demo_cfg (chain_empty, tester_start))"

lemma demo_chain_new:
  "chain_new std_bases tester_kapi (\<lambda>x. x) 0 demo_cfg (chain_empty, tester_start) = Some demo_chain"
proof -
  have "\<not> Option.is_none (chain_new std_bases tester_kapi (\<lambda>x. x) 0 demo_cfg (chain_empty, tester_start))"
    by code_simp
  then show ?thesis by (auto simp: demo_chain_def Option.is_none_def)
qed

lemma demo_chain_reach: "chain_reach std_bases tester_kapi demo_chain"
proof -
  have e: "chain_empty\<lparr>oom := [], rands := []\<rparr> = chain_empty" by (simp add: chain_empty_def)
  show ?thesis
    by (rule chain_reach.new [of _ _ "\<lambda>x. x" 0 demo_cfg "[]" "[]" tester_start]) (simp only: e demo_chain_new)
qed


section \<open>Destruction\<close>

definition tasks_owned :: "'c Chain \<Rightarrow> bool" where
  "tasks_owned c \<longleftrightarrow> distinct (map task_data (queue (pool c)))
     \<and> (\<forall>t \<in> set (queue (pool c)). cells c (task_data t) \<noteq> None)"

lemma cancelled_step:
  assumes "cancelled c" and "queue (pool c) = t # ts" and "\<not> shutdown (pool c)" and "0 < workers (pool c)"
    and "running (pool c) = []" and "cells c (task_data t) = Some b"
  obtains c' where "worker_step B K now (c, k) = Some (c', k)" "queue (pool c') = ts" "running (pool c') = []"
    "workers (pool c') = workers (pool c)" "\<not> shutdown (pool c')" "cancelled c'" "inflight c' = inflight c - 1"
    "cells c' = (cells c)(task_data t := None)"
proof -
  let ?c = "c\<lparr>pool := (pool c)\<lparr>queue := ts, running := [t]\<rparr>\<rparr>"
  obtain c1 where c1: "free_buffer (task_data t) ?c = Some c1" using assms(6) by (simp add: free_buffer_def)
  then have f: "pool c1 = pool ?c" "cancelled c1" "inflight c1 = inflight c" "cells c1 = (cells c)(task_data t := None)"
    using assms(1,6) by (auto simp: free_buffer_def)
  show thesis
  proof (rule that)
    show "worker_step B K now (c, k) = Some (task_done t c1, k)"
      using assms c1 by (simp add: worker_step_def tp_take_def run_task_def)
  qed (use f assms(3) in \<open>simp_all add: task_done_def tp_done_def\<close>)
qed

lemma cancelled_drain:
  "cancelled c \<Longrightarrow> \<not> shutdown (pool c) \<Longrightarrow> 0 < workers (pool c) \<Longrightarrow> running (pool c) = [] \<Longrightarrow>
   tasks_owned c \<Longrightarrow>
   \<exists>c'. worker_steps (length (queue (pool c))) B K now (c, k) = Some (c', k) \<and> queue (pool c') = []
     \<and> running (pool c') = [] \<and> inflight c' = inflight c - int (length (queue (pool c)))
     \<and> cells c' = (\<lambda>p. if p \<in> task_data ` set (queue (pool c)) then None else cells c p)"
proof (induction "queue (pool c)" arbitrary: c)
  case Nil
  then show ?case by (simp add: Nil.hyps [symmetric])
next
  case (Cons t ts)
  then obtain b where b: "cells c (task_data t) = Some b"
    by (auto simp: tasks_owned_def Cons.hyps(2) [symmetric])
  obtain c1 where c1: "worker_step B K now (c, k) = Some (c1, k)" "queue (pool c1) = ts" "running (pool c1) = []"
      "workers (pool c1) = workers (pool c)" "\<not> shutdown (pool c1)" "cancelled c1" "inflight c1 = inflight c - 1"
      "cells c1 = (cells c)(task_data t := None)"
    by (rule cancelled_step [OF Cons.prems(1) Cons.hyps(2) [symmetric] Cons.prems(2-4) b, of B K now k])
  have "tasks_owned c1"
    using Cons.prems(5) unfolding tasks_owned_def Cons.hyps(2) [symmetric] c1(2,8) by (auto simp: image_iff)
  then obtain c2 where c2: "worker_steps (length ts) B K now (c1, k) = Some (c2, k)" "queue (pool c2) = []"
      "running (pool c2) = []" "inflight c2 = inflight c1 - int (length ts)"
      "cells c2 = (\<lambda>p. if p \<in> task_data ` set ts then None else cells c1 p)"
    using Cons.hyps(1) [OF c1(2) [symmetric] c1(6,5) _ c1(3)] Cons.prems(3) c1(2,4) by auto
  then show ?case
    by (intro exI [of _ c2]) (auto simp: Cons.hyps(2) [symmetric] c1(1,7,8) fun_eq_iff)
qed

text \<open>
  C21: the destructor returns: after \<open>cancel\<close> the workers need one step per queued task, each frees
  its buffer, nothing more is written to the wire, and the chain is drained.
\<close>

theorem chain_destroy_drains:
  assumes "chain_inv c" and "tasks_owned c" and "running (pool c) = []"
    and "\<not> shutdown (pool c)" and "0 < workers (pool c)"
  shows "\<exists>c'. chain_destroy (length (queue (pool c))) B K now (c, k) = Some (c', k) \<and> is_drained c'
    \<and> queue (pool c') = []
    \<and> cells c' = (\<lambda>p. if p \<in> task_data ` set (queue (pool c)) then None else cells c p)"
proof -
  have f: "pool (cancel c) = pool c" "cells (cancel c) = cells c" "cancelled (cancel c)" "inflight (cancel c) = inflight c"
    by (simp_all add: cancel_def)
  have own: "tasks_owned (cancel c)" using assms(2) by (simp add: tasks_owned_def f)
  have run: "running (pool (cancel c)) = []" "\<not> shutdown (pool (cancel c))" "0 < workers (pool (cancel c))"
    using assms(3-5) by (simp_all add: f)
  obtain c' where c': "worker_steps (length (queue (pool (cancel c)))) B K now (cancel c, k) = Some (c', k)"
      "queue (pool c') = []" "inflight c' = inflight (cancel c) - int (length (queue (pool (cancel c))))"
      "cells c' = (\<lambda>p. if p \<in> task_data ` set (queue (pool (cancel c))) then None else cells (cancel c) p)"
    using cancelled_drain [OF f(3) run(2,3,1) own, of B K now k] by blast
  have "inflight c' = 0" using c'(3) assms(1,3) by (simp add: chain_inv_def work_inv_def f)
  then show ?thesis using c' by (auto simp: chain_destroy_def is_drained_def f)
qed

text \<open>A demonstration state: one packet of three bytes pushed towards the wire.\<close>

definition demo_pushed :: "(module_ctx, TesterKernel) world" where
  "demo_pushed = the (chain_ops std_bases tester_kapi 0 [OpStartWorkers 1, OpAlloc 3, OpPush 0 3 0 0] demo_chain)"

lemma demo_pushed_reach: "chain_reach std_bases tester_kapi demo_pushed"
proof -
  have "\<not> Option.is_none (chain_ops std_bases tester_kapi 0 [OpStartWorkers 1, OpAlloc 3, OpPush 0 3 0 0] demo_chain)"
    by code_simp
  then have "chain_ops std_bases tester_kapi 0 [OpStartWorkers 1, OpAlloc 3, OpPush 0 3 0 0] demo_chain = Some demo_pushed"
    unfolding demo_pushed_def Option.is_none_def by (simp only: option.collapse not_False_eq_True)
  then show ?thesis by (rule chain_ops_reach [OF demo_chain_reach])
qed

theorem chain_destroy_drains_witness:
  "\<exists>c'. chain_destroy (length (queue (pool (fst demo_pushed)))) std_bases tester_kapi 0 (fst demo_pushed, tester_start)
       = Some (c', tester_start) \<and> is_drained c' \<and> \<not> is_drained (fst demo_pushed)"
proof -
  have q: "map task_data (queue (pool (fst demo_pushed))) = [0]" "running (pool (fst demo_pushed)) = []"
      "\<not> shutdown (pool (fst demo_pushed))" "0 < workers (pool (fst demo_pushed))"
      "cells (fst demo_pushed) 0 = Some [0, 0, 0]" "\<not> is_drained (fst demo_pushed)" by code_simp+
  have "chain_inv (fst demo_pushed)" by (rule chain_reach_inv [OF demo_pushed_reach std_bases_ok])
  moreover have "tasks_owned (fst demo_pushed)" using q(1,5) by (auto simp: tasks_owned_def)
  ultimately show ?thesis
    using chain_destroy_drains [of "fst demo_pushed" std_bases tester_kapi 0 tester_start] q by blast
qed

end
