(* ===== verification/Chain_Modules.thy ===== *)
theory Chain_Modules
  imports Chain_Inv
begin

text \<open>
  The chain as the environment of its modules: the interface \<open>chain_api\<close> of a module whose outputs
  lead to other modules satisfies the laws of \<open>module_env\<close>.  What the module owns are the buffers
  that are not queued; what it emits is the queue.  With this interpretation the lemmas about
  splitting and merging hold for the chain of \<open>src/core/chain.cpp\<close>.
\<close>

section \<open>The chain provides the module environment\<close>

definition queued_ptrs :: "'c Chain \<Rightarrow> ptr set" where
  "queued_ptrs c = task_data ` set (queue (pool c))"

definition chain_wf :: "'c Module list \<Rightarrow> int \<Rightarrow> ('c, 'k) world \<Rightarrow> bool" where
  "chain_wf ms s w \<longleftrightarrow> chain_inv (fst w) \<and> owner (fst w) \<and> True \<notin> set (oom (fst w)) \<and> modules (fst w) = ms
     \<and> ctx_src_idx (fst w) = s \<and> tasks_owned (fst w)"

definition owned :: "('c, 'k) world \<Rightarrow> ptr \<rightharpoonup> bytes" where
  "owned w p = (if p \<in> queued_ptrs (fst w) then None else cells (fst w) p)"

text \<open>The queue as the packets it carries: receiving module, source index, direction, contents.\<close>

definition queued_packets :: "('c, 'k) world \<Rightarrow> (nat \<times> int \<times> int \<times> bytes) list" where
  "queued_packets w = map (\<lambda>t. (task_mod t, task_src t, task_dir t,
     take (task_len t) (the (cells (fst w) (task_data t))))) (queue (pool (fst w)))"

definition chain_obs :: "'c Module list \<Rightarrow> nat \<Rightarrow> int \<Rightarrow> int \<Rightarrow> bytes \<Rightarrow> nat \<times> int \<times> int \<times> bytes" where
  "chain_obs ms i s d b = (the (near (ms ! i) ! nat d), s, (if d = 0 then 1 else 0), b)"

definition linked :: "'c Module list \<Rightarrow> nat \<Rightarrow> int set" where
  "linked ms i = {d. i < length ms \<and> 0 \<le> d \<and> d < int (length (near (ms ! i)))
     \<and> (\<exists>j. near (ms ! i) ! nat d = Some j \<and> j < length ms)}"

lemma packets_cong:
  assumes "queue (pool c') = queue (pool c)" and "\<And>p. p \<in> queued_ptrs c \<Longrightarrow> cells c' p = cells c p"
  shows "queued_packets (c', k') = queued_packets (c, k)"
  using assms by (auto simp: queued_packets_def queued_ptrs_def)

lemma tasks_owned_cong:
  assumes "tasks_owned c" and "queue (pool c') = queue (pool c)"
    and "\<And>p. p \<in> queued_ptrs c \<Longrightarrow> cells c' p = cells c p"
  shows "tasks_owned c'"
  using assms by (auto simp: tasks_owned_def queued_ptrs_def)

lemma tasks_owned_cells: "tasks_owned c \<Longrightarrow> p \<in> queued_ptrs c \<Longrightarrow> cells c p \<noteq> None"
  by (auto simp: tasks_owned_def queued_ptrs_def)

lemma owned_SomeD: "owned w p = Some b \<Longrightarrow> p \<notin> queued_ptrs (fst w) \<and> cells (fst w) p = Some b"
  by (auto simp: owned_def split: if_splits)

text \<open>
  A step that leaves the queue alone and changes only one buffer that is not queued changes what is
  owned at that place and nothing else.
\<close>

lemma chain_wf_step:
  assumes "chain_wf ms s w" and "p \<notin> queued_ptrs (fst w)" and "chain_inv c'"
    and "cells c' = (cells (fst w))(p := v)" and "queue (pool c') = queue (pool (fst w))"
    and "owner c' = owner (fst w)" and "set (oom c') \<subseteq> set (oom (fst w))"
    and "modules c' = modules (fst w)" and "ctx_src_idx c' = ctx_src_idx (fst w)"
  shows "chain_wf ms s (c', k) \<and> owned (c', k) = (owned w)(p := v)
    \<and> queued_packets (c', k) = queued_packets w"
proof -
  have same: "\<And>q. q \<in> queued_ptrs (fst w) \<Longrightarrow> cells c' q = cells (fst w) q"
    using assms(2,4) by auto
  have q: "queued_ptrs c' = queued_ptrs (fst w)" using assms(5) by (simp add: queued_ptrs_def)
  have "queued_packets (c', k) = queued_packets w"
    using packets_cong [OF assms(5) same, of k "snd w"] by simp
  moreover have "chain_wf ms s (c', k)"
    using assms tasks_owned_cong [OF _ assms(5) same] unfolding chain_wf_def by auto
  moreover have "owned (c', k) = (owned w)(p := v)"
    using assms(2,4) q by (auto simp: owned_def fun_eq_iff)
  ultimately show ?thesis by blast
qed

lemma alloc_buffer_ok:
  assumes "True \<notin> set (oom c)"
  shows "alloc_buffer n c = (Some (next_ptr c), check_backpressure
    (c\<lparr>oom := tl (oom c), cells := (cells c)(next_ptr c \<mapsto> replicate n 0),
       next_ptr := next_ptr c + 1, bytes_allocated := bytes_allocated c + int n\<rparr>))"
  using assms by (cases "oom c" rule: list.exhaust; cases "hd (oom c)") (auto simp: alloc_buffer_def)

lemma write_packet_linked:
  assumes "modules c = ms" and "owner c" and "i < length ms" and "0 \<le> d" and "d < int (length (near (ms ! i)))"
    and "near (ms ! i) ! nat d = Some j" and "j < length ms"
  shows "write_packet_impl K i d p n (c, k) = Some (0, (c\<lparr>inflight := inflight c + 1,
    pool := tp_enqueue \<lparr>task_data = p, task_len = n, task_src = ctx_src_idx c,
      task_dir = (if d = 0 then 1 else 0), task_mod = j\<rparr> (pool c)\<rparr>, k))"
  using assms by (simp add: write_packet_impl_def module_at_def enqueue_module_def)

lemma rands_irrelevant [simp]:
  "chain_wf ms s (c\<lparr>rands := r\<rparr>, k) = chain_wf ms s (c, k)" "owned (c\<lparr>rands := r\<rparr>, k) = owned (c, k)"
  "queued_packets (c\<lparr>rands := r\<rparr>, k) = queued_packets (c, k)"
  by (simp_all add: chain_wf_def chain_inv_def heap_inv_def bp_inv_def work_inv_def heap_bytes_def
      tasks_owned_def owned_def queued_ptrs_def queued_packets_def fun_eq_iff)

lemma chain_wf_enqueue:
  assumes wf: "chain_wf ms s (c, k)" and p: "p \<notin> queued_ptrs c" "cells c p = Some b"
    and t: "task_data t = p" "task_len t = length b"
    and c': "c' = c\<lparr>inflight := inflight c + 1, pool := tp_enqueue t (pool c)\<rparr>"
  shows "chain_wf ms s (c', k) \<and> owned (c', k) = (owned (c, k))(p := None)
    \<and> queued_packets (c', k) = queued_packets (c, k) @ [(task_mod t, task_src t, task_dir t, b)]"
proof (intro conjI)
  have inv: "chain_inv c" "tasks_owned c" using wf by (simp_all add: chain_wf_def)
  have q: "queue (pool c') = queue (pool c) @ [t]" by (simp add: c' tp_enqueue_def)
  have "chain_inv c'" by (rule chain_inv_cong [OF inv(1)]) (simp_all add: c' tp_enqueue_def)
  moreover have "tasks_owned c'"
    using inv(2) p t(1) unfolding tasks_owned_def q queued_ptrs_def by (simp add: c')
  ultimately show "chain_wf ms s (c', k)" using wf by (simp add: chain_wf_def c')
  have "queued_ptrs c' = insert p (queued_ptrs c)" by (simp add: queued_ptrs_def q t(1))
  then show "owned (c', k) = (owned (c, k))(p := None)" by (simp add: owned_def c' fun_eq_iff)
  show "queued_packets (c', k) = queued_packets (c, k) @ [(task_mod t, task_src t, task_dir t, b)]"
    using p(2) t by (simp add: queued_packets_def q) (simp add: c')
qed

interpretation chain_env: module_env "chain_api K i" "chain_wf ms s" owned queued_packets
    "chain_obs ms i s" "linked ms i" for K :: "'k KernelAPI" and i and ms :: "'c Module list" and s
proof
  fix w :: "('c, 'k) world" and n
  assume wf: "chain_wf ms s w"
  let ?c = "fst w" and ?p = "next_ptr (fst w)"
  obtain c' where c': "alloc_buffer n ?c = (Some ?p, c')" "cells c' = (cells ?c)(?p := Some (replicate n 0))"
      "pool c' = pool ?c" "owner c' = owner ?c" "set (oom c') \<subseteq> set (oom ?c)" "modules c' = modules ?c"
      "ctx_src_idx c' = ctx_src_idx ?c"
    using wf by (cases "oom ?c") (auto simp: alloc_buffer_ok chain_wf_def)
  have fresh: "cells ?c ?p = None" using wf by (simp add: chain_wf_def chain_inv_def heap_inv_def)
  then have nq: "?p \<notin> queued_ptrs ?c" using wf tasks_owned_cells [of ?c ?p] by (auto simp: chain_wf_def)
  have "chain_inv c'" using alloc_buffer_inv [OF _ c'(1)] wf by (simp add: chain_wf_def)
  from chain_wf_step [OF wf nq this c'(2) _ c'(4-7), of "snd w"] c'(1,3) fresh nq
  show "\<exists>p w' b. mc_malloc (chain_api K i) n w = (Some p, w') \<and> chain_wf ms s w' \<and> owned w p = None
      \<and> length b = n \<and> owned w' = (owned w)(p \<mapsto> b) \<and> queued_packets w' = queued_packets w"
    by (intro exI [of _ ?p] exI [of _ "(c', snd w)"] exI [of _ "replicate n 0"])
       (auto simp: chain_api_def owned_def split: prod.splits)
next
  fix w :: "('c, 'k) world" and p b
  assume wf: "chain_wf ms s w" and own: "owned w p = Some b"
  let ?c = "fst w"
  have p: "p \<notin> queued_ptrs ?c" "cells ?c p = Some b" using owned_SomeD [OF own] by simp_all
  then obtain c' where c': "free_buffer p ?c = Some c'" "cells c' = (cells ?c)(p := None)"
      "pool c' = pool ?c" "owner c' = owner ?c" "set (oom c') \<subseteq> set (oom ?c)" "modules c' = modules ?c"
      "ctx_src_idx c' = ctx_src_idx ?c" by (simp add: free_buffer_def)
  have "chain_inv c'" using free_buffer_inv [OF _ c'(1)] wf by (simp add: chain_wf_def)
  from chain_wf_step [OF wf p(1) this c'(2) _ c'(4-7), of "snd w"] c'(1,3)
  show "\<exists>w'. mc_free (chain_api K i) p w = Some w' \<and> chain_wf ms s w'
      \<and> owned w' = (owned w)(p := None) \<and> queued_packets w' = queued_packets w"
    by (intro exI [of _ "(c', snd w)"]) (auto simp: chain_api_def split: prod.splits)
next
  fix w :: "('c, 'k) world" and p b
  assume "owned w p = Some b"
  then show "mc_load (chain_api K i) p w = Some b"
    using owned_SomeD by (fastforce simp: chain_api_def split: prod.splits)
next
  fix w :: "('c, 'k) world" and p b off and bs :: bytes
  assume wf: "chain_wf ms s w" and own: "owned w p = Some b" and len: "off + length bs \<le> length b"
  let ?c = "fst w"
  have p: "p \<notin> queued_ptrs ?c" "cells ?c p = Some b" using owned_SomeD [OF own] by simp_all
  then obtain c' where c': "store_buffer p off bs ?c = Some c'" "cells c' = (cells ?c)(p := Some (patch off bs b))"
      "pool c' = pool ?c" "owner c' = owner ?c" "set (oom c') \<subseteq> set (oom ?c)" "modules c' = modules ?c"
      "ctx_src_idx c' = ctx_src_idx ?c" using len by (simp add: store_buffer_def)
  have "chain_inv c'" using store_buffer_inv [OF _ c'(1)] wf by (simp add: chain_wf_def)
  from chain_wf_step [OF wf p(1) this c'(2) _ c'(4-7), of "snd w"] c'(1,3)
  show "\<exists>w'. mc_store (chain_api K i) p off bs w = Some w' \<and> chain_wf ms s w'
      \<and> owned w' = (owned w)(p \<mapsto> patch off bs b) \<and> queued_packets w' = queued_packets w"
    by (intro exI [of _ "(c', snd w)"]) (auto simp: chain_api_def split: prod.splits)
next
  fix w :: "('c, 'k) world" and p b d
  assume wf: "chain_wf ms s w" and own: "owned w p = Some b" and d: "d \<in> linked ms i"
  let ?c = "fst w"
  have p: "p \<notin> queued_ptrs ?c" "cells ?c p = Some b" using owned_SomeD [OF own] by simp_all
  obtain j where j: "near (ms ! i) ! nat d = Some j" "j < length ms" "i < length ms" "0 \<le> d"
      "d < int (length (near (ms ! i)))" using d by (auto simp: linked_def)
  let ?t = "\<lparr>task_data = p, task_len = length b, task_src = s, task_dir = (if d = 0 then 1 else 0), task_mod = j\<rparr>"
  let ?c' = "?c\<lparr>inflight := inflight ?c + 1, pool := tp_enqueue ?t (pool ?c)\<rparr>"
  have m: "modules ?c = ms" "owner ?c" "ctx_src_idx ?c = s" using wf by (simp_all add: chain_wf_def)
  have "mc_write_packet (chain_api K i) d p (length b) w = write_packet_impl K i d p (length b) (?c, snd w)"
    by (simp add: chain_api_def)
  also have "\<dots> = Some (0, (?c', snd w))"
    using write_packet_linked [OF m(1,2) j(3,4,5,1,2), of K p "length b" "snd w"] unfolding m(3) .
  finally have run: "mc_write_packet (chain_api K i) d p (length b) w = Some (0, (?c', snd w))" .
  have wf': "chain_wf ms s (?c, snd w)" using wf by simp
  have obs: "chain_obs ms i s d b = (task_mod ?t, task_src ?t, task_dir ?t, b)"
    using j(1) by (simp add: chain_obs_def)
  from chain_wf_enqueue [OF wf' p, of ?t ?c']
  have "chain_wf ms s (?c', snd w) \<and> owned (?c', snd w) = (owned w)(p := None)
      \<and> queued_packets (?c', snd w) = queued_packets w @ [chain_obs ms i s d b]"
    unfolding obs by simp
  then show "\<exists>r w'. mc_write_packet (chain_api K i) d p (length b) w = Some (r, w') \<and> chain_wf ms s w'
      \<and> owned w' = (owned w)(p := None) \<and> queued_packets w' = queued_packets w @ [chain_obs ms i s d b]"
    using run by blast
next
  fix w :: "('c, 'k) world"
  assume wf: "chain_wf ms s w"
  show "0 \<le> fst (mc_rand (chain_api K i) w) \<and> chain_wf ms s (snd (mc_rand (chain_api K i) w))
      \<and> owned (snd (mc_rand (chain_api K i) w)) = owned w
      \<and> queued_packets (snd (mc_rand (chain_api K i) w)) = queued_packets w"
    using wf by (cases w; cases "rands (fst w)") (simp_all add: chain_api_def chain_rand_def)
qed

section \<open>Properties\<close>

text \<open>
  C3: packets split by a module of one chain are put together again by the split module of another
  chain, for every order in which their chunks arrive there and with any number of duplicates: what
  the receiving module passes on are exactly the packets, in order, each once; it keeps no chunk and
  leaks no buffer.
\<close>

theorem split_merge_any_order:
  assumes snd_ok: "chain_wf ms s w" "split_cfg_ok ctx" "{1..num_outputs ctx} \<subseteq> linked ms i"
      "chunk_idx ctx = 0" "pkt_seq ctx = of_nat e"
    and pkts: "\<forall>d \<in> set ds. d \<noteq> [] \<and> length d < 2 ^ 31" "length ds \<le> 16384" "e + length ds + 49152 \<le> 2 ^ 32"
    and rcv_ok: "chain_wf ms' s' v" "0 \<in> linked ms' j"
      "exp_pkt rctx = of_nat e" "exp_chunk rctx = 0" "pending rctx = []"
  shows "\<exists>outs ctx' w'. feed_packets split_process (chain_api K i) 0 ds ctx w = Some (ctx', w')
    \<and> queued_packets w' = queued_packets w @ map (\<lambda>(d, b). chain_obs ms i s d b) outs
    \<and> owned w' = owned w
    \<and> (\<forall>arr. set arr = set (map snd outs) \<longrightarrow>
         (\<exists>rctx' v'. feed_packets split_process (chain_api K' j) 1 arr rctx v = Some (rctx', v')
            \<and> queued_packets v' = queued_packets v @ map (chain_obs ms' j s' 0) ds
            \<and> owned v' = owned v \<and> pending rctx' = []))"
proof -
  obtain Ps outs ctx' w' where sp: "feed_packets split_process (chain_api K i) 0 ds ctx w = Some (ctx', w')"
      "owned w' = owned w" "queued_packets w' = queued_packets w @ map (\<lambda>(d, b). chain_obs ms i s d b) outs"
      "map concat Ps = ds" "\<forall>p \<in> set Ps. p \<noteq> [] \<and> length p \<le> 65536" "map snd outs = all_wire e Ps"
    using chain_env.split_feed_ok [OF snd_ok(2,3,1,4,5) pkts(1), of K] by blast
  have len: "length Ps = length ds" using sp(4) by (metis length_map)
  then have ok: "packets_ok e Ps" using sp(5) pkts(3) by (simp add: packets_ok_def)
  have "\<exists>rctx' v'. feed_packets split_process (chain_api K' j) 1 arr rctx v = Some (rctx', v')
      \<and> queued_packets v' = queued_packets v @ map (chain_obs ms' j s' 0) ds \<and> owned v' = owned v
      \<and> pending rctx' = []" if "set arr = set (map snd outs)" for arr
  proof -
    have arr: "set arr = set (all_wire e Ps)" using that sp(6) by metis
    then have sub: "set arr \<subseteq> set (all_wire e Ps)" by simp
    have "length Ps \<le> 16384" using len pkts(2) by simp
    from chain_env.merge_feed_new [OF rcv_ok(1,3,4,5) ok this rcv_ok(2) sub, of K'] arr
    obtain rctx' v' where m: "feed_packets split_process (chain_api K' j) 1 arr rctx v = Some (rctx', v')"
        "queued_packets v' = queued_packets v @ map (\<lambda>p. chain_obs ms' j s' 0 (concat p)) Ps"
        "owned v' = owned v" "pending rctx' = []" by fastforce
    have "map (\<lambda>p. chain_obs ms' j s' 0 (concat p)) Ps = map (chain_obs ms' j s' 0) ds"
      using sp(4) by (metis (no_types, lifting) comp_apply map_cong map_map)
    then show ?thesis using m by auto
  qed
  then show ?thesis using sp(1,2,3) by blast
qed

text \<open>
  C20: whatever part of the chunks has arrived, in whatever order, the receiving module has passed on
  a front part of the packets, in order and unaltered; the function always returns.
\<close>

theorem merge_prefix:
  assumes "chain_wf ms s v" and "0 \<in> linked ms j"
    and "exp_pkt ctx = of_nat e" and "exp_chunk ctx = 0" and "pending ctx = []"
    and "packets_ok e Ps" and "length Ps \<le> 16384" and "set arr \<subseteq> chunk_wire e Ps ` chunk_ids Ps"
  shows "\<exists>n ctx' v'. feed_packets split_process (chain_api K j) 1 arr ctx v = Some (ctx', v')
    \<and> queued_packets v' = queued_packets v @ map (chain_obs ms j s 0) (take n (map concat Ps))"
proof -
  have sub: "set arr \<subseteq> set (all_wire e Ps)" using assms(8) by (simp add: set_all_wire)
  from chain_env.merge_feed_new [OF assms(1,3,4,5,6,7,2) sub, of K]
  show ?thesis by (auto simp: take_map comp_def)
qed

text \<open>
  The extension of packet numbers to 32 bits does not survive the wrap: while packet number
  \<open>2 ^ 32 - 1\<close> is awaited, a chunk of the next packet, number 0, counts as lost and is freed.
\<close>

theorem merge_drops_after_wrap:
  assumes "chain_wf ms s w" and "owned w p = Some (hdr_bytes (encode_hdr 0 mb c) @ b)" and "exp_pkt ctx = -1"
  shows "\<exists>w'. process_merge (chain_api K i) ctx t (Some p) (4 + length b) w
      = Some (0, ctx\<lparr>chunks_lost := chunks_lost ctx + 1\<rparr>, w')
    \<and> owned w' = (owned w)(p := None) \<and> queued_packets w' = queued_packets w"
proof -
  have seq: "seq32 (-1) (wire_id_of (encode_hdr 0 mb c)) = 0" "(0 :: u32) < -1"
    unfolding wire_id_of_encode by code_simp+
  have ld: "mc_load (chain_api K i) p w = Some (hdr_bytes (encode_hdr 0 mb c) @ b)"
    by (rule chain_env.load_ok [OF assms(1,2)])
  obtain w' where "mc_free (chain_api K i) p w = Some w'" "owned w' = (owned w)(p := None)"
      "queued_packets w' = queued_packets w"
    using chain_env.free_ok [OF assms(1,2), of K i] by blast
  then show ?thesis
    using ld seq assms(3) by (simp add: process_merge_def Let_def read_hdr_bytes)
qed

section \<open>Witnesses\<close>

definition demo_split :: SplitContext where
  "demo_split = fst (split_init (chain_api tester_kapi 1) ''n:2 s:64'' demo_chain)"

lemma demo_wf: "chain_wf (modules (fst demo_chain)) 0 demo_chain"
proof -
  have "owner (fst demo_chain)" "oom (fst demo_chain) = []" "ctx_src_idx (fst demo_chain) = 0"
    "queue (pool (fst demo_chain)) = []" by code_simp+
  then show ?thesis
    using chain_reach_inv [OF demo_chain_reach std_bases_ok] by (simp add: chain_wf_def tasks_owned_def)
qed

lemma demo_links: "{0..2} \<subseteq> linked (modules (fst demo_chain)) 1"
proof -
  have n: "near (modules (fst demo_chain) ! 1) = [Some 0, Some 2, Some 3]" "length (modules (fst demo_chain)) = 4"
    by code_simp+
  have "d \<in> linked (modules (fst demo_chain)) 1" if "d \<in> {0, 1, 2}" for d
    using that unfolding linked_def n by auto
  moreover have "{0..2 :: int} = {0, 1, 2}" by auto
  ultimately show ?thesis by auto
qed

lemma demo_split_fields:
  "split_cfg_ok demo_split" "num_outputs demo_split = 2" "chunk_idx demo_split = 0" "pkt_seq demo_split = of_nat 0"
  "exp_pkt demo_split = of_nat 0" "exp_chunk demo_split = 0" "pending demo_split = []"
  by code_simp+

abbreviation (input) "demo_ms \<equiv> modules (fst demo_chain)"

theorem split_merge_any_order_witness:
  "\<exists>outs ctx' w' rctx' v'.
     feed_packets split_process (chain_api tester_kapi 1) 0 [replicate 70 7, [1, 2]] demo_split demo_chain = Some (ctx', w')
     \<and> queued_packets w' = queued_packets demo_chain @ map (\<lambda>(d, b). chain_obs demo_ms 1 0 d b) outs
     \<and> feed_packets split_process (chain_api tester_kapi 1) 1 (rev (map snd outs) @ map snd outs) demo_split demo_chain
         = Some (rctx', v')
     \<and> queued_packets v' = queued_packets demo_chain @ map (chain_obs demo_ms 1 0 0) [replicate 70 7, [1, 2]]
     \<and> owned v' = owned demo_chain"
proof -
  note d = demo_split_fields
  have l: "{1..num_outputs demo_split} \<subseteq> linked demo_ms 1" "0 \<in> linked demo_ms 1"
    using demo_links by (auto simp: d(2))
  have pk: "\<forall>x \<in> set [replicate 70 7, [1, 2 :: byte]]. x \<noteq> [] \<and> length x < 2 ^ 31"
    "length [replicate 70 7, [1, 2 :: byte]] \<le> 16384" "0 + length [replicate 70 7, [1, 2 :: byte]] + 49152 \<le> 2 ^ 32"
    by simp_all
  from split_merge_any_order [OF demo_wf d(1) l(1) d(3,4) pk demo_wf l(2) d(5,6,7), of tester_kapi tester_kapi]
  obtain outs ctx' w' where o:
    "feed_packets split_process (chain_api tester_kapi 1) 0 [replicate 70 7, [1, 2]] demo_split demo_chain = Some (ctx', w')"
    "queued_packets w' = queued_packets demo_chain @ map (\<lambda>(d, b). chain_obs demo_ms 1 0 d b) outs"
    "\<forall>arr. set arr = set (map snd outs) \<longrightarrow>
      (\<exists>rctx' v'. feed_packets split_process (chain_api tester_kapi 1) 1 arr demo_split demo_chain = Some (rctx', v')
        \<and> queued_packets v' = queued_packets demo_chain @ map (chain_obs demo_ms 1 0 0) [replicate 70 7, [1, 2]]
        \<and> owned v' = owned demo_chain \<and> pending rctx' = [])" by blast
  have "set (rev (map snd outs) @ map snd outs) = set (map snd outs)" by simp
  with o show ?thesis by blast
qed

theorem merge_prefix_witness:
  "\<exists>n ctx' v'. feed_packets split_process (chain_api tester_kapi 1) 1 [chunk_wire 0 [[[1], [2]], [[3]]] (1, 0)]
      demo_split demo_chain = Some (ctx', v')
    \<and> queued_packets v' = queued_packets demo_chain @ map (chain_obs demo_ms 1 0 0) (take n [[1, 2], [3]])"
proof -
  note d = demo_split_fields
  have "0 \<in> linked demo_ms 1" using demo_links by auto
  moreover have "packets_ok 0 [[[1], [2]], [[3 :: byte]]]" by (simp add: packets_ok_def)
  moreover have "set [chunk_wire 0 [[[1], [2]], [[3]]] (1, 0)]
      \<subseteq> chunk_wire 0 [[[1], [2]], [[3]]] ` chunk_ids [[[1], [2]], [[3]]]" by (simp add: chunk_ids_def)
  ultimately show ?thesis
    using merge_prefix [OF demo_wf _ d(5,6,7), of 1 "[[[1], [2]], [[3]]]" "[chunk_wire 0 [[[1], [2]], [[3]]] (1, 0)]" tester_kapi]
    by simp
qed

definition wrap_world :: "(module_ctx, TesterKernel) world" where
  "wrap_world = (let A = chain_api tester_kapi 1; (p, w) = mc_malloc A 5 demo_chain
     in the (mc_store A 0 0 (hdr_bytes (encode_hdr 0 False 0) @ [9]) w))"

theorem merge_drops_after_wrap_witness:
  "\<exists>w'. process_merge (chain_api tester_kapi 1) (demo_split\<lparr>exp_pkt := -1\<rparr>) 1 (Some 0) (4 + length [9 :: byte]) wrap_world
      = Some (0, demo_split\<lparr>exp_pkt := -1, chunks_lost := 1\<rparr>, w')
    \<and> queued_packets w' = queued_packets wrap_world"
proof -
  let ?A = "chain_api tester_kapi 1 :: (module_ctx, TesterKernel) world ModuleChain" and ?d = "hdr_bytes (encode_hdr 0 False 0) @ [9]"
  have len: "length ?d = 5" by (simp add: hdr_bytes_def)
  obtain p w1 w2 where f: "mc_malloc ?A 5 demo_chain = (Some p, w1)" "mc_store ?A p 0 ?d w1 = Some w2"
      "chain_wf demo_ms 0 w2" "owned w2 = (owned demo_chain)(p \<mapsto> ?d)"
    using chain_env.malloc_fill [OF demo_wf, of tester_kapi 1 ?d] unfolding len by blast
  have "fst (mc_malloc ?A 5 demo_chain) = Some 0" by code_simp
  then have p: "p = 0" using f(1) by simp
  have w: "wrap_world = w2" using f(1,2) unfolding p by (simp add: wrap_world_def)
  have "chunks_lost demo_split = 0" by code_simp
  then show ?thesis
    using merge_drops_after_wrap [OF f(3), of 0 False 0 "[9]" "demo_split\<lparr>exp_pkt := -1\<rparr>" tester_kapi 1 1] f(4)
    unfolding w p by auto
qed

section \<open>Error paths of the chain\<close>

text \<open>
  C38: a chain with a module that is not registered is not refused: the constructor leaves a chain
  without entry point, and such a chain hands every pushed packet to the wire unprocessed.
\<close>

theorem unknown_module_passes_through:
  assumes "B (ms_name m) = None" and "cc_modules cfg = m # rest" and "owner c" and "\<not> cancelled c"
    and "entry_ext c = None" and "wire_entries c = []"
  shows "\<exists>c'. chain_new B K order now cfg (c, k) = Some (c', k) \<and> total_extra_outputs c' = 0
    \<and> (\<forall>p d k' r. cells c' p = Some d \<longrightarrow> ka_wire_write K 1 d k = Some (r, k') \<longrightarrow>
         (\<exists>c''. push_packet K p (length d) 0 0 (c', k) = Some (c'', k')))"
proof -
  let ?c = "c\<lparr>modules := []\<rparr>"
  have "chain_new B K order now cfg (c, k) = Some (?c, k)"
    using assms(1,2) by (simp add: chain_new_def create_one_def)
  moreover have "total_extra_outputs ?c = 0" using assms(6) by (simp add: total_extra_outputs_def)
  moreover have "\<exists>c''. push_packet K p (length d) 0 0 (?c, k) = Some (c'', k')"
    if "cells ?c p = Some d" "ka_wire_write K 1 d k = Some (r, k')" for p d k' r
    using that assms(4,5) by (simp add: push_packet_def read_buffer_def free_buffer_def)
  ultimately show ?thesis by blast
qed

theorem unknown_module_passes_through_witness:
  "\<exists>c'. chain_new std_bases tester_kapi (\<lambda>x. x) 0 (cfg_default\<lparr>cc_modules := [\<lparr>ms_name = ''crypto'', ms_params = []\<rparr>]\<rparr>)
       (chain_empty, tester_start) = Some (c', tester_start) \<and> total_extra_outputs c' = 0"
  using unknown_module_passes_through [of std_bases "\<lparr>ms_name = ''crypto'', ms_params = []\<rparr>"
      "cfg_default\<lparr>cc_modules := [\<lparr>ms_name = ''crypto'', ms_params = []\<rparr>]\<rparr>" "[]" "chain_empty :: module_ctx Chain"
      tester_kapi "\<lambda>x. x" 0 tester_start]
  by (auto simp: std_bases_def chain_empty_def)

text \<open>
  When the wire refuses a packet at the end of the chain, the packet is freed twice: once by
  \<open>write_packet_impl\<close>, and again by the task because the module returns the negative result.
\<close>

theorem refused_packet_freed_twice:
  assumes "module_at (task_mod t) c = Some m" and "B (m_base m) = Some (copy_base h)" and "m_ctx m = Some (CopyCtx x)"
    and "\<not> mode_copy x" and "near m = [a, None]" and "task_dir t = 0" and "0 < task_len t" and "\<not> cancelled c"
    and "ka_wire_write K (wire_dst m) (take (task_len t) b) k = Some (r, k')" and "r < 0"
    and "cells c (task_data t) = Some b" and "task_len t \<le> length b"
  shows "run_task B K now t (c, k) = None"
proof -
  let ?f = "\<lambda>m. m\<lparr>last_activity := now\<rparr>"
  let ?c = "upd_module (task_mod t) ?f (c\<lparr>ctx_src_idx := task_src t\<rparr>)"
  have i: "task_mod t < length (modules c)" "m = modules c ! task_mod t"
    using assms(1) by (auto simp: module_at_def split: if_splits)
  then have m: "module_at (task_mod t) ?c = Some (?f m)" by (simp add: module_at_def upd_module_def)
  obtain c1 where c1: "free_buffer (task_data t) ?c = Some c1" "cells c1 = (cells c)(task_data t := None)"
    using assms(11) by (simp add: free_buffer_def upd_module_def)
  have "write_packet_impl K (task_mod t) 1 (task_data t) (task_len t) (?c, k) = Some (r, (c1, k'))"
    using m c1 assms(5,9,11,12) by (simp add: write_packet_impl_def read_buffer_def upd_module_def)
  then have "call_process B K (task_mod t) (task_dir t) (task_src t) (Some (task_data t)) (task_len t) (?c, k)
      = Some (r, (upd_module (task_mod t) (\<lambda>m. m\<lparr>m_ctx := Some (CopyCtx x)\<rparr>) c1, k'))"
    using m assms(2-4,6,7) by (simp add: call_process_def copy_base_def copy_process_def chain_api_def)
  moreover have "free_buffer (task_data t) (upd_module (task_mod t) (\<lambda>m. m\<lparr>m_ctx := Some (CopyCtx x)\<rparr>) c1) = None"
    using c1(2) by (simp add: free_buffer_def upd_module_def)
  ultimately show ?thesis using assms(8,10) by (simp add: run_task_def)
qed

text \<open>A kernel whose wire is closed, as \<open>wire_write\<close> of the server without a data connection.\<close>

definition closed_kapi :: "TesterKernel KernelAPI" where
  "closed_kapi = \<lparr>ka_alloc_module_id = tester_alloc_id, ka_wire_write = (\<lambda>dst d tk. Some (-1, tk))\<rparr>"

definition closed_chain :: "(module_ctx, TesterKernel) world" where
  "closed_chain = the (Option.bind
     (chain_new std_bases closed_kapi (\<lambda>x. x) 0 (cfg_default\<lparr>cc_modules := [copy_spec]\<rparr>) (chain_empty, tester_start))
     (chain_ops std_bases closed_kapi 0 [OpStartWorkers 1, OpAlloc 3]))"

theorem refused_packet_freed_twice_witness:
  "run_task std_bases closed_kapi 0
     \<lparr>task_data = 0, task_len = 3, task_src = 0, task_dir = 0, task_mod = 0\<rparr> closed_chain = None"
proof -
  have m: "module_at 0 (fst closed_chain) = Some \<lparr>m_base = ''copy'', m_id = 0, near = [None, None], wire_dst = 1,
      cfg_idx = 0, m_ctx = Some (CopyCtx \<lparr>cp_trace = False, cp_node_id = 0, mode_copy = False\<rparr>),
      heartbeat_interval_sec = 0, last_activity = 0\<rparr>"
    by code_simp
  have b: "cells (fst closed_chain) 0 = Some [0, 0, 0]" "\<not> cancelled (fst closed_chain)" by code_simp+
  show ?thesis
    using refused_packet_freed_twice [of "\<lparr>task_data = 0, task_len = 3, task_src = 0, task_dir = 0, task_mod = 0\<rparr>"
        "fst closed_chain" _ std_bases "\<lambda>s. s" _ None closed_kapi "[0, 0, 0]" "snd closed_chain" "-1" "snd closed_chain" 0]
      m b by (simp add: std_bases_def closed_kapi_def)
qed

end
