(* ===== verification/Kernel.thy ===== *)
theory Kernel
  imports Prelude
begin

unbundle bit_operations_syntax

text \<open>
  \<open>src/core/kernel.h\<close> and \<open>kernel.cpp\<close>: the table of descriptor callbacks and the epoll loop.

  A callback is a closure in the source; here it is a value of the type \<open>'h\<close>, which the owner of
  the callbacks chooses (one constructor per lambda).  The record also holds what the operating
  system keeps for the kernel: which descriptors are open, the interest list of \<open>epoll_fd_\<close> and the
  counter of the eventfd.  \<open>close(2)\<close> takes a descriptor out of the interest list (\<open>epoll(7)\<close>); the
  program's own table does not notice.  The event loop works on any state that contains a kernel,
  read and written by \<open>kget\<close> and \<open>kset\<close>.
\<close>

section \<open>State\<close>

abbreviation (input) EPOLLIN :: u32 where "EPOLLIN \<equiv> 1"
abbreviation (input) EPOLLOUT :: u32 where "EPOLLOUT \<equiv> 4"
abbreviation (input) EPOLLERR :: u32 where "EPOLLERR \<equiv> 8"
abbreviation (input) EPOLLHUP :: u32 where "EPOLLHUP \<equiv> 16"

record 'h FdState =
  in_cb :: "'h option"
  out_cb :: "'h option"
  fd_events :: u32

record 'h Kernel =
  fd_to_handler :: "fd \<rightharpoonup> 'h FdState"
  wake_fd :: fd
  k_running :: bool
  stop_requested :: bool
  fd_open :: "fd \<Rightarrow> bool"
  epoll_set :: "fd \<rightharpoonup> u32"
  wake_count :: u64

definition fd_state_empty :: "'h FdState" where
  "fd_state_empty = \<lparr>in_cb = None, out_cb = None, fd_events = 0\<rparr>"

section \<open>System calls\<close>

datatype ctl_error = EEXIST | ENOENT | EBADF

definition epoll_add :: "fd \<Rightarrow> u32 \<Rightarrow> 'h Kernel \<Rightarrow> ctl_error option \<times> 'h Kernel" where
  "epoll_add f e K =
     (if \<not> fd_open K f then (Some EBADF, K)
      else if epoll_set K f \<noteq> None then (Some EEXIST, K)
      else (None, K\<lparr>epoll_set := (epoll_set K)(f \<mapsto> e)\<rparr>))"

definition epoll_mod :: "fd \<Rightarrow> u32 \<Rightarrow> 'h Kernel \<Rightarrow> ctl_error option \<times> 'h Kernel" where
  "epoll_mod f e K =
     (if \<not> fd_open K f then (Some EBADF, K)
      else if epoll_set K f = None then (Some ENOENT, K)
      else (None, K\<lparr>epoll_set := (epoll_set K)(f \<mapsto> e)\<rparr>))"

definition epoll_del :: "fd \<Rightarrow> 'h Kernel \<Rightarrow> 'h Kernel" where
  "epoll_del f K = K\<lparr>epoll_set := (epoll_set K)(f := None)\<rparr>"

text \<open>A descriptor appears (\<open>socket\<close>, \<open>accept\<close>) and disappears (\<open>close\<close>).\<close>

definition fd_appears :: "fd \<Rightarrow> 'h Kernel \<Rightarrow> 'h Kernel" where
  "fd_appears f K = K\<lparr>fd_open := (fd_open K)(f := True)\<rparr>"

definition fd_closed :: "fd \<Rightarrow> 'h Kernel \<Rightarrow> 'h Kernel" where
  "fd_closed f K = K\<lparr>fd_open := (fd_open K)(f := False), epoll_set := (epoll_set K)(f := None)\<rparr>"

section \<open>Operations\<close>

definition kernel_new :: "fd \<Rightarrow> 'h Kernel" where
  "kernel_new wake = \<lparr>fd_to_handler = (\<lambda>_. None), wake_fd = wake, k_running = False,
     stop_requested = False, fd_open = (\<lambda>f. 0 \<le> wake \<and> f = wake),
     epoll_set = (if 0 \<le> wake then [wake \<mapsto> EPOLLIN] else (\<lambda>_. None)), wake_count = 0\<rparr>"

definition wakeup :: "'h Kernel \<Rightarrow> 'h Kernel" where
  "wakeup K = (if 0 \<le> wake_fd K then K\<lparr>wake_count := wake_count K + 1\<rparr> else K)"

definition add_fd_handler :: "fd \<Rightarrow> 'h \<Rightarrow> u32 \<Rightarrow> 'h Kernel \<Rightarrow> 'h Kernel" where
  "add_fd_handler f callback events K =
     (let state = (case fd_to_handler K f of Some s \<Rightarrow> s | None \<Rightarrow> fd_state_empty);
          state = (if events AND EPOLLIN \<noteq> 0 then state\<lparr>in_cb := Some callback\<rparr> else state);
          state = (if events AND EPOLLOUT \<noteq> 0 then state\<lparr>out_cb := Some callback\<rparr> else state);
          state = state\<lparr>fd_events := fd_events state OR events\<rparr>;
          K = K\<lparr>fd_to_handler := (fd_to_handler K)(f \<mapsto> state)\<rparr>
      in case epoll_add f (fd_events state) K of
           (Some EEXIST, K) \<Rightarrow> snd (epoll_mod f (fd_events state) K)
         | (_, K) \<Rightarrow> K)"

definition mod_fd_events :: "fd \<Rightarrow> u32 \<Rightarrow> u32 \<Rightarrow> 'h Kernel \<Rightarrow> 'h Kernel" where
  "mod_fd_events f add remove K =
     (case fd_to_handler K f of
        None \<Rightarrow> K
      | Some state \<Rightarrow>
          (let was_empty = (fd_events state = 0);
               state = state\<lparr>fd_events := (fd_events state OR add) AND NOT remove\<rparr>;
               K = K\<lparr>fd_to_handler := (fd_to_handler K)(f \<mapsto> state)\<rparr>
           in if fd_events state = 0 \<or> in_cb state = None \<and> out_cb state = None then epoll_del f K
              else if was_empty then snd (epoll_add f (fd_events state) K)
              else snd (epoll_mod f (fd_events state) K)))"

definition del_fd :: "fd \<Rightarrow> 'h Kernel \<Rightarrow> 'h Kernel" where
  "del_fd f K = (let K = epoll_del f K in K\<lparr>fd_to_handler := (fd_to_handler K)(f := None)\<rparr>)"

definition request_stop :: "'h Kernel \<Rightarrow> 'h Kernel" where
  "request_stop K = K\<lparr>stop_requested := True\<rparr>"

definition kernel_stop :: "'h Kernel \<Rightarrow> 'h Kernel" where
  "kernel_stop K = K\<lparr>k_running := False, stop_requested := True\<rparr>"

section \<open>The event loop\<close>

text \<open>
  \<open>call h f e\<close> runs the callback \<open>h\<close> on \<open>f\<close> with the events \<open>e\<close>; a callback that throws is caught
  and logged, so it is a call like any other.  \<open>None\<close> is a callback that does not come back.
\<close>

type_synonym ('h, 'w) callback = "'h \<Rightarrow> fd \<Rightarrow> u32 \<Rightarrow> 'w \<Rightarrow> 'w option"

definition run_in ::
  "('w \<Rightarrow> 'h Kernel) \<Rightarrow> ('h, 'w) callback \<Rightarrow> fd \<Rightarrow> u32 \<Rightarrow> 'w \<Rightarrow> 'w option" where
  "run_in kget call f e w =
     (if e AND EPOLLIN \<noteq> 0
      then case Option.bind (fd_to_handler (kget w) f) in_cb of
             Some cb \<Rightarrow> call cb f EPOLLIN w | None \<Rightarrow> Some w
      else Some w)"

definition run_out ::
  "('w \<Rightarrow> 'h Kernel) \<Rightarrow> ('h, 'w) callback \<Rightarrow> fd \<Rightarrow> u32 \<Rightarrow> 'w \<Rightarrow> 'w option" where
  "run_out kget call f e w =
     (if e AND EPOLLOUT \<noteq> 0
      then case Option.bind (fd_to_handler (kget w) f) out_cb of
             Some cb \<Rightarrow> call cb f EPOLLOUT w | None \<Rightarrow> Some w
      else Some w)"

definition run_hup ::
  "('w \<Rightarrow> 'h Kernel) \<Rightarrow> ('h Kernel \<Rightarrow> 'w \<Rightarrow> 'w) \<Rightarrow> ('h, 'w) callback \<Rightarrow> fd \<Rightarrow> u32 \<Rightarrow> 'w
   \<Rightarrow> 'w option" where
  "run_hup kget kset call f e w =
     (if e AND (EPOLLERR OR EPOLLHUP) \<noteq> 0
      then do {
        w \<leftarrow> (case fd_to_handler (kget w) f of
                None \<Rightarrow> Some w
              | Some hit \<Rightarrow>
                  (case in_cb hit of
                     Some cb \<Rightarrow> call cb f EPOLLHUP w
                   | None \<Rightarrow> (case out_cb hit of Some cb \<Rightarrow> call cb f EPOLLHUP w | None \<Rightarrow> Some w)));
        Some (kset (del_fd f (kget w)) w)
      }
      else Some w)"

definition dispatch_event ::
  "('w \<Rightarrow> 'h Kernel) \<Rightarrow> ('h Kernel \<Rightarrow> 'w \<Rightarrow> 'w) \<Rightarrow> ('h, 'w) callback \<Rightarrow> fd \<times> u32 \<Rightarrow> 'w \<Rightarrow> 'w option"
where
  "dispatch_event kget kset call ev w =
     (case ev of (f, e) \<Rightarrow>
        if f = wake_fd (kget w) then Some (kset ((kget w)\<lparr>wake_count := 0\<rparr>) w)
        else do {
          w \<leftarrow> run_in kget call f e w;
          w \<leftarrow> run_out kget call f e w;
          run_hup kget kset call f e w
        })"

fun dispatch_events ::
  "('w \<Rightarrow> 'h Kernel) \<Rightarrow> ('h Kernel \<Rightarrow> 'w \<Rightarrow> 'w) \<Rightarrow> ('h, 'w) callback \<Rightarrow> (fd \<times> u32) list \<Rightarrow> 'w
   \<Rightarrow> 'w option" where
  "dispatch_events kget kset call [] w = Some w"
| "dispatch_events kget kset call (ev # evs) w =
     Option.bind (dispatch_event kget kset call ev w) (dispatch_events kget kset call evs)"

text \<open>
  The loop over the answers of \<open>epoll_wait\<close>.  When no answer is left the loop is still waiting; the
  first component says whether it has ended.
\<close>

datatype wait_answer = Events "(fd \<times> u32) list" | WaitEintr | WaitError

fun event_loop ::
  "('w \<Rightarrow> 'h Kernel) \<Rightarrow> ('h Kernel \<Rightarrow> 'w \<Rightarrow> 'w) \<Rightarrow> ('h, 'w) callback \<Rightarrow> ('w \<Rightarrow> 'w option)
   \<Rightarrow> wait_answer list \<Rightarrow> 'w \<Rightarrow> (bool \<times> 'w) option" where
  "event_loop kget kset call tick answers w =
     (if \<not> (k_running (kget w) \<and> \<not> stop_requested (kget w))
      then Some (True, kset ((kget w)\<lparr>k_running := False\<rparr>) w)
      else case answers of
        [] \<Rightarrow> Some (False, w)
      | WaitEintr # as \<Rightarrow> event_loop kget kset call tick as w
      | WaitError # as \<Rightarrow> Some (True, kset ((kget w)\<lparr>k_running := False\<rparr>) w)
      | Events evs # as \<Rightarrow> do {
          w \<leftarrow> tick w;
          w \<leftarrow> dispatch_events kget kset call evs w;
          event_loop kget kset call tick as w
        })"

definition kernel_start ::
  "('w \<Rightarrow> 'h Kernel) \<Rightarrow> ('h Kernel \<Rightarrow> 'w \<Rightarrow> 'w) \<Rightarrow> ('h, 'w) callback \<Rightarrow> ('w \<Rightarrow> 'w option)
   \<Rightarrow> wait_answer list \<Rightarrow> 'w \<Rightarrow> (bool \<times> 'w) option" where
  "kernel_start kget kset call tick answers w =
     (if k_running (kget w) then Some (True, w)
      else event_loop kget kset call tick answers (kset ((kget w)\<lparr>k_running := True\<rparr>) w))"

declare event_loop.simps [simp del]

section \<open>The table and the interest list agree\<close>

text \<open>What the table asks epoll to watch.\<close>

definition wanted :: "'h Kernel \<Rightarrow> fd \<Rightarrow> u32 option" where
  "wanted K f =
     (case fd_to_handler K f of
        None \<Rightarrow> None
      | Some s \<Rightarrow> if fd_events s = 0 \<or> in_cb s = None \<and> out_cb s = None then None
                 else Some (fd_events s))"

definition kernel_inv :: "'h Kernel \<Rightarrow> bool" where
  "kernel_inv K \<longleftrightarrow>
     (\<forall>f. f \<noteq> wake_fd K \<longrightarrow> epoll_set K f = wanted K f)
     \<and> (\<forall>f s. fd_to_handler K f = Some s \<longrightarrow> fd_open K f \<and> f \<noteq> wake_fd K
          \<and> (in_cb s \<noteq> None \<or> out_cb s \<noteq> None))
     \<and> (0 \<le> wake_fd K \<longrightarrow> fd_open K (wake_fd K) \<and> epoll_set K (wake_fd K) = Some EPOLLIN)"

text \<open>
  The steps of a program that registers only open descriptors and unregisters a descriptor before it
  closes it.
\<close>

datatype 'h kernel_op =
  KAppear fd | KAdd fd 'h u32 | KMod fd u32 u32 | KDel fd | KDelClose fd | KWakeup | KStop

fun kernel_op_ok :: "'h kernel_op \<Rightarrow> 'h Kernel \<Rightarrow> bool" where
  "kernel_op_ok (KAppear f) K \<longleftrightarrow> \<not> fd_open K f \<and> f \<noteq> wake_fd K"
| "kernel_op_ok (KAdd f h e) K \<longleftrightarrow> fd_open K f \<and> f \<noteq> wake_fd K \<and> e AND (EPOLLIN OR EPOLLOUT) \<noteq> 0"
| "kernel_op_ok (KMod f a r) K \<longleftrightarrow> True"
| "kernel_op_ok (KDel f) K \<longleftrightarrow> f \<noteq> wake_fd K"
| "kernel_op_ok (KDelClose f) K \<longleftrightarrow> f \<noteq> wake_fd K"
| "kernel_op_ok KWakeup K \<longleftrightarrow> True"
| "kernel_op_ok KStop K \<longleftrightarrow> True"

fun kernel_apply :: "'h kernel_op \<Rightarrow> 'h Kernel \<Rightarrow> 'h Kernel" where
  "kernel_apply (KAppear f) K = fd_appears f K"
| "kernel_apply (KAdd f h e) K = add_fd_handler f h e K"
| "kernel_apply (KMod f a r) K = mod_fd_events f a r K"
| "kernel_apply (KDel f) K = del_fd f K"
| "kernel_apply (KDelClose f) K = fd_closed f (del_fd f K)"
| "kernel_apply KWakeup K = wakeup K"
| "kernel_apply KStop K = kernel_stop K"

inductive kernel_reach :: "fd \<Rightarrow> 'h Kernel \<Rightarrow> bool" for wake where
  init: "kernel_reach wake (kernel_new wake)"
| step: "kernel_reach wake K \<Longrightarrow> kernel_op_ok a K \<Longrightarrow> kernel_reach wake (kernel_apply a K)"

lemma or_and_not0:
  fixes e x m :: u32
  assumes "e AND m \<noteq> 0"
  shows "(x OR e) \<noteq> 0"
proof
  assume "x OR e = 0"
  then have "bit (x OR e) n = False" for n by simp
  then have "\<not> bit e n" for n by (auto simp: bit_or_iff)
  then have "e = 0" by (auto intro: bit_eqI)
  then show False using assms by simp
qed

lemma and_or_disj:
  fixes e :: u32
  shows "e AND (a OR b) \<noteq> 0 \<longleftrightarrow> e AND a \<noteq> 0 \<or> e AND b \<noteq> 0"
proof -
  have "e AND (a OR b) = (e AND a) OR (e AND b)" by (rule bit.conj_disj_distrib)
  moreover have "x OR y = 0 \<longleftrightarrow> x = 0 \<and> y = 0" for x y :: u32
    by (metis or_and_not0 or.commute or.right_neutral and.idem)
  ultimately show ?thesis by simp
qed

lemma add_fd_handler_spec:
  assumes "kernel_inv K" and "fd_open K f" and "f \<noteq> wake_fd K" and "e AND (EPOLLIN OR EPOLLOUT) \<noteq> 0"
  shows "kernel_inv (add_fd_handler f h e K)"
proof -
  define s where "s = (case fd_to_handler K f of Some s \<Rightarrow> s | None \<Rightarrow> fd_state_empty)"
  define s' where "s' = s\<lparr>in_cb := if e AND EPOLLIN \<noteq> 0 then Some h else in_cb s,
    out_cb := if e AND EPOLLOUT \<noteq> 0 then Some h else out_cb s, fd_events := fd_events s OR e\<rparr>"
  have cb: "in_cb s' \<noteq> None \<or> out_cb s' \<noteq> None"
    using assms(4) unfolding and_or_disj s'_def by auto
  have ev: "fd_events s' \<noteq> 0" unfolding s'_def using or_and_not0 [OF assms(4)] by simp
  have "add_fd_handler f h e K =
      K\<lparr>fd_to_handler := (fd_to_handler K)(f \<mapsto> s'), epoll_set := (epoll_set K)(f \<mapsto> fd_events s')\<rparr>"
    using assms(2)
    by (simp add: add_fd_handler_def s_def [symmetric] epoll_add_def epoll_mod_def Let_def s'_def)
  then show ?thesis using assms(1-3) cb ev by (auto simp: kernel_inv_def wanted_def)
qed

lemma add_fd_handler_table:
  "fd_to_handler (add_fd_handler f h e K) =
     (fd_to_handler K)(f \<mapsto> (let s = (case fd_to_handler K f of Some s \<Rightarrow> s | None \<Rightarrow> fd_state_empty)
        in s\<lparr>in_cb := if e AND EPOLLIN \<noteq> 0 then Some h else in_cb s,
             out_cb := if e AND EPOLLOUT \<noteq> 0 then Some h else out_cb s, fd_events := fd_events s OR e\<rparr>))"
  by (simp add: add_fd_handler_def epoll_add_def epoll_mod_def Let_def)

lemma mod_fd_events_spec:
  assumes "kernel_inv K" shows "kernel_inv (mod_fd_events f a r K)"
proof (cases "fd_to_handler K f")
  case None
  then show ?thesis using assms by (simp add: mod_fd_events_def)
next
  case (Some s)
  define s' where "s' = s\<lparr>fd_events := (fd_events s OR a) AND NOT r\<rparr>"
  have inv: "fd_open K f" "f \<noteq> wake_fd K" "in_cb s \<noteq> None \<or> out_cb s \<noteq> None"
    and es: "epoll_set K f = wanted K f"
    using assms Some by (auto simp: kernel_inv_def)
  have ne: "\<not> (in_cb s' = None \<and> out_cb s' = None)" "\<not> (in_cb s = None \<and> out_cb s = None)"
    using inv(3) by (auto simp: s'_def)
  have "mod_fd_events f a r K =
      K\<lparr>fd_to_handler := (fd_to_handler K)(f \<mapsto> s'),
        epoll_set := (epoll_set K)(f := if fd_events s' = 0 then None else Some (fd_events s'))\<rparr>"
    using Some inv(1) es ne
    by (auto simp: mod_fd_events_def Let_def s'_def [symmetric] epoll_add_def epoll_mod_def epoll_del_def
        wanted_def)
  then show ?thesis using assms inv ne by (auto simp: kernel_inv_def wanted_def)
qed

lemma kernel_inv_step:
  assumes "kernel_inv K" and "kernel_op_ok a K"
  shows "kernel_inv (kernel_apply a K)"
proof (cases a)
  case (KAdd f h e)
  then show ?thesis using assms by (simp add: add_fd_handler_spec)
next
  case (KMod f x r)
  then show ?thesis using assms by (simp add: mod_fd_events_spec)
qed (use assms in \<open>auto simp: kernel_inv_def wanted_def fd_appears_def fd_closed_def del_fd_def epoll_del_def
       wakeup_def kernel_stop_def Let_def\<close>)

lemma kernel_inv_reach: "kernel_reach wake K \<Longrightarrow> kernel_inv K"
proof (induction rule: kernel_reach.induct)
  case init
  show ?case by (simp add: kernel_inv_def kernel_new_def wanted_def)
next
  case (step K a)
  show ?case by (rule kernel_inv_step) (use step in auto)
qed

section \<open>A hang-up ends the watching of a descriptor\<close>

locale kernel_state =
  fixes kget :: "'w \<Rightarrow> 'h Kernel" and kset :: "'h Kernel \<Rightarrow> 'w \<Rightarrow> 'w"
  assumes kget_kset [simp]: "kget (kset k w) = k"
begin

lemma run_hup_unregisters:
  assumes "run_hup kget kset call f e w = Some w'" and "e AND (EPOLLERR OR EPOLLHUP) \<noteq> 0"
  shows "fd_to_handler (kget w') f = None \<and> epoll_set (kget w') f = None"
  using assms
  by (auto simp: run_hup_def del_fd_def epoll_del_def Let_def split: bind_splits option.splits)

lemma dispatch_hup_unregisters:
  assumes "dispatch_event kget kset call (f, e) w = Some w'" and "f \<noteq> wake_fd (kget w)"
    and "e AND (EPOLLERR OR EPOLLHUP) \<noteq> 0"
  shows "fd_to_handler (kget w') f = None \<and> epoll_set (kget w') f = None"
  using assms run_hup_unregisters by (auto simp: dispatch_event_def split: bind_splits)

text \<open>The loop ends, with the running flag off, at the first round that finds a stop request.\<close>

lemma event_loop_stops:
  assumes "stop_requested (kget w)"
  shows "event_loop kget kset call tick answers w = Some (True, kset ((kget w)\<lparr>k_running := False\<rparr>) w)"
  using assms by (simp add: event_loop.simps)

end

section \<open>Properties\<close>

text \<open>
  C16: in every state reached by registering open descriptors and unregistering a descriptor before
  closing it, epoll watches a descriptor exactly for the events of its table entry, does not watch
  it when the entry asks for nothing, and always watches the wake-up descriptor.
\<close>

theorem kernel_epoll_sync:
  assumes "kernel_reach wake K"
  shows "(\<forall>f. f \<noteq> wake_fd K \<longrightarrow> epoll_set K f =
       (case fd_to_handler K f of None \<Rightarrow> None | Some s \<Rightarrow> if fd_events s = 0 then None else Some (fd_events s)))
     \<and> (0 \<le> wake_fd K \<longrightarrow> epoll_set K (wake_fd K) = Some EPOLLIN)"
proof (intro conjI allI impI)
  note inv = kernel_inv_reach [OF assms]
  fix f assume "f \<noteq> wake_fd K"
  with inv have "epoll_set K f = wanted K f" by (simp add: kernel_inv_def)
  moreover have "in_cb s \<noteq> None \<or> out_cb s \<noteq> None" if "fd_to_handler K f = Some s" for s
    using inv that by (auto simp: kernel_inv_def)
  ultimately show "epoll_set K f = (case fd_to_handler K f of None \<Rightarrow> None
      | Some s \<Rightarrow> if fd_events s = 0 then None else Some (fd_events s))"
    by (auto simp: wanted_def split: option.splits)
qed (use kernel_inv_reach [OF assms] in \<open>auto simp: kernel_inv_def\<close>)

definition demo_kernel :: "nat Kernel" where
  "demo_kernel = kernel_apply (KMod 7 0 EPOLLIN) (kernel_apply (KAdd 7 20 EPOLLOUT)
     (kernel_apply (KAdd 7 10 EPOLLIN) (kernel_apply (KAppear 7) (kernel_new 3))))"

lemma demo_kernel_reach: "kernel_reach 3 demo_kernel"
  unfolding demo_kernel_def
  by (intro kernel_reach.intros)
    (simp_all add: kernel_new_def fd_appears_def add_fd_handler_def epoll_add_def epoll_mod_def Let_def
      fd_state_empty_def)

theorem kernel_epoll_sync_witness: "epoll_set demo_kernel 7 = Some EPOLLOUT"
proof -
  have "wake_fd demo_kernel = 3" "map_option fd_events (fd_to_handler demo_kernel 7) = Some 4"
    by code_simp+
  then show ?thesis using kernel_epoll_sync [OF demo_kernel_reach] by auto
qed

text \<open>
  A descriptor that is closed without \<open>del_fd\<close> while a write callback is registered for it keeps
  that callback: when the operating system hands the same number out again and the program registers
  a reader for it, epoll also watches it for the old events and the old callback is the one that runs
  (\<open>handle_connect_cancel\<close> and \<open>check_pending_connect_timeout\<close> close that way).
\<close>

theorem close_without_del_keeps_callback:
  assumes "fd_to_handler K f = Some s" and "out_cb s = Some old"
  shows "fd_to_handler (add_fd_handler f new EPOLLIN (fd_appears f (fd_closed f K))) f =
       Some (s\<lparr>in_cb := Some new, fd_events := fd_events s OR EPOLLIN\<rparr>)
     \<and> epoll_set (add_fd_handler f new EPOLLIN (fd_appears f (fd_closed f K))) f = Some (fd_events s OR EPOLLIN)
     \<and> Option.bind (fd_to_handler (add_fd_handler f new EPOLLIN (fd_appears f (fd_closed f K))) f) out_cb
         = Some old"
  using assms by (simp add: add_fd_handler_def fd_appears_def fd_closed_def epoll_add_def Let_def)

theorem close_without_del_keeps_callback_witness:
  "epoll_set (add_fd_handler 7 (30 :: nat) EPOLLIN (fd_appears 7 (fd_closed 7 demo_kernel))) 7
     = Some (EPOLLIN OR EPOLLOUT)"
proof -
  have "fd_to_handler demo_kernel 7 = Some \<lparr>in_cb = Some 10, out_cb = Some 20, fd_events = EPOLLOUT\<rparr>"
    by code_simp
  from close_without_del_keeps_callback [OF this, of 20 30] show ?thesis by simp
qed

end
