(* ===== verification/Endpoint.thy ===== *)
theory Endpoint
  imports Kernel Write_Buffer Wire_Frame
begin

unbundle bit_operations_syntax

text \<open>
  What the two ends of the tunnel share: the world an end runs in (its kernel, its sockets, the
  clock, the answers of the system calls that are still to come) and the data connections with their
  sequence numbers, acknowledgements and retransmission.  \<open>DataConnection\<close> and \<open>PendingFrame\<close> are
  declared in \<open>src/server/session.h\<close> and, with the same members, in \<open>src/client/client.h\<close>.
\<close>

section \<open>The world of an endpoint\<close>

datatype rd_answer = ReadData bytes | ReadEof | ReadAgain | ReadError

datatype acc_answer = Accepted fd | AcceptAgain | AcceptEintr | AcceptError

datatype conn_answer = ConnOk | ConnInProgress | ConnFail

record 'h Env =
  kern :: "'h Kernel"
  osys :: os
  clock :: millis
  rd_answers :: "fd \<Rightarrow> rd_answer list"
  gai_answers :: "nat option list"
  sock_answers :: "(fd \<times> conn_answer) option list"
  so_answers :: "bool list"

definition env_new :: "'h Env" where
  "env_new = \<lparr>kern = kernel_new 3, osys = os_with [], clock = 0, rd_answers = (\<lambda>_. []), gai_answers = [],
     sock_answers = [], so_answers = []\<rparr>"

definition upd_kern :: "('h Kernel \<Rightarrow> 'h Kernel) \<Rightarrow> 'h Env \<Rightarrow> 'h Env" where
  "upd_kern g E = E\<lparr>kern := g (kern E)\<rparr>"

text \<open>
  \<open>read(f, buf, n)\<close> with \<open>n > 0\<close>.  Bytes that do not fit stay for the next call, and an empty read
  is the end of the stream; without a further answer the call would block.
\<close>

definition sys_read :: "fd \<Rightarrow> nat \<Rightarrow> 'h Env \<Rightarrow> rd_answer \<times> 'h Env" where
  "sys_read f n E =
     (case rd_answers E f of
        [] \<Rightarrow> (ReadAgain, E)
      | ReadData d # as \<Rightarrow>
          if d = [] then (ReadEof, E\<lparr>rd_answers := (rd_answers E)(f := as)\<rparr>)
          else (ReadData (take n d),
                E\<lparr>rd_answers := (rd_answers E)(f := (if n < length d then [ReadData (drop n d)] else []) @ as)\<rparr>)
      | a # as \<Rightarrow> (a, E\<lparr>rd_answers := (rd_answers E)(f := as)\<rparr>))"

definition env_close :: "fd \<Rightarrow> 'h Env \<Rightarrow> 'h Env" where
  "env_close f E = E\<lparr>kern := fd_closed f (kern E), osys := sys_close f (osys E)\<rparr>"

definition sys_getaddrinfo :: "string \<Rightarrow> string \<Rightarrow> 'h Env \<Rightarrow> nat option \<times> 'h Env" where
  "sys_getaddrinfo host port E =
     (case gai_answers E of [] \<Rightarrow> (None, E) | a # as \<Rightarrow> (a, E\<lparr>gai_answers := as\<rparr>))"

text \<open>
  \<open>socket\<close> and the \<open>connect\<close> on the new descriptor; \<open>None\<close> when \<open>socket\<close> fails.  The operating system
  never hands out a number that is in use.
\<close>

definition sys_socket_connect :: "'h Env \<Rightarrow> (fd \<times> conn_answer) option \<times> 'h Env" where
  "sys_socket_connect E =
     (case sock_answers E of
        [] \<Rightarrow> (None, E)
      | None # as \<Rightarrow> (None, E\<lparr>sock_answers := as\<rparr>)
      | Some (f, a) # as \<Rightarrow>
          if f < 0 \<or> fd_open (kern E) f then (None, E\<lparr>sock_answers := as\<rparr>)
          else (Some (f, a), upd_kern (fd_appears f) (E\<lparr>sock_answers := as\<rparr>)))"

text \<open>\<open>getsockopt(SO_ERROR)\<close> succeeded and reported no error.\<close>

definition sys_so_ok :: "'h Env \<Rightarrow> bool \<times> 'h Env" where
  "sys_so_ok E = (case so_answers E of [] \<Rightarrow> (False, E) | a # as \<Rightarrow> (a, E\<lparr>so_answers := as\<rparr>))"

section \<open>Helpers of both ends\<close>

abbreviation (input) MAX_PACKET_SIZE :: nat where "MAX_PACKET_SIZE \<equiv> 131072"

text \<open>Updates of an association list that stands for an unordered map.\<close>

fun al_put :: "'k \<Rightarrow> 'v \<Rightarrow> ('k \<times> 'v) list \<Rightarrow> ('k \<times> 'v) list" where
  "al_put k v [] = [(k, v)]"
| "al_put k v ((k', v') # xs) = (if k' = k then (k, v) # xs else (k', v') # al_put k v xs)"

definition al_erase :: "'k \<Rightarrow> ('k \<times> 'v) list \<Rightarrow> ('k \<times> 'v) list" where
  "al_erase k xs = filter (\<lambda>e. fst e \<noteq> k) xs"

lemma map_of_al_put [simp]: "map_of (al_put k v xs) = (map_of xs)(k \<mapsto> v)"
  by (induction xs) (auto simp: fun_eq_iff)

lemma map_of_al_erase [simp]: "map_of (al_erase k xs) = (map_of xs)(k := None)"
  by (induction xs) (auto simp: al_erase_def fun_eq_iff)

text \<open>
  \<open>fetch_add\<close> wraps at 32 bits and \<open>%\<close> keeps the sign of its left operand; adding the \<open>size_t\<close> loop
  counter makes the second remainder an unsigned one.
\<close>

definition c_rem :: "int \<Rightarrow> int \<Rightarrow> int" where
  "c_rem a b = sgn a * (\<bar>a\<bar> mod \<bar>b\<bar>)"

definition rr_index :: "int \<Rightarrow> nat \<Rightarrow> nat \<Rightarrow> nat" where
  "rr_index start n i = nat (((start + int i) mod 2 ^ 64) mod int n)"

text \<open>\<open>sprintf("%02x")\<close> of every byte.\<close>

definition hex_digit :: "nat \<Rightarrow> char" where
  "hex_digit n = (if n < 10 then char_of (48 + n) else char_of (87 + n))"

definition hex_of :: "bytes \<Rightarrow> string" where
  "hex_of bs = concat (map (\<lambda>b. [hex_digit (unat b div 16), hex_digit (unat b mod 16)]) bs)"

definition hex_sha256 :: "(bytes \<Rightarrow> bytes) \<Rightarrow> string \<Rightarrow> string" where
  "hex_sha256 sha data = hex_of (sha (bytes_of data))"

text \<open>The object representation of a \<open>uint64_t\<close> on the little-endian machines the program runs on.\<close>

definition u64_bytes :: "u64 \<Rightarrow> bytes" where
  "u64_bytes v = map (\<lambda>i. ucast (drop_bit (8 * i) v)) [0..<8]"

definition u64_of_bytes :: "bytes \<Rightarrow> u64" where
  "u64_of_bytes bs = foldr (\<lambda>b acc. push_bit 8 acc OR ucast b) (take 8 bs) 0"

text \<open>What is in the way of the next read: more may follow, nothing more is to be had, return at once.\<close>

datatype read_step = ReadMore | ReadStop | ReadReturn

section \<open>Data connections\<close>

record PendingFrame =
  pf_seq :: u16
  pf_frame :: bytes
  sent_at :: millis

record DataConnection =
  dc_fd :: fd
  dc_writer :: WriteBuffer
  read_buf :: bytes
  dc_read_offset :: nat
  unacked :: "PendingFrame list"
  send_seq :: u16
  recv_seq :: u16

definition dc_new :: DataConnection where
  "dc_new = \<lparr>dc_fd = -1, dc_writer = wb_new, read_buf = [], dc_read_offset = 0, unacked = [],
     send_seq = 0, recv_seq = 0\<rparr>"

definition remember_frame :: "u16 \<Rightarrow> bytes \<Rightarrow> millis \<Rightarrow> DataConnection \<Rightarrow> DataConnection" where
  "remember_frame seq frame now dc =
     dc\<lparr>unacked := (if WIRE_MAX_UNACKED \<le> length (unacked dc) then tl (unacked dc) else unacked dc)
          @ [\<lparr>pf_seq = seq, pf_frame = frame, sent_at = now\<rparr>]\<rparr>"

text \<open>Sending a payload over an open data connection: number, frame, write, remember.\<close>

definition dc_send :: "bytes \<Rightarrow> millis \<Rightarrow> DataConnection \<Rightarrow> os \<Rightarrow> (int \<times> DataConnection \<times> os) option" where
  "dc_send data now dc w =
     (let seq = send_seq dc; dc = dc\<lparr>send_seq := seq + 1\<rparr>; frame = data_frame seq data
      in do {
        (ret, b, w) \<leftarrow> wb_write (dc_fd dc) frame (dc_writer dc) w;
        Some (ret, remember_frame seq frame now (dc\<lparr>dc_writer := b\<rparr>), w)
      })"

definition dc_ack :: "u16 \<Rightarrow> DataConnection \<Rightarrow> DataConnection" where
  "dc_ack ack_seq dc = dc\<lparr>unacked := dropWhile (\<lambda>u. pf_seq u \<le> ack_seq) (unacked dc)\<rparr>"

text \<open>A data frame arrives: whether it is dispatched, and the connection afterwards.\<close>

definition dc_accept :: "u16 \<Rightarrow> DataConnection \<Rightarrow> bool \<times> DataConnection" where
  "dc_accept seq dc =
     (if seq = recv_seq dc then (True, dc\<lparr>recv_seq := recv_seq dc + 1\<rparr>) else (False, dc))"

definition dc_send_ack :: "u16 \<Rightarrow> DataConnection \<Rightarrow> DataConnection" where
  "dc_send_ack seq dc = dc\<lparr>dc_writer := write_priority (ack_frame seq) (dc_writer dc)\<rparr>"

text \<open>The read buffer of a connection: emptied, a frame skipped, the skipped part given back.\<close>

definition clear_buffer :: "DataConnection \<Rightarrow> DataConnection" where
  "clear_buffer dc = dc\<lparr>read_buf := [], dc_read_offset := 0\<rparr>"

definition skip_bytes :: "nat \<Rightarrow> DataConnection \<Rightarrow> DataConnection" where
  "skip_bytes n dc = dc\<lparr>dc_read_offset := dc_read_offset dc + n\<rparr>"

definition trim_buffer :: "DataConnection \<Rightarrow> DataConnection" where
  "trim_buffer dc =
     (if MAX_PACKET_SIZE < dc_read_offset dc
      then dc\<lparr>read_buf := drop (dc_read_offset dc) (read_buf dc), dc_read_offset := 0\<rparr> else dc)"

text \<open>
  The retransmission loop of one connection.  It looks at the front frame again after sending it,
  finds its time stamp new, and leaves.
\<close>

partial_function (option) dc_retransmit ::
  "millis \<Rightarrow> DataConnection \<Rightarrow> os \<Rightarrow> (DataConnection \<times> os) option" where
  "dc_retransmit now dc w =
     (case unacked dc of
        [] \<Rightarrow> Some (dc, w)
      | oldest # rest \<Rightarrow>
          if now - sent_at oldest > WIRE_RETRANSMIT_MS
          then Option.bind (wb_write (dc_fd dc) (pf_frame oldest) (dc_writer dc) w)
                 (\<lambda>(_, b, w). dc_retransmit now
                    (dc\<lparr>dc_writer := b, unacked := oldest\<lparr>sent_at := now\<rparr> # rest\<rparr>) w)
          else Some (dc, w))"

declare dc_retransmit.simps [code]

section \<open>The receiving side\<close>

fun dc_receive :: "(u16 \<times> bytes) list \<Rightarrow> DataConnection \<Rightarrow> bytes list \<times> DataConnection" where
  "dc_receive [] dc = ([], dc)"
| "dc_receive ((seq, d) # fs) dc =
     (let (okay, dc) = dc_accept seq dc; (ds, dc) = dc_receive fs (dc_send_ack seq dc)
      in ((if okay then [d] else []) @ ds, dc))"

text \<open>The specification: the next frame of the stream is taken, any other one is not.\<close>

definition taken :: "nat \<Rightarrow> nat list \<Rightarrow> nat" where
  "taken k is = foldl (\<lambda>k i. if i = k then Suc k else k) k is"

fun in_window :: "nat \<Rightarrow> nat list \<Rightarrow> bool" where
  "in_window k [] \<longleftrightarrow> True"
| "in_window k (i # is) \<longleftrightarrow>
     i < k + 65536 \<and> k < i + 65536 \<and> in_window (if i = k then Suc k else k) is"

lemma u16_eq_iff:
  assumes "i < k + 65536" and "k < i + 65536"
  shows "(of_nat i :: u16) = of_nat k \<longleftrightarrow> i = k"
proof
  have one: "j = l" if "(of_nat j :: u16) = of_nat l" "l \<le> j" "j < l + 65536" for j l
  proof -
    from that(2) obtain d where d: "j = l + d" using le_Suc_ex by blast
    then have "(of_nat d :: u16) = 0" using that(1) by simp
    moreover have "unat (of_nat d :: u16) = d" using that(3) d by (simp add: unat_of_nat)
    ultimately show ?thesis using d by simp
  qed
  assume "(of_nat i :: u16) = of_nat k"
  then show "i = k" using one [of i k] one [of k i] assms by (cases "k \<le> i") auto
qed simp

lemma taken_mono: "k \<le> taken k is"
proof (induction "is" arbitrary: k)
  case (Cons i "is")
  from this [of k] this [of "Suc k"] show ?case by (auto simp: taken_def)
qed (simp add: taken_def)

lemma dc_receive_spec:
  assumes "in_window k is" and "recv_seq dc = of_nat k"
  shows "fst (dc_receive (map (\<lambda>i. (of_nat i, p i)) is) dc) = map p [k..<taken k is]
    \<and> recv_seq (snd (dc_receive (map (\<lambda>i. (of_nat i, p i)) is) dc)) = of_nat (taken k is)
    \<and> priority_chunks (dc_writer (snd (dc_receive (map (\<lambda>i. (of_nat i, p i)) is) dc)))
        = priority_chunks (dc_writer dc) @ map (\<lambda>i. ack_frame (of_nat i)) is"
  using assms
proof (induction "is" arbitrary: k dc)
  case Nil
  then show ?case by (simp add: taken_def)
next
  case (Cons i "is")
  let ?k = "if i = k then Suc k else k"
  let ?dc = "dc_send_ack (of_nat i) (snd (dc_accept (of_nat i) dc))"
  have eq: "(of_nat i :: u16) = of_nat k \<longleftrightarrow> i = k"
    using Cons.prems(1) by (intro u16_eq_iff) simp_all
  have acc: "fst (dc_accept (of_nat i) dc) \<longleftrightarrow> i = k" and rs: "recv_seq ?dc = of_nat ?k"
    and pc: "priority_chunks (dc_writer ?dc) = priority_chunks (dc_writer dc) @ [ack_frame (of_nat i)]"
    using Cons.prems(2) eq by (simp_all add: dc_accept_def dc_send_ack_def write_priority_def add.commute)
  have t: "taken k (i # is) = taken ?k is" by (simp add: taken_def)
  have up: "map p [k..<taken ?k is] = (if i = k then [p i] else []) @ map p [?k..<taken ?k is]"
    using taken_mono [of "Suc k" "is"] by (simp add: upt_conv_Cons)
  have "in_window ?k is" using Cons.prems(1) by simp
  from Cons.IH [OF this rs] show ?case
    unfolding t up using acc pc by (simp add: Let_def split_beta)
qed

section \<open>Properties\<close>

text \<open>
  C11: whatever data frames of a numbered stream arrive on a data connection, in whatever order and
  however often, the payloads passed on to the chain are the stream's own, in order, from the first one
  not yet passed on, without gap and without repetition, as long as a frame is less than 65536 positions
  away from the next one expected; and every arriving frame is acknowledged, in the order of arrival.
\<close>

theorem data_in_order_once:
  assumes "in_window k arrivals" and "recv_seq dc = of_nat k"
  shows "fst (dc_receive (map (\<lambda>i. (of_nat i, p i)) arrivals) dc) = map p [k..<taken k arrivals]
    \<and> priority_chunks (dc_writer (snd (dc_receive (map (\<lambda>i. (of_nat i, p i)) arrivals) dc)))
        = priority_chunks (dc_writer dc) @ map (\<lambda>i. ack_frame (of_nat i)) arrivals"
  using dc_receive_spec [OF assms] by blast

theorem data_in_order_once_witness:
  "fst (dc_receive (map (\<lambda>i. (of_nat i, [of_nat i])) [0, 0, 2, 1, 0, 2]) dc_new) = [[0], [1], [2]]"
proof -
  have "in_window 0 [0, 0, 2, 1, 0, 2]" by simp
  moreover have "recv_seq dc_new = of_nat 0" by (simp add: dc_new_def)
  ultimately show ?thesis
    using data_in_order_once [of 0 "[0, 0, 2, 1, 0, 2]" dc_new "\<lambda>i. [of_nat i]"]
    by (simp add: taken_def upt_rec)
qed

text \<open>
  An acknowledgement removes exactly the frames it covers, provided the frames still kept have
  rising numbers, that is, no wrap-around of the 16-bit counter lies among them.
\<close>

theorem ack_keeps_later:
  assumes "sorted (map pf_seq (unacked dc))"
  shows "unacked (dc_ack a dc) = filter (\<lambda>u. a < pf_seq u) (unacked dc)"
proof -
  have "dropWhile (\<lambda>u. pf_seq u \<le> a) us = filter (\<lambda>u. a < pf_seq u) us" if "sorted (map pf_seq us)" for us
    using that
  proof (induction us)
    case (Cons u us)
    show ?case
    proof (cases "pf_seq u \<le> a")
      case True
      then show ?thesis using Cons by (simp add: not_less)
    next
      case False
      then have "\<forall>v\<in>set us. a < pf_seq v" using Cons.prems by fastforce
      then show ?thesis using False by simp
    qed
  qed simp
  from this [OF assms] show ?thesis by (simp add: dc_ack_def)
qed

definition frame_no :: "u16 \<Rightarrow> PendingFrame" where
  "frame_no n = \<lparr>pf_seq = n, pf_frame = [], sent_at = 0\<rparr>"

theorem ack_keeps_later_witness:
  "unacked (dc_ack 6 (dc_new\<lparr>unacked := [frame_no 5, frame_no 6, frame_no 7]\<rparr>)) = [frame_no 7]"
proof -
  have "sorted (map pf_seq (unacked (dc_new\<lparr>unacked := [frame_no 5, frame_no 6, frame_no 7]\<rparr>)))"
    by (simp add: frame_no_def)
  from ack_keeps_later [OF this, of 6] show ?thesis by (simp add: frame_no_def)
qed

text \<open>
  C32: a frame that arrives ahead of the one expected is not passed on, yet it is acknowledged, and at the
  sender that acknowledgement discards the missing frame too: neither is ever sent again, and the
  receiver goes on waiting for the missing one.
\<close>

theorem gap_never_repaired:
  assumes "unacked snd_dc = missing # ahead # rest"
    and "pf_seq missing = recv_seq rcv_dc" and "pf_seq missing < pf_seq ahead"
  shows "dc_receive [(pf_seq ahead, d)] rcv_dc = ([], dc_send_ack (pf_seq ahead) rcv_dc)
     \<and> set (unacked (dc_ack (pf_seq ahead) snd_dc)) \<subseteq> set rest
     \<and> recv_seq (dc_send_ack (pf_seq ahead) rcv_dc) = pf_seq missing"
proof -
  have "\<not> pf_seq ahead = recv_seq rcv_dc" using assms(2,3) by auto
  moreover have "set (dropWhile (\<lambda>u. pf_seq u \<le> pf_seq ahead) rest) \<subseteq> set rest"
    by (meson set_dropWhileD subsetI)
  ultimately show ?thesis
    using assms less_imp_le [OF assms(3)] by (simp add: dc_accept_def dc_ack_def dc_send_ack_def)
qed

theorem gap_never_repaired_witness:
  "dc_receive [(1, [7])] dc_new = ([], dc_send_ack 1 dc_new)
   \<and> unacked (dc_ack 1 (dc_new\<lparr>unacked := [frame_no 0, frame_no 1]\<rparr>)) = []"
proof -
  have "unacked (dc_new\<lparr>unacked := [frame_no 0, frame_no 1]\<rparr>) = frame_no 0 # frame_no 1 # []"
    "pf_seq (frame_no 0) = recv_seq dc_new" "pf_seq (frame_no 0) < pf_seq (frame_no 1)"
    by (simp_all add: frame_no_def dc_new_def)
  from gap_never_repaired [OF this, of "[7]"] show ?thesis by (simp add: frame_no_def)
qed

text \<open>
  The comparison of acknowledgements knows no wrap-around: the acknowledgement of frame 65535
  discards every frame kept, also those numbered from 0 on that are still under way.
\<close>

theorem ack_at_wrap_discards_all: "unacked (dc_ack 65535 dc) = []"
proof -
  have "unat (pf_seq u) < 65536" for u :: PendingFrame using unsigned_less [of "pf_seq u"] by simp
  then have "pf_seq u \<le> 65535" for u :: PendingFrame by (simp add: word_le_nat_alt less_Suc_eq_le [symmetric])
  then show ?thesis by (simp add: dc_ack_def)
qed

text \<open>
  C31: one pass of the retransmission loop over a connection ends; it sends the oldest frame again if its
  time is up and no other frame, and it keeps the numbers and the order of the frames it holds.
\<close>

theorem retransmit_oldest_only:
  assumes "wb_inv (dc_writer dc)" and "unacked dc = oldest # rest" and "pf_frame oldest \<noteq> []"
  shows "dc_retransmit now dc w \<noteq> None
    \<and> dc_retransmit now dc w =
       (if now - sent_at oldest > WIRE_RETRANSMIT_MS
        then map_option (\<lambda>(r, b, w'). (dc\<lparr>dc_writer := b, unacked := oldest\<lparr>sent_at := now\<rparr> # rest\<rparr>, w'))
               (wb_write (dc_fd dc) (pf_frame oldest) (dc_writer dc) w)
        else Some (dc, w))"
proof (cases "now - sent_at oldest > WIRE_RETRANSMIT_MS")
  case True
  obtain r b w' where wr: "wb_write (dc_fd dc) (pf_frame oldest) (dc_writer dc) w = Some (r, b, w')"
    using wb_write_spec [OF assms(1,3)] by blast
  then have "dc_retransmit now dc w =
      dc_retransmit now (dc\<lparr>dc_writer := b, unacked := oldest\<lparr>sent_at := now\<rparr> # rest\<rparr>) w'"
    using True assms(2) by (subst dc_retransmit.simps) simp
  also have "\<dots> = Some (dc\<lparr>dc_writer := b, unacked := oldest\<lparr>sent_at := now\<rparr> # rest\<rparr>, w')"
    by (subst dc_retransmit.simps) simp
  finally show ?thesis using True wr by simp
next
  case False
  then show ?thesis using assms(2) by (subst dc_retransmit.simps, subst dc_retransmit.simps) simp
qed

theorem retransmit_oldest_only_witness:
  "map_option (\<lambda>(dc, w). (map sent_at (unacked dc), fd_stream 4 w))
     (dc_retransmit 500 (dc_new\<lparr>dc_fd := 4, unacked := [(frame_no 0)\<lparr>pf_frame := [9]\<rparr>, frame_no 1]\<rparr>)
        (os_with [Wrote 1]))
   = Some ([500, 0], [9])"
proof -
  let ?dc = "dc_new\<lparr>dc_fd := 4, unacked := [(frame_no 0)\<lparr>pf_frame := [9]\<rparr>, frame_no 1]\<rparr>"
  have "wb_inv (dc_writer ?dc)" "unacked ?dc = (frame_no 0)\<lparr>pf_frame := [9]\<rparr> # [frame_no 1]"
    "pf_frame ((frame_no 0)\<lparr>pf_frame := [9]\<rparr>) \<noteq> []"
    by (simp_all add: dc_new_def)
  from retransmit_oldest_only [OF this, of 500 "os_with [Wrote 1]"]
  show ?thesis
    by (simp add: frame_no_def dc_new_def wb_new_def wb_write_def sys_write_def os_with_def fd_stream_def)
qed

end
