(* ===== verification/Control_Seq.thy ===== *)
theory Control_Seq
  imports Wire_Frame
begin

text \<open>
  The reordering buffer for control messages, \<open>deliver_control\<close> of \<open>src/server/session.cpp\<close> and
  \<open>src/client/client.cpp\<close> (the two bodies are the same).  The sender numbers its control messages
  with an 8-bit counter and spreads them over the data connections; the receiver applies message
  \<open>exp_control_seq_\<close> at once and parks any other one in the slot of its number.  The arrays
  \<open>pending_control_\<close> and \<open>pending_control_valid_\<close> are one partial map.  \<open>ap\<close> stands for
  \<open>apply_control\<close>, which touches neither.
\<close>

section \<open>Definitions\<close>

record ControlRecv =
  exp_control_seq :: byte
  pending_control :: "byte \<rightharpoonup> Packet"

definition ctl_new :: ControlRecv where
  "ctl_new = \<lparr>exp_control_seq = 0, pending_control = (\<lambda>_. None)\<rparr>"

function drain_control ::
  "(Packet \<Rightarrow> 's \<Rightarrow> 's option) \<Rightarrow> ControlRecv \<Rightarrow> 's \<Rightarrow> (ControlRecv \<times> 's) option" where
  "drain_control ap c s =
     (case pending_control c (exp_control_seq c) of
        None \<Rightarrow> Some (c, s)
      | Some pkt \<Rightarrow>
          Option.bind (ap pkt s)
            (drain_control ap
               (c\<lparr>pending_control := (pending_control c)(exp_control_seq c := None),
                  exp_control_seq := exp_control_seq c + 1\<rparr>)))"
  by pat_completeness auto
termination
proof (relation "measure (\<lambda>(ap, c, s). card (dom (pending_control c)))", goal_cases)
  case (2 ap c s pkt s')
  then have "exp_control_seq c \<in> dom (pending_control c)" by auto
  with card_Diff1_less [OF finite this] show ?case by simp
qed simp

declare drain_control.simps [simp del]

definition deliver_control ::
  "(Packet \<Rightarrow> 's \<Rightarrow> 's option) \<Rightarrow> byte \<Rightarrow> Packet \<Rightarrow> ControlRecv \<Rightarrow> 's \<Rightarrow> (ControlRecv \<times> 's) option" where
  "deliver_control ap seq pkt c s =
     (if seq = exp_control_seq c
      then Option.bind (ap pkt s)
             (drain_control ap (c\<lparr>exp_control_seq := exp_control_seq c + 1\<rparr>))
      else Some (c\<lparr>pending_control := (pending_control c)(seq \<mapsto> pkt)\<rparr>, s))"

text \<open>The messages of all connections in the order in which they are read.\<close>

fun deliver_all ::
  "(Packet \<Rightarrow> 's \<Rightarrow> 's option) \<Rightarrow> (byte \<times> Packet) list \<Rightarrow> ControlRecv \<Rightarrow> 's \<Rightarrow> (ControlRecv \<times> 's) option" where
  "deliver_all ap [] c s = Some (c, s)"
| "deliver_all ap ((seq, pkt) # rest) c s =
     Option.bind (deliver_control ap seq pkt c s) (\<lambda>(c, s). deliver_all ap rest c s)"

text \<open>The specification: the messages applied one after the other.\<close>

fun apply_all :: "(Packet \<Rightarrow> 's \<Rightarrow> 's option) \<Rightarrow> Packet list \<Rightarrow> 's \<Rightarrow> 's option" where
  "apply_all ap [] s = Some s"
| "apply_all ap (p # ps) s = Option.bind (ap p s) (apply_all ap ps)"

lemma apply_all_append:
  "apply_all ap (xs @ ys) s = Option.bind (apply_all ap xs s) (apply_all ap ys)"
  by (induction xs arbitrary: s) (auto split: bind_splits)

section \<open>The window invariant\<close>

text \<open>The position in the stream, at or after \<open>j\<close>, that a slot number stands for.\<close>

definition position :: "nat \<Rightarrow> byte \<Rightarrow> nat" where
  "position j b = j + unat (b - of_nat j)"

definition parked :: "(nat \<Rightarrow> Packet) \<Rightarrow> nat \<Rightarrow> nat set \<Rightarrow> byte \<rightharpoonup> Packet" where
  "parked p j A = (\<lambda>b. if position j b \<in> A then Some (p (position j b)) else None)"

lemma unat_byte_less: "unat (b :: byte) < 256"
  using unsigned_less [of b] by simp

lemma position_bounds: "j \<le> position j b" "position j b < j + 256"
  using unat_byte_less by (simp_all add: position_def)

lemma position_of_nat: "j \<le> i \<Longrightarrow> i < j + 256 \<Longrightarrow> position j (of_nat i) = i"
proof -
  assume i: "j \<le> i" "i < j + 256"
  obtain d where d: "i = j + d" using i(1) le_Suc_ex by blast
  then have "unat (of_nat d :: byte) = d" using i(2) by (simp add: unat_of_nat)
  then show ?thesis by (simp add: position_def d)
qed

lemma of_nat_position [simp]: "of_nat (position j b) = b"
  by (simp add: position_def)

lemma position_Suc:
  "position (Suc j) b = (if b = of_nat j then j + 256 else position j b)"
proof (cases "b = of_nat j")
  case True
  then have "b - of_nat (Suc j) = (- 1 :: byte)" by simp
  then have "unat (b - of_nat (Suc j)) = 255" by (simp only:) code_simp
  then show ?thesis using True by (simp only: position_def) simp
next
  case False
  have "position j b \<noteq> j" using False of_nat_position [of j b] by metis
  then have "Suc j \<le> position j b" "position j b < Suc j + 256"
    using position_bounds [of j b] by linarith+
  from position_of_nat [OF this] show ?thesis using False by simp
qed

lemma parked_shift:
  assumes "\<forall>i\<in>A. i < j + 256"
  shows "(parked p j A)(of_nat j := None) = parked p (Suc j) (A - {j})"
proof
  fix b
  have "position j b \<noteq> j" if "b \<noteq> of_nat j" using that of_nat_position [of j b] by metis
  then show "((parked p j A)(of_nat j := None)) b = parked p (Suc j) (A - {j}) b"
    using assms by (auto simp: parked_def position_Suc)
qed

lemma parked_add:
  assumes "j \<le> i" "i < j + 256"
  shows "(parked p j A)(of_nat i \<mapsto> p i) = parked p j (insert i A)"
proof
  fix b
  have "position j b = i \<longleftrightarrow> b = of_nat i"
    using position_of_nat [OF assms] of_nat_position [of j b] by metis
  then show "((parked p j A)(of_nat i \<mapsto> p i)) b = parked p j (insert i A) b"
    by (auto simp: parked_def)
qed

abbreviation ctl_at :: "(nat \<Rightarrow> Packet) \<Rightarrow> nat \<Rightarrow> nat set \<Rightarrow> ControlRecv" where
  "ctl_at p j A \<equiv> \<lparr>exp_control_seq = of_nat j, pending_control = parked p j A\<rparr>"

text \<open>
  \<open>drained j A k\<close>: the messages from \<open>j\<close> up to, not including, \<open>k\<close> are parked in \<open>A\<close>, and \<open>k\<close>
  itself is not.
\<close>

definition drained :: "nat \<Rightarrow> nat set \<Rightarrow> nat \<Rightarrow> bool" where
  "drained j A k \<longleftrightarrow> j \<le> k \<and> {j..<k} \<subseteq> A \<and> k \<notin> A"

lemma drained_Suc:
  assumes "drained (Suc j) (A - {j}) k" and "j \<in> A"
  shows "drained j A k \<and> j < k"
proof -
  have jk: "j < k" using assms(1) by (simp add: drained_def)
  then have "{j..<k} = insert j {Suc j..<k}" by auto
  then show ?thesis using assms jk by (auto simp: drained_def)
qed

lemma drain_control_spec:
  assumes "finite A" and "\<forall>i\<in>A. j \<le> i \<and> i < j + 256"
  shows "\<exists>k. drained j A k \<and> drain_control ap (ctl_at p j A) s
      = map_option (\<lambda>s. (ctl_at p k {i \<in> A. k < i}, s)) (apply_all ap (map p [j..<k]) s)"
  using assms
proof (induction "card A" arbitrary: A j s rule: less_induct)
  case less
  have slot: "parked p j A (of_nat j) = (if j \<in> A then Some (p j) else None)"
    by (simp add: parked_def position_of_nat)
  show ?case
  proof (cases "j \<in> A")
    case False
    then have "{i \<in> A. j < i} = A" using less.prems(2) le_neq_implies_less by blast
    then have "drain_control ap (ctl_at p j A) s
        = map_option (\<lambda>s. (ctl_at p j {i \<in> A. j < i}, s)) (apply_all ap (map p [j..<j]) s)"
      using False slot by (simp add: drain_control.simps)
    then show ?thesis using False by (intro exI [of _ j] conjI) (simp_all add: drained_def)
  next
    case True
    let ?A = "A - {j}"
    have sm: "card ?A < card A" using less.prems(1) True by (rule card_Diff1_less)
    have fin: "finite ?A" using less.prems(1) by simp
    have win: "\<forall>i\<in>?A. Suc j \<le> i \<and> i < Suc j + 256"
    proof
      fix i assume "i \<in> ?A"
      then have "j \<le> i" "i < j + 256" "i \<noteq> j" using less.prems(2) by auto
      then show "Suc j \<le> i \<and> i < Suc j + 256" by simp
    qed
    have step: "drain_control ap (ctl_at p j A) s
        = Option.bind (ap (p j) s) (drain_control ap (ctl_at p (Suc j) ?A))"
      using True slot less.prems(2)
      by (subst drain_control.simps) (simp add: parked_shift add.commute)
    show ?thesis
    proof (cases "ap (p j) s")
      case None
      obtain k where "drained (Suc j) ?A k" using less.hyps [OF sm fin win] by blast
      note drained_Suc [OF this True]
      then show ?thesis using step None by (intro exI [of _ k]) (simp add: upt_conv_Cons)
    next
      case (Some s1)
      from less.hyps [OF sm fin win, of s1] obtain k where k: "drained (Suc j) ?A k"
        and eq: "drain_control ap (ctl_at p (Suc j) ?A) s1
          = map_option (\<lambda>s. (ctl_at p k {i \<in> ?A. k < i}, s)) (apply_all ap (map p [Suc j..<k]) s1)"
        by blast
      have jk: "j < k" and "drained j A k" using drained_Suc [OF k True] by simp_all
      moreover have "{i \<in> ?A. k < i} = {i \<in> A. k < i}" using jk by auto
      ultimately show ?thesis
        using step Some eq jk by (intro exI [of _ k]) (simp add: upt_conv_Cons)
    qed
  qed
qed

text \<open>One arrival, in a state where the messages before \<open>j\<close> are applied and those of \<open>A\<close> parked.\<close>

lemma deliver_control_spec:
  assumes "finite A" and "\<forall>i\<in>A. j < i \<and> i < j + 256" and "j \<le> m" "m < j + 256" "m \<notin> A"
  shows "\<exists>k. drained j (insert m A) k
    \<and> deliver_control ap (of_nat m) (p m) (ctl_at p j A) s
      = map_option (\<lambda>s. (ctl_at p k {i \<in> insert m A. k < i} , s)) (apply_all ap (map p [j..<k]) s)"
proof (cases "m = j")
  case True
  have j: "j \<notin> A" using assms(2) by blast
  have "parked p (Suc j) A = parked p (Suc j) (A - {j})" using j by simp
  also have "\<dots> = (parked p j A)(of_nat j := None)" using assms(2) by (simp add: parked_shift)
  also have "\<dots> = parked p j A" using j by (auto simp: parked_def position_of_nat)
  finally have shift: "parked p (Suc j) A = parked p j A" .
  have win: "\<forall>i\<in>A. Suc j \<le> i \<and> i < Suc j + 256" using assms(2) by auto
  have step: "deliver_control ap (of_nat m) (p m) (ctl_at p j A) s
      = Option.bind (ap (p j) s) (drain_control ap (ctl_at p (Suc j) A))"
    using True shift by (simp add: deliver_control_def add.commute)
  obtain k where k: "drained (Suc j) A k"
    and eq: "Option.bind (ap (p j) s) (drain_control ap (ctl_at p (Suc j) A))
      = map_option (\<lambda>s. (ctl_at p k {i \<in> A. k < i}, s))
          (Option.bind (ap (p j) s) (apply_all ap (map p [Suc j..<k])))"
  proof (cases "ap (p j) s")
    case None
    obtain k where "drained (Suc j) A k" using drain_control_spec [OF assms(1) win, of ap p s] by blast
    then show thesis by (rule that) (use None in simp)
  next
    case (Some s1)
    obtain k where "drained (Suc j) A k" and "drain_control ap (ctl_at p (Suc j) A) s1
        = map_option (\<lambda>s. (ctl_at p k {i \<in> A. k < i}, s)) (apply_all ap (map p [Suc j..<k]) s1)"
      using drain_control_spec [OF assms(1) win, of ap p s1] by blast
    then show thesis by (intro that) (use Some in simp_all)
  qed
  have dk: "drained j (insert m A) k \<and> j < k"
    using drained_Suc [of j "insert m A" k] k j True by simp
  then have "{i \<in> insert m A. k < i} = {i \<in> A. k < i}" using True by auto
  then show ?thesis
    using step eq dk by (intro exI [of _ k] conjI) (simp_all add: upt_conv_Cons)
next
  case False
  have "of_nat m \<noteq> (of_nat j :: byte)"
    using False assms(3,4) position_of_nat [of j m] position_of_nat [of j j] by auto
  then have "deliver_control ap (of_nat m) (p m) (ctl_at p j A) s = Some (ctl_at p j (insert m A), s)"
    using assms(3,4) by (simp add: deliver_control_def parked_add)
  moreover have "drained j (insert m A) j" using False assms(2) by (auto simp: drained_def)
  moreover have "{i \<in> insert m A. j < i} = insert m A" using False assms(2,3) by auto
  ultimately show ?thesis by (intro exI [of _ j]) simp
qed

text \<open>All arrivals: what is applied is the stream in its original order.\<close>

lemma deliver_all_spec:
  assumes "finite A" and "\<forall>i\<in>A. j < i \<and> i < j + 256" and "distinct ms"
    and "set ms \<inter> ({..<j} \<union> A) = {}" and "{..<j} \<union> A \<union> set ms = {..<n}"
    and "\<forall>pre m post. ms = pre @ m # post \<longrightarrow> (\<forall>i. i + 256 \<le> m \<longrightarrow> i \<in> {..<j} \<union> A \<union> set pre)"
  shows "deliver_all ap (map (\<lambda>i. (of_nat i, p i)) ms) (ctl_at p j A) s
    = map_option (\<lambda>s. (ctl_at p n {}, s)) (apply_all ap (map p [j..<n]) s)"
  using assms
proof (induction ms arbitrary: j A s)
  case Nil
  have eq: "i < n \<longleftrightarrow> i < j \<or> i \<in> A" for i
    using Nil.prems(5) by (simp add: set_eq_iff)
  have low: "j < i" if "i \<in> A" for i using Nil.prems(2) that by simp
  have "\<not> j < n" using eq [of j] low [of j] by auto
  moreover have "\<not> n < j" using eq [of n] by simp
  ultimately have jn: "j = n" by simp
  have "i \<notin> A" for i using eq [of i] low [of i] jn by auto
  then have "A = {}" by blast
  then show ?case using jn by simp
next
  case (Cons m ms)
  have m: "m \<notin> A" "\<not> m < j" using Cons.prems(4) by auto
  then have jm: "j \<le> m" by simp
  have "j \<notin> {..<j} \<union> A \<union> set []" using Cons.prems(2) by auto
  moreover have "j \<in> {..<j} \<union> A \<union> set []" if "j + 256 \<le> m"
    using Cons.prems(6) [rule_format, of "[]" m ms j] that by simp
  ultimately have m2: "m < j + 256" using not_le by blast
  obtain k where k: "drained j (insert m A) k"
    and eq: "deliver_control ap (of_nat m) (p m) (ctl_at p j A) s
      = map_option (\<lambda>s. (ctl_at p k {i \<in> insert m A. k < i} , s)) (apply_all ap (map p [j..<k]) s)"
    using deliver_control_spec [OF Cons.prems(1,2) jm m2 m(1), of ap p s] by (elim exE conjE)
  let ?A = "{i \<in> insert m A. k < i}"
  have jk: "j \<le> k" and sub: "{j..<k} \<subseteq> insert m A" and kA: "k \<notin> insert m A" using k by (auto simp: drained_def)
  have set_eq: "{..<k} \<union> ?A = {..<j} \<union> insert m A"
  proof
    have "i < j \<or> i \<in> insert m A" if "i < k" for i
      using that sub by (cases "i < j") (auto simp: subset_iff)
    then show "{..<k} \<union> ?A \<subseteq> {..<j} \<union> insert m A" by blast
    have "i \<in> {..<k} \<union> ?A" if "i \<in> insert m A" for i
      using that kA by (cases "i < k"; cases "i = k") auto
    then show "{..<j} \<union> insert m A \<subseteq> {..<k} \<union> ?A" using jk by auto
  qed
  have kn: "k \<le> n"
  proof -
    have "{..<k} \<subseteq> {..<j} \<union> insert m A" unfolding set_eq [symmetric] by (rule Un_upper1)
    also have "\<dots> \<subseteq> {..<n}" unfolding Cons.prems(5) [symmetric] by auto
    finally have "{..<k} \<subseteq> {..<n}" .
    then show ?thesis by (simp add: lessThan_subset_iff)
  qed
  have IH: "deliver_all ap (map (\<lambda>i. (of_nat i, p i)) ms) (ctl_at p k ?A) s'
      = map_option (\<lambda>s. (ctl_at p n {}, s)) (apply_all ap (map p [k..<n]) s')" for s'
  proof (rule Cons.IH)
    show "finite ?A" using Cons.prems(1) by simp
    have w: "\<forall>i\<in>insert m A. i < j + 256" using Cons.prems(2) m2 by auto
    show "\<forall>i\<in>?A. k < i \<and> i < k + 256"
    proof
      fix i assume i: "i \<in> ?A"
      then have "i < j + 256" using w by blast
      then have "i < k + 256" using jk by linarith
      then show "k < i \<and> i < k + 256" using i by simp
    qed
    show "distinct ms" using Cons.prems(3) by simp
    have "set ms \<inter> ({..<j} \<union> insert m A) = {}" using Cons.prems(3,4) by auto
    then show "set ms \<inter> ({..<k} \<union> ?A) = {}" unfolding set_eq .
    have "{..<j} \<union> insert m A \<union> set ms = {..<n}" unfolding Cons.prems(5) [symmetric] by auto
    then show "{..<k} \<union> ?A \<union> set ms = {..<n}" unfolding set_eq .
    show "\<forall>pre x post. ms = pre @ x # post \<longrightarrow> (\<forall>i. i + 256 \<le> x \<longrightarrow> i \<in> {..<k} \<union> ?A \<union> set pre)"
    proof (intro allI impI)
      fix pre x post i
      assume "ms = pre @ x # post" "i + 256 \<le> x"
      then have "i \<in> {..<j} \<union> A \<union> set (m # pre)"
        using Cons.prems(6) [rule_format, of "m # pre" x post i] by simp
      then have "i \<in> ({..<j} \<union> insert m A) \<union> set pre" by auto
      then show "i \<in> {..<k} \<union> ?A \<union> set pre" unfolding set_eq .
    qed
  qed
  have "[j..<n] = [j..<k] @ [k..<n]" using jk kn by (metis le_add_diff_inverse upt_add_eq_append)
  then show ?case
    using eq IH by (cases "apply_all ap (map p [j..<k]) s") (simp_all add: apply_all_append)
qed

section \<open>Properties\<close>

text \<open>
  C9: control messages numbered by the 8-bit counter and read in any order, over however many
  connections, are applied in the order in which they were sent, each exactly once, with nothing left
  parked, as long as no message overtakes one sent 256 or more positions before it.
\<close>

theorem control_resequenced:
  assumes "distinct order" and "set order = {..<n}"
    and "\<And>pre m post i. order = pre @ m # post \<Longrightarrow> i + 256 \<le> m \<Longrightarrow> i \<in> set pre"
  shows "deliver_all ap (map (\<lambda>i. (of_nat i, p i)) order) ctl_new s
    = map_option (\<lambda>s. (ctl_new\<lparr>exp_control_seq := of_nat n\<rparr>, s)) (apply_all ap (map p [0..<n]) s)"
proof -
  have new: "ctl_new = ctl_at p 0 {}" by (simp add: ctl_new_def parked_def)
  have "ctl_new\<lparr>exp_control_seq := of_nat n\<rparr> = ctl_at p n {}" by (simp add: ctl_new_def parked_def)
  moreover have "deliver_all ap (map (\<lambda>i. (of_nat i, p i)) order) (ctl_at p 0 {}) s
    = map_option (\<lambda>s. (ctl_at p n {}, s)) (apply_all ap (map p [0..<n]) s)"
    using assms by (intro deliver_all_spec) auto
  ultimately show ?thesis unfolding new by simp
qed

definition note_type :: "Packet \<Rightarrow> MessageType list \<Rightarrow> MessageType list option" where
  "note_type p ts = Some (ts @ [pkt_type p])"

theorem control_resequenced_witness:
  "deliver_all note_type (map (\<lambda>i. (of_nat i, \<lparr>pkt_type = of_nat (10 + i), pkt_payload = []\<rparr>)) [2, 0, 1]) ctl_new []
     = Some (ctl_new\<lparr>exp_control_seq := 3\<rparr>, [10, 11, 12])"
proof -
  have "i \<in> set pre" if "[2, 0, 1] = pre @ m # post" "i + 256 \<le> m" for pre post and m i :: nat
  proof -
    have "m \<in> set [2, 0, 1 :: nat]" using that(1) by simp
    then show ?thesis using that(2) by auto
  qed
  from control_resequenced [of "[2, 0, 1]" 3 note_type "\<lambda>i. \<lparr>pkt_type = of_nat (10 + i), pkt_payload = []\<rparr>" "[]", OF _ _ this]
  show ?thesis
    by (simp add: note_type_def upt_rec insert_commute lessThan_Suc numeral_3_eq_3 numeral_2_eq_2)
qed

lemma deliver_all_stalls:
  "\<forall>e\<in>set msgs. fst e \<noteq> exp_control_seq c \<Longrightarrow>
   \<exists>c'. deliver_all ap msgs c s = Some (c', s) \<and> exp_control_seq c' = exp_control_seq c"
proof (induction msgs arbitrary: c)
  case (Cons m msgs)
  let ?c = "c\<lparr>pending_control := (pending_control c)(fst m \<mapsto> snd m)\<rparr>"
  have "\<exists>c'. deliver_all ap msgs ?c s = Some (c', s) \<and> exp_control_seq c' = exp_control_seq ?c"
    using Cons.prems by (intro Cons.IH) simp
  then show ?case using Cons.prems by (cases m) (simp add: deliver_control_def)
qed simp

text \<open>
  If the message with the expected number never reaches \<open>deliver_control\<close>, none of the following ones is
  applied, however many arrive before the counter comes round.  (\<open>process_wire_buffer\<close> handles control frames
  that arrive together with the last authentication message itself and does not count them.)
\<close>

theorem uncounted_message_stalls:
  assumes "length ps \<le> 255"
  shows "\<exists>c'. deliver_all ap (map (\<lambda>i. (of_nat (Suc i), ps ! i)) [0..<length ps]) ctl_new s = Some (c', s)
    \<and> exp_control_seq c' = 0"
proof -
  have u: "unat (of_nat n :: byte) = n" if "n < 256" for n using that by (simp add: unat_of_nat)
  have "(of_nat (Suc i) :: byte) \<noteq> 0" if "i < length ps" for i
  proof -
    have "Suc i < 256" using that assms by simp
    from u [OF this] show ?thesis by (metis unsigned_0 nat.distinct(1))
  qed
  then show ?thesis
    using deliver_all_stalls [of "map (\<lambda>i. (of_nat (Suc i), ps ! i)) [0..<length ps]" ctl_new ap s]
    by (auto simp: ctl_new_def)
qed

theorem uncounted_message_stalls_witness:
  "\<exists>c'. deliver_all note_type (map (\<lambda>i. (of_nat (Suc i), [\<lparr>pkt_type = 7, pkt_payload = []\<rparr>] ! i)) [0..<1]) ctl_new []
     = Some (c', []) \<and> exp_control_seq c' = 0"
  using uncounted_message_stalls [of "[\<lparr>pkt_type = 7, pkt_payload = []\<rparr>]" note_type "[]"] by simp

end
