(* ===== verification/Chain_Owner.thy ===== *)
theory Chain_Owner
  imports Chain
begin

text \<open>
  The owner of a chain, a session of \<open>src/server\<close> or the client of \<open>src/client\<close>, holds it by a pointer that
  is null until the chain has been created, and calls its methods: the pair of the chain and the owner's own state.
\<close>

type_synonym ('c, 'k) owner = "'c Chain option \<times> 'k"

text \<open>A method call on \<open>chain_\<close>; the null pointer is undefined behaviour.\<close>

definition on_chain ::
  "(('c, 'k) world \<Rightarrow> ('a \<times> ('c, 'k) world) option) \<Rightarrow> ('c, 'k) owner \<Rightarrow> ('a \<times> ('c, 'k) owner) option" where
  "on_chain g w =
     (case fst w of
        None \<Rightarrow> None
      | Some c \<Rightarrow> map_option (\<lambda>(r, (c, s)). (r, (Some c, s))) (g (c, snd w)))"

definition chain_alloc :: "nat \<Rightarrow> ('c, 'k) owner \<Rightarrow> (ptr option \<times> ('c, 'k) owner) option" where
  "chain_alloc n = on_chain (\<lambda>(c, s). let (p, c) = alloc_buffer n c in Some (p, (c, s)))"

definition chain_free :: "ptr \<Rightarrow> ('c, 'k) owner \<Rightarrow> ('c, 'k) owner option" where
  "chain_free p w = map_option snd (on_chain (\<lambda>(c, s). map_option (\<lambda>c. ((), (c, s))) (free_buffer p c)) w)"

definition chain_store :: "ptr \<Rightarrow> nat \<Rightarrow> bytes \<Rightarrow> ('c, 'k) owner \<Rightarrow> ('c, 'k) owner option" where
  "chain_store p off bs w =
     map_option snd (on_chain (\<lambda>(c, s). map_option (\<lambda>c. ((), (c, s))) (store_buffer p off bs c)) w)"

definition bp_paused :: "nat \<Rightarrow> ('c, 'k) owner \<Rightarrow> bool" where
  "bp_paused dir w = (case fst w of None \<Rightarrow> False | Some c \<Rightarrow> is_backpressure_paused dir c)"

definition chain_quiet :: "('c, 'k) owner \<Rightarrow> bool" where
  "chain_quiet w = (case fst w of None \<Rightarrow> True | Some c \<Rightarrow> is_drained c)"

end
