(* ===== verification/Session_Io.thy ===== *)
theory Session_Io
  imports Endpoint Control_Seq Chain_Owner
begin

unbundle bit_operations_syntax

text \<open>
  \<open>src/server/session.h\<close> and the output side of \<open>session.cpp\<close>: the state of a session, the
  packets it sends, its target and data-connection writers and the \<open>wire_write\<close> entry its chain calls.

  \<open>Session\<close> holds the members of the class; \<open>env\<close> is the kernel, the sockets and the clock, and the
  function-static counters of \<open>alloc_conn_id\<close> and of \<open>alloc_module_id\<close> are members too.
  \<open>kept_alive\<close> says that the session is in \<open>g_paused_sessions\<close>; \<open>taken_over\<close> lists the calls of
  \<open>reconnect\<close> on other sessions.  The chain is
  kept beside the session (it calls back into it), as is the reordering buffer of \<open>deliver_control\<close>.
  Unordered maps are association lists; their order is the order of iteration, which the language
  leaves open.  The closures put into \<open>pending_io_\<close> and into the kernel's table are values of the two
  datatypes below.  The mutexes are not modelled: every operation is one step.
\<close>

section \<open>State\<close>

datatype State = AWAIT_AUTH1_CHALLENGE_RESP | AWAIT_AUTH1_OK | AWAIT_AUTH2_RESPONSE | AUTH_DONE
  | AWAIT_CONNECT_REQ | AWAIT_CHAIN_CREATE | RUNNING | DISCONNECTED

text \<open>\<open>state_ < AUTH_DONE\<close>\<close>

definition before_auth_done :: "State \<Rightarrow> bool" where
  "before_auth_done st \<longleftrightarrow> st \<in> {AWAIT_AUTH1_CHALLENGE_RESP, AWAIT_AUTH1_OK, AWAIT_AUTH2_RESPONSE}"

datatype session_handler =
    HClient                \<comment> \<open>the reader before authentication, \<open>server.cpp\<close>\<close>
  | HDataIn nat            \<comment> \<open>\<open>register_data_connection_reader\<close>\<close>
  | HDataOut nat           \<comment> \<open>\<open>register_data_conn_epollout\<close>\<close>
  | HTarget byte           \<comment> \<open>\<open>on_target_connected\<close>\<close>
  | HTargetOut byte        \<comment> \<open>\<open>register_target_epollout\<close>\<close>
  | HConnect byte byte     \<comment> \<open>\<open>setup_tunnel_target_async\<close>\<close>
  | HListen                \<comment> \<open>the listening socket, \<open>Server::start\<close>\<close>
  | HPending               \<comment> \<open>\<open>pending_handler\<close> of \<open>Server::start\<close>\<close>
  | HOf u64 session_handler \<comment> \<open>a callback of the session with this id\<close>

datatype pending_io = PioTargetOut byte | PioWriterPause byte | PioDataOut nat fd | PioDataFail nat

record TargetConn =
  tgt_fd :: fd
  addr :: string
  tgt_writer :: WriteBuffer
  writer_paused :: bool
  local_writer_sent :: bool
  ext_overflow_paused :: bool
  chain_paused :: bool
  local_chain_sent :: bool
  shutdown_wr :: bool
  shutdown_wr_sent :: bool
  epollin_removed :: bool

definition target_new :: "fd \<Rightarrow> string \<Rightarrow> TargetConn" where
  "target_new f a = \<lparr>tgt_fd = f, addr = a, tgt_writer = wb_new, writer_paused = False,
     local_writer_sent = False, ext_overflow_paused = False, chain_paused = False,
     local_chain_sent = False, shutdown_wr = False, shutdown_wr_sent = False, epollin_removed = False\<rparr>"

record PendingConnect =
  pc_fd :: fd
  pc_conn_id :: byte
  pc_req_id :: byte
  started_at :: millis

record Session =
  client_fd :: fd
  password :: string
  session_id :: u64
  st :: State
  recv_buf :: bytes
  challenge1 :: string
  chain_config :: ChainConfig
  in_fd :: "byte \<rightharpoonup> fd"
  in_paused :: "byte \<Rightarrow> bool"
  data_connections :: "DataConnection list"
  targets :: "(byte \<times> TargetConn) list"
  saved_targets :: "(byte \<times> string) list"
  pending_reconnect_targets :: "(byte \<times> string) list"
  paused :: bool
  pending_data_conns :: "(byte \<times> fd) list"
  pending_connects :: "(byte \<times> PendingConnect) list"
  total_extra :: int
  control_rr_counter :: int
  control_seq :: byte
  last_wire_activity :: millis
  heartbeating :: bool
  heartbeat_interval_ms :: int
  dc_paused :: bool
  bp1_since :: "millis option"
  pending_ios :: "pending_io list"
  disconnect_pending :: bool
  disconnect_ids :: "byte list"
  pending_disconnect_targets :: "byte list"
  kept_alive :: bool
  taken_over :: "(u64 \<times> fd) list"
  next_conn_id :: byte
  next_module_id :: int
  env :: "session_handler Env"

definition session_new :: "fd \<Rightarrow> string \<Rightarrow> int \<Rightarrow> u64 \<Rightarrow> session_handler Env \<Rightarrow> Session" where
  "session_new f pw hb sid E = \<lparr>client_fd = f, password = pw, session_id = sid,
     st = AWAIT_AUTH1_CHALLENGE_RESP, recv_buf = [], challenge1 = [], chain_config = cfg_default,
     in_fd = (\<lambda>_. None), in_paused = (\<lambda>_. False), data_connections = [], targets = [],
     saved_targets = [], pending_reconnect_targets = [], paused = False, pending_data_conns = [],
     pending_connects = [], total_extra = 0, control_rr_counter = 0, control_seq = 0,
     last_wire_activity = clock E, heartbeating = False, heartbeat_interval_ms = hb, dc_paused = False,
     bp1_since = None, pending_ios = [], disconnect_pending = False, disconnect_ids = [],
     pending_disconnect_targets = [], kept_alive = False, taken_over = [], next_conn_id = 0, next_module_id = 0, env = E\<rparr>"

section \<open>Access\<close>

definition upd_env :: "(session_handler Env \<Rightarrow> session_handler Env) \<Rightarrow> Session \<Rightarrow> Session" where
  "upd_env g s = s\<lparr>env := g (env s)\<rparr>"

definition upd_kernel :: "(session_handler Kernel \<Rightarrow> session_handler Kernel) \<Rightarrow> Session \<Rightarrow> Session" where
  "upd_kernel g s = upd_env (upd_kern g) s"

definition set_os :: "os \<Rightarrow> Session \<Rightarrow> Session" where
  "set_os w s = upd_env (\<lambda>E. E\<lparr>osys := w\<rparr>) s"

definition upd_dc :: "nat \<Rightarrow> (DataConnection \<Rightarrow> DataConnection) \<Rightarrow> Session \<Rightarrow> Session" where
  "upd_dc i g s = s\<lparr>data_connections := (data_connections s)[i := g (data_connections s ! i)]\<rparr>"

definition upd_target :: "byte \<Rightarrow> (TargetConn \<Rightarrow> TargetConn) \<Rightarrow> Session \<Rightarrow> Session" where
  "upd_target cid g s =
     (case map_of (targets s) cid of
        None \<Rightarrow> s
      | Some t \<Rightarrow> s\<lparr>targets := al_put cid (g t) (targets s)\<rparr>)"

definition push_pio :: "pending_io \<Rightarrow> Session \<Rightarrow> Session" where
  "push_pio p s = upd_kernel wakeup (s\<lparr>pending_ios := pending_ios s @ [p]\<rparr>)"

section \<open>Sending\<close>

text \<open>One \<open>write\<close> on the client socket; a short write is not continued.\<close>

definition send_packet :: "Packet \<Rightarrow> Session \<Rightarrow> Session" where
  "send_packet pkt s = set_os (snd (sys_write (client_fd s) (serialize pkt) (osys (env s)))) s"

definition register_data_conn_epollout :: "nat \<Rightarrow> fd \<Rightarrow> Session \<Rightarrow> Session" where
  "register_data_conn_epollout idx f s =
     (if length (data_connections s) \<le> idx then s
      else if registered (dc_writer (data_connections s ! idx)) then s
      else upd_kernel (add_fd_handler f (HDataOut idx) EPOLLOUT)
             (upd_dc idx (\<lambda>dc. dc\<lparr>dc_writer := (dc_writer dc)\<lparr>registered := True\<rparr>\<rparr>) s))"

definition register_target_epollout :: "byte \<Rightarrow> fd \<Rightarrow> Session \<Rightarrow> Session" where
  "register_target_epollout cid tfd s =
     (case map_of (targets s) cid of
        None \<Rightarrow> s
      | Some t \<Rightarrow>
          if registered (tgt_writer t) then s
          else upd_kernel (add_fd_handler tfd (HTargetOut cid) EPOLLOUT)
                 (upd_target cid (\<lambda>t. t\<lparr>tgt_writer := (tgt_writer t)\<lparr>registered := True\<rparr>\<rparr>) s))"

fun send_control_on :: "bytes \<Rightarrow> int \<Rightarrow> nat list \<Rightarrow> Session \<Rightarrow> Session" where
  "send_control_on framed start [] s = s"
| "send_control_on framed start (i # is) s =
     (let idx = rr_index start (length (data_connections s)) i; dc = data_connections s ! idx
      in if dc_fd dc < 0 then send_control_on framed start is s
         else let s = upd_dc idx (\<lambda>dc. dc\<lparr>dc_writer := write_priority framed (dc_writer dc)\<rparr>) s
              in if registered (dc_writer dc) then s else register_data_conn_epollout idx (dc_fd dc) s)"

definition send_control :: "Packet \<Rightarrow> Session \<Rightarrow> Session" where
  "send_control pkt s =
     (let framed = control_frame (control_seq s) pkt;
          s = s\<lparr>control_seq := control_seq s + 1\<rparr>
      in if data_connections s = [] then s
         else let n = length (data_connections s);
                  start = c_rem (control_rr_counter s) (int n);
                  s = s\<lparr>control_rr_counter := int32 (control_rr_counter s + 1)\<rparr>
              in send_control_on framed start [0..<n] s)"

definition send_writer_pause :: "byte \<Rightarrow> Session \<Rightarrow> Session" where
  "send_writer_pause cid s = send_control (make_msg MSG_WRITER_PAUSE [cid]) s"

definition send_writer_resume :: "byte \<Rightarrow> Session \<Rightarrow> Session" where
  "send_writer_resume cid s = send_control (make_msg MSG_WRITER_RESUME [cid]) s"

definition send_chain_pause :: "Session \<Rightarrow> Session" where
  "send_chain_pause s = send_control (make_msg MSG_CHAIN_PAUSE []) s"

definition send_chain_resume :: "Session \<Rightarrow> Session" where
  "send_chain_resume s = send_control (make_msg MSG_CHAIN_RESUME []) s"

text \<open>\<open>dc.writer.write\<close> and \<open>dc.writer.flush\<close> on connection \<open>idx\<close>.\<close>

definition dc_write :: "nat \<Rightarrow> bytes \<Rightarrow> Session \<Rightarrow> Session option" where
  "dc_write idx data s =
     (let dc = data_connections s ! idx in do {
        (_, b, w) \<leftarrow> wb_write (dc_fd dc) data (dc_writer dc) (osys (env s));
        Some (set_os w (upd_dc idx (\<lambda>dc. dc\<lparr>dc_writer := b\<rparr>) s))
      })"

definition dc_flush :: "nat \<Rightarrow> Session \<Rightarrow> (bool \<times> Session) option" where
  "dc_flush idx s =
     (let dc = data_connections s ! idx in do {
        (r, b, w) \<leftarrow> wb_flush (dc_fd dc) (dc_writer dc) (osys (env s));
        Some (r, set_os w (upd_dc idx (\<lambda>dc. dc\<lparr>dc_writer := b\<rparr>) s))
      })"

text \<open>\<open>if (!dc.writer.registered && dc.writer.size() > 0) register_data_conn_epollout(idx, dc.fd)\<close>\<close>

definition dc_ensure_epollout :: "nat \<Rightarrow> Session \<Rightarrow> Session" where
  "dc_ensure_epollout idx s =
     (let dc = data_connections s ! idx
      in if \<not> registered (dc_writer dc) \<and> wb_size (dc_writer dc) > 0
         then register_data_conn_epollout idx (dc_fd dc) s else s)"

section \<open>The write side of a target\<close>

text \<open>
  \<open>SHUTDOWN_WR\<close> for a target: remember it, and shut the socket down at once if nothing is buffered or
  the buffer can be flushed.
\<close>

definition target_shutdown :: "byte \<Rightarrow> Session \<Rightarrow> Session option" where
  "target_shutdown cid s =
     (case map_of (targets s) cid of
        None \<Rightarrow> Some s
      | Some t \<Rightarrow> do {
          let s = upd_target cid (\<lambda>t. t\<lparr>shutdown_wr := True\<rparr>) s;
          (r, b, w) \<leftarrow> (if wb_empty (tgt_writer t) then Some (True, tgt_writer t, osys (env s))
                         else wb_flush (tgt_fd t) (tgt_writer t) (osys (env s)));
          let s = set_os w (upd_target cid (\<lambda>t. t\<lparr>tgt_writer := b\<rparr>) s);
          Some (if r
                then set_os (sys_shutdown_wr (tgt_fd t) w)
                       (upd_target cid (\<lambda>t. t\<lparr>shutdown_wr_sent := True\<rparr>) s)
                else s)
        })"

section \<open>\<open>wire_write\<close>\<close>

definition wire_write_target :: "bytes \<Rightarrow> Session \<Rightarrow> (int \<times> Session) option" where
  "wire_write_target data s =
     (if length data < 1 then Some (0, s)
      else if data ! 0 = 255 then
        (if 3 \<le> length data \<and> data ! 1 = CHAIN_CTRL_SHUTDOWN_WR
         then map_option (\<lambda>s. (0, s)) (target_shutdown (data ! 2) s)
         else Some (0, s))
      else let cid = data ! 0 in
        case map_of (targets s) cid of
          None \<Rightarrow> Some (0, s)
        | Some t \<Rightarrow> do {
            (ret, b, w) \<leftarrow> wb_write (tgt_fd t) (drop 1 data) (tgt_writer t) (osys (env s));
            let s = set_os w (upd_target cid (\<lambda>t. t\<lparr>tgt_writer := b\<rparr>) s);
            let need_pause = (ret > 0 \<and> \<not> in_paused s cid);
            let s = (if need_pause then s\<lparr>in_paused := (in_paused s)(cid := True)\<rparr> else s);
            let s = (if ret > 0 then push_pio (PioTargetOut cid) s else s);
            let s = (if need_pause then push_pio (PioWriterPause cid) s else s);
            Some (0, s)
          })"

definition wire_write_data :: "int \<Rightarrow> bytes \<Rightarrow> Session \<Rightarrow> (int \<times> Session) option" where
  "wire_write_data dst data s =
     (if dst < 1 \<or> int (length (data_connections s)) < dst
         \<or> dc_fd (data_connections s ! nat (dst - 1)) < 0 then Some (-1, s)
      else let idx = nat (dst - 1); f = dc_fd (data_connections s ! idx) in do {
        (ret, dc, w) \<leftarrow> dc_send data (clock (env s)) (data_connections s ! idx) (osys (env s));
        let s = set_os w (upd_dc idx (\<lambda>_. dc) s);
        Some (0, if ret > 0 then push_pio (PioDataOut idx f) s
                 else if ret < 0 then push_pio (PioDataFail idx) s
                 else s)
      })"

definition wire_write :: "int \<Rightarrow> bytes \<Rightarrow> Session \<Rightarrow> (int \<times> Session) option" where
  "wire_write dst data s = (if dst = 0 then wire_write_target data s else wire_write_data dst data s)"

definition alloc_module_id :: "Session \<Rightarrow> int \<times> Session" where
  "alloc_module_id s = (next_module_id s, s\<lparr>next_module_id := next_module_id s + 1\<rparr>)"

definition session_kapi :: "Session KernelAPI" where
  "session_kapi = \<lparr>ka_alloc_module_id = alloc_module_id, ka_wire_write = wire_write\<rparr>"

text \<open>The bodies of the closures \<open>wire_write\<close> leaves behind for the event loop.\<close>

fun run_pio :: "pending_io \<Rightarrow> Session \<Rightarrow> Session" where
  "run_pio (PioTargetOut cid) s =
     (case map_of (targets s) cid of None \<Rightarrow> s | Some t \<Rightarrow> register_target_epollout cid (tgt_fd t) s)"
| "run_pio (PioWriterPause cid) s =
     (case map_of (targets s) cid of
        None \<Rightarrow> s
      | Some t \<Rightarrow>
          if local_writer_sent t then s
          else send_writer_pause cid (upd_target cid (\<lambda>t. t\<lparr>local_writer_sent := True\<rparr>) s))"
| "run_pio (PioDataOut idx f) s =
     (if idx < length (data_connections s) \<and> 0 \<le> dc_fd (data_connections s ! idx)
      then register_data_conn_epollout idx f s else s)"
| "run_pio (PioDataFail idx) s =
     (if idx < length (data_connections s)
      then let f = dc_fd (data_connections s ! idx);
               s = upd_dc idx (\<lambda>dc. dc\<lparr>dc_writer := wb_clear (dc_writer dc)\<rparr>) s
           in if 0 \<le> f
              then upd_dc idx (\<lambda>dc. dc\<lparr>dc_fd := -1\<rparr>) (upd_env (env_close f) (upd_kernel (del_fd f) s))
              else s
      else s)"

section \<open>Flushing callbacks\<close>

text \<open>The callback of \<open>register_data_conn_epollout\<close>.\<close>

definition flush_round :: "nat \<Rightarrow> Session \<Rightarrow> Session option" where
  "flush_round idx s = do {
     (drained, s) \<leftarrow> dc_flush idx s;
     s \<leftarrow> (if drained then Some s else map_option snd (dc_flush idx s));
     let dc = data_connections s ! idx;
     Some (if wb_empty (dc_writer dc)
           then upd_kernel (mod_fd_events (dc_fd dc) 0 EPOLLOUT)
                  (upd_dc idx (\<lambda>dc. dc\<lparr>dc_writer := (dc_writer dc)\<lparr>registered := False\<rparr>\<rparr>) s)
           else s)
   }"

definition on_data_out :: "nat \<Rightarrow> fd \<Rightarrow> u32 \<Rightarrow> Session \<Rightarrow> Session option" where
  "on_data_out idx f events s = do {
     s \<leftarrow> (if events AND EPOLLOUT \<noteq> 0 \<and> idx < length (data_connections s) then flush_round idx s else Some s);
     if events AND (EPOLLERR OR EPOLLHUP) \<noteq> 0 \<and> idx < length (data_connections s)
     then Some (upd_dc idx (\<lambda>dc. dc\<lparr>dc_writer := wb_clear (dc_writer dc)\<rparr>) s)
     else Some s
   }"

text \<open>The callback of \<open>register_target_epollout\<close>.\<close>

definition target_drained :: "byte \<Rightarrow> fd \<Rightarrow> TargetConn \<Rightarrow> Session \<Rightarrow> Session" where
  "target_drained cid f t s =
     (let s = upd_target cid (\<lambda>t. t\<lparr>tgt_writer := (tgt_writer t)\<lparr>registered := False\<rparr>\<rparr>) s;
          s = upd_kernel (mod_fd_events f 0 EPOLLOUT) s;
          s = (if shutdown_wr t \<and> \<not> shutdown_wr_sent t
               then set_os (sys_shutdown_wr f (osys (env s)))
                      (upd_target cid (\<lambda>t. t\<lparr>shutdown_wr_sent := True\<rparr>) s)
               else s)
      in if local_writer_sent t
         then send_writer_resume cid
                ((upd_target cid (\<lambda>t. t\<lparr>local_writer_sent := False\<rparr>) s)\<lparr>in_paused := (in_paused s)(cid := False)\<rparr>)
         else s)"

definition on_target_out :: "byte \<Rightarrow> fd \<Rightarrow> u32 \<Rightarrow> Session \<Rightarrow> Session option" where
  "on_target_out cid f events s =
     (case (if events AND EPOLLOUT \<noteq> 0 then map_of (targets s) cid else None) of
        None \<Rightarrow>
          (if events AND EPOLLOUT \<noteq> 0 then Some s
           else if events AND (EPOLLERR OR EPOLLHUP) \<noteq> 0 then Some (s\<lparr>targets := al_erase cid (targets s)\<rparr>)
           else Some s)
      | Some t \<Rightarrow> do {
          (drained, b, w) \<leftarrow> wb_flush f (tgt_writer t) (osys (env s));
          let s = set_os w (upd_target cid (\<lambda>t. t\<lparr>tgt_writer := b\<rparr>) s);
          let s = (if drained then target_drained cid f t s else s);
          Some (if events AND (EPOLLERR OR EPOLLHUP) \<noteq> 0 then s\<lparr>targets := al_erase cid (targets s)\<rparr> else s)
        })"

end
