(* ===== verification/Session.thy ===== *)
theory Session
  imports Session_Io
begin

unbundle bit_operations_syntax

text \<open>
  \<open>src/server/session.cpp\<close>, the handlers: authentication, chain creation, targets, data connections,
  reconnecting, and the work of every tick.

  A handler works on the chain (absent before \<open>MSG_CHAIN_CREATE\<close>) and the session; \<open>None\<close> is undefined
  behaviour, such as following the null chain pointer, reading outside the receive buffer or freeing a
  buffer twice, or a call that never returns.  \<open>Setup\<close> holds what the program gets from
  elsewhere: the registry of modules (with the list of its names), the iteration order the chain constructor meets, the answers of
  \<open>malloc\<close> and \<open>rand\<close> inside the chain, and OpenSSL's \<open>SHA256\<close>.  Which other sessions can be taken over
  (registered, alive and paused) is \<open>su_resumable\<close>.
\<close>

record 'c Setup =
  su_bases :: "('c, Session) bases"
  su_names :: "string list"
  su_order :: "(nat \<times> int) list \<Rightarrow> (nat \<times> int) list"
  su_oom :: "bool list"
  su_rands :: "int list"
  su_sha256 :: "bytes \<Rightarrow> bytes"
  su_resumable :: "u64 \<Rightarrow> bool"

type_synonym 'c sworld = "('c, Session) owner"

abbreviation (input) CONNECT_TIMEOUT_MS :: int where "CONNECT_TIMEOUT_MS \<equiv> 5000"
abbreviation (input) CONN_ID_NONE :: byte where "CONN_ID_NONE \<equiv> 255"

definition in_session :: "(Session \<Rightarrow> Session) \<Rightarrow> 'c sworld \<Rightarrow> 'c sworld" where
  "in_session g w = (fst w, g (snd w))"

definition chain_push :: "ptr \<Rightarrow> nat \<Rightarrow> int \<Rightarrow> int \<Rightarrow> 'c sworld \<Rightarrow> 'c sworld option" where
  "chain_push p len src dir w =
     map_option snd (on_chain (\<lambda>w. map_option (\<lambda>w. ((), w)) (push_packet session_kapi p len src dir w)) w)"

section \<open>Authentication\<close>

definition handle_auth_challenge_response :: "'c Setup \<Rightarrow> Packet \<Rightarrow> Session \<Rightarrow> Session" where
  "handle_auth_challenge_response P pkt s =
     (let expected = hex_sha256 (su_sha256 P) (challenge1 s @ password s);
          got = string_of (pkt_payload pkt)
      in if got \<noteq> expected
         then (send_packet (make_msg MSG_AUTH_OK [0]) s)\<lparr>st := DISCONNECTED\<rparr>
         else (send_packet (make_msg MSG_AUTH_OK (1 # u64_bytes (session_id s))) s)\<lparr>st := AWAIT_AUTH1_OK\<rparr>)"

definition handle_auth2_challenge :: "'c Setup \<Rightarrow> Packet \<Rightarrow> Session \<Rightarrow> Session" where
  "handle_auth2_challenge P pkt s =
     (let challenge = string_of (pkt_payload pkt);
          resp = hex_sha256 (su_sha256 P) (challenge @ password s)
      in (send_packet (make_msg MSG_AUTH_RESPONSE (bytes_of resp)) s)\<lparr>st := AWAIT_AUTH2_RESPONSE\<rparr>)"

text \<open>
  A taken-over session gets the client's descriptor; the call of \<open>reconnect\<close> on it (below) is noted in
  \<open>taken_over\<close> and carried out by whoever holds both sessions.
\<close>

definition handle_reconnect :: "'c Setup \<Rightarrow> Packet \<Rightarrow> Session \<Rightarrow> Session" where
  "handle_reconnect P pkt s =
     (let fail = send_packet (make_msg MSG_AUTH_OK [0])
      in if length (pkt_payload pkt) \<noteq> 72 then fail s
      else let sid = u64_of_bytes (pkt_payload pkt);
               hash = string_of (take 64 (drop 8 (pkt_payload pkt)));
               expected = hex_sha256 (su_sha256 P) (challenge1 s @ password s)
      in if hash \<noteq> expected then (fail s)\<lparr>st := DISCONNECTED\<rparr>
      else if \<not> su_resumable P sid then fail s
      else (send_packet (make_msg MSG_AUTH_OK [1]) (s\<lparr>taken_over := taken_over s @ [(sid, client_fd s)]\<rparr>))
             \<lparr>client_fd := -1, st := DISCONNECTED\<rparr>)"

section \<open>Modules and the chain\<close>

text \<open>The module identifiers of a request, as hexadecimal text.\<close>

fun mids_of :: "nat \<Rightarrow> bytes \<Rightarrow> string list" where
  "mids_of 0 bs = []"
| "mids_of (Suc n) bs = hex_of (take 32 bs) # mids_of n (drop 32 bs)"

definition module_list_fail :: "string list \<Rightarrow> bytes" where
  "module_list_fail missing =
     0 # of_nat (length missing) # concat (map (\<lambda>m. of_nat (length m) # bytes_of m) missing)"

text \<open>\<open>known mid\<close>: some registered module has this identifier (the loop over \<open>ModuleBase::bases\<close>).\<close>

definition handle_module_list_req :: "(string \<Rightarrow> bool) \<Rightarrow> Packet \<Rightarrow> Session \<Rightarrow> Session" where
  "handle_module_list_req known pkt s =
     (case pkt_payload pkt of
        [] \<Rightarrow> s
      | count # rest \<Rightarrow>
          if length (pkt_payload pkt) < 1 + unat count * 32 then s
          else let missing = filter (\<lambda>m. \<not> known m) (mids_of (unat count) rest)
               in if missing = [] then send_control (make_msg MSG_MODULE_LIST_RES [1]) s
                  else (send_control (make_msg MSG_MODULE_LIST_RES (module_list_fail missing)) s)
                         \<lparr>st := DISCONNECTED\<rparr>)"

definition known_mid :: "('c, 'k) bases \<Rightarrow> string list \<Rightarrow> string \<Rightarrow> bool" where
  "known_mid B names mid \<longleftrightarrow> list_ex (\<lambda>n. case B n of None \<Rightarrow> False | Some b \<Rightarrow> mb_mid b = mid) names"

fun decode_modules :: "nat \<Rightarrow> bytes \<Rightarrow> ModuleSpec list" where
  "decode_modules 0 bs = []"
| "decode_modules (Suc n) bs =
     (if length bs < 1 then []
      else let name_len = unat (hd bs); bs = tl bs
      in if length bs < name_len then []
      else let name = string_of (take name_len bs); bs = drop name_len bs
      in if length bs < 2 then []
      else let plen = unat (le16 (bs ! 0) (bs ! 1)); bs = drop 2 bs
      in if length bs < plen then []
      else \<lparr>ms_name = name, ms_params = string_of (take plen bs)\<rparr> # decode_modules n (drop plen bs))"

section \<open>Targets\<close>

definition alloc_conn_id :: "Session \<Rightarrow> byte \<times> Session" where
  "alloc_conn_id s =
     (if map_of (targets s) (next_conn_id s) = None
      then (next_conn_id s, s\<lparr>next_conn_id := next_conn_id s + 1\<rparr>)
      else (CONN_ID_NONE, s))"

definition close_target :: "byte \<Rightarrow> Session \<Rightarrow> Session" where
  "close_target cid s =
     (case map_of (targets s) cid of
        None \<Rightarrow> s
      | Some t \<Rightarrow>
          (upd_env (env_close (tgt_fd t)) (upd_kernel (del_fd (tgt_fd t)) s))\<lparr>targets := al_erase cid (targets s)\<rparr>)"

text \<open>\<open>while (!targets_.empty()) close_target(targets_.begin()->first)\<close>\<close>

function close_all_targets :: "Session \<Rightarrow> Session" where
  "close_all_targets s =
     (case targets s of [] \<Rightarrow> s | (cid, _) # _ \<Rightarrow> close_all_targets (close_target cid s))"
  by pat_completeness auto
termination
  by (relation "measure (\<lambda>s. length (targets s))")
    (auto simp: close_target_def al_erase_def less_Suc_eq_le)

declare close_all_targets.simps [simp del]

definition connect_fail :: "byte \<Rightarrow> byte \<Rightarrow> Session \<Rightarrow> Session" where
  "connect_fail cid req s = send_control (make_msg MSG_CONNECT_FAIL [cid, req]) s"

definition on_target_connected :: "fd \<Rightarrow> byte \<Rightarrow> byte \<Rightarrow> Session \<Rightarrow> Session" where
  "on_target_connected f cid req s =
     (let s = s\<lparr>pending_connects := al_erase req (pending_connects s),
                targets := al_put cid (target_new f []) (targets s),
                in_fd := (in_fd s)(cid \<mapsto> f), in_paused := (in_paused s)(cid := False)\<rparr>;
          s = upd_kernel (add_fd_handler f (HTarget cid) EPOLLIN) s
      in send_control (make_msg MSG_CONNECT_OK [cid, req]) s)"

text \<open>The loop over the addresses of a name, with non-blocking connects.\<close>

fun connect_async :: "nat \<Rightarrow> byte \<Rightarrow> byte \<Rightarrow> Session \<Rightarrow> Session" where
  "connect_async 0 cid req s = connect_fail cid req s"
| "connect_async (Suc n) cid req s =
     (case sys_socket_connect (env s) of
        (None, E) \<Rightarrow> connect_async n cid req (s\<lparr>env := E\<rparr>)
      | (Some (f, ConnOk), E) \<Rightarrow> on_target_connected f cid req (s\<lparr>env := E\<rparr>)
      | (Some (f, ConnInProgress), E) \<Rightarrow>
          upd_kernel (add_fd_handler f (HConnect cid req) EPOLLOUT)
            (s\<lparr>env := E, pending_connects := al_put req \<lparr>pc_fd = f, pc_conn_id = cid, pc_req_id = req,
                 started_at = clock E\<rparr> (pending_connects s)\<rparr>)
      | (Some (f, ConnFail), E) \<Rightarrow> connect_async n cid req (s\<lparr>env := env_close f E\<rparr>))"

definition setup_tunnel_target_async :: "string \<Rightarrow> byte \<Rightarrow> byte \<Rightarrow> Session \<Rightarrow> Session" where
  "setup_tunnel_target_async target cid req s =
     (case str_find CHR '':'' target of
        None \<Rightarrow> connect_fail cid req s
      | Some colon \<Rightarrow>
          (case sys_getaddrinfo (c_str (take colon target)) (c_str (drop (colon + 1) target)) (env s) of
             (None, E) \<Rightarrow> connect_fail cid req (s\<lparr>env := E\<rparr>)
           | (Some n, E) \<Rightarrow> connect_async n cid req (s\<lparr>env := E\<rparr>)))"

definition handle_connect_req :: "Packet \<Rightarrow> Session \<Rightarrow> Session" where
  "handle_connect_req pkt s =
     (case pkt_payload pkt of
        req # addr_len # rest \<Rightarrow>
          if length rest < unat addr_len then s
          else let target = string_of (take (unat addr_len) rest); (cid, s) = alloc_conn_id s
               in if cid = CONN_ID_NONE then connect_fail 0 req s
                  else setup_tunnel_target_async target cid req s
      | _ \<Rightarrow> s)"

text \<open>The callback of a connect that was in progress.\<close>

definition on_connect_event :: "byte \<Rightarrow> byte \<Rightarrow> fd \<Rightarrow> u32 \<Rightarrow> Session \<Rightarrow> Session" where
  "on_connect_event cid req f events s =
     (let give_up = (\<lambda>s. connect_fail cid req
            ((upd_env (env_close f) s)\<lparr>pending_connects := al_erase req (pending_connects s)\<rparr>));
          s = (if events AND EPOLLOUT \<noteq> 0
               then let (okay, E) = sys_so_ok (env s); s = s\<lparr>env := E\<rparr>
                    in if okay then on_target_connected f cid req (upd_kernel (mod_fd_events f 0 EPOLLOUT) s)
                       else give_up s
               else s)
      in if events AND (EPOLLERR OR EPOLLHUP) \<noteq> 0
         then give_up (s\<lparr>env := snd (sys_so_ok (env s))\<rparr>) else s)"

definition handle_connect_cancel :: "Packet \<Rightarrow> Session \<Rightarrow> Session" where
  "handle_connect_cancel pkt s =
     (case pkt_payload pkt of
        [] \<Rightarrow> s
      | req # _ \<Rightarrow>
          (case map_of (pending_connects s) req of
             None \<Rightarrow> s
           | Some pc \<Rightarrow>
               (upd_env (env_close (pc_fd pc)) s)\<lparr>pending_connects := al_erase req (pending_connects s)\<rparr>))"

fun connect_timeouts :: "(byte \<times> PendingConnect) list \<Rightarrow> Session \<Rightarrow> Session" where
  "connect_timeouts [] s = s"
| "connect_timeouts ((req, pc) # rest) s =
     (if clock (env s) - started_at pc > CONNECT_TIMEOUT_MS
      then connect_timeouts rest
             ((connect_fail (pc_conn_id pc) (pc_req_id pc) (upd_env (env_close (pc_fd pc)) s))
                \<lparr>pending_connects := al_erase req (pending_connects s)\<rparr>)
      else connect_timeouts rest s)"

definition check_pending_connect_timeout :: "Session \<Rightarrow> Session" where
  "check_pending_connect_timeout s = connect_timeouts (pending_connects s) s"

definition handle_disconnect :: "Packet \<Rightarrow> Session \<Rightarrow> Session" where
  "handle_disconnect pkt s =
     (case pkt_payload pkt of
        [] \<Rightarrow> s
      | cid # _ \<Rightarrow>
          s\<lparr>in_fd := (in_fd s)(cid := None), in_paused := (in_paused s)(cid := False),
            pending_disconnect_targets := pending_disconnect_targets s @ [cid]\<rparr>)"

text \<open>The end of a target's stream.\<close>

definition send_disconnect_now :: "byte \<Rightarrow> 'c sworld \<Rightarrow> 'c sworld option" where
  "send_disconnect_now cid w =
     (case map_of (targets (snd w)) cid of
        None \<Rightarrow> Some w
      | Some t \<Rightarrow> do {
          let have_dc = (\<lambda>s. data_connections s \<noteq> [] \<and> 0 \<le> dc_fd (data_connections s ! 0));
          w \<leftarrow> (if have_dc (snd w)
                 then map_option (\<lambda>(_, s). (fst w, s)) (dc_flush 0 (snd w)) else Some w);
          if shutdown_wr_sent t then do {
            w \<leftarrow> (if have_dc (snd w)
                   then map_option (\<lambda>s. (fst w, dc_ensure_epollout 0 s)) (dc_write 0 [2, WIRE_SHUTDOWN_WR_ACK, cid] (snd w))
                   else Some w);
            Some (in_session (close_target cid) w)
          }
          else do {
            let w = in_session (close_target cid) w;
            if fst w \<noteq> None then do {
              (p, w) \<leftarrow> chain_alloc 3 w;
              ctrl \<leftarrow> p;
              w \<leftarrow> chain_store ctrl 0 [255, CHAIN_CTRL_DISCONNECT, cid] w;
              chain_push ctrl 3 0 0 w
            }
            else Some (in_session (send_control (make_msg MSG_DISCONNECT [cid])) w)
          }
        })"

fun send_disconnects :: "byte list \<Rightarrow> 'c sworld \<Rightarrow> 'c sworld option" where
  "send_disconnects [] w = Some w"
| "send_disconnects (cid # cids) w = Option.bind (send_disconnect_now cid w) (send_disconnects cids)"

definition send_pending_disconnects :: "'c sworld \<Rightarrow> 'c sworld option" where
  "send_pending_disconnects w =
     (if disconnect_ids (snd w) = [] then Some w
      else map_option (in_session (\<lambda>s. s\<lparr>disconnect_ids := [], disconnect_pending := False\<rparr>))
             (send_disconnects (disconnect_ids (snd w)) w))"

definition handle_target_eof :: "byte \<Rightarrow> 'c sworld \<Rightarrow> 'c sworld option" where
  "handle_target_eof cid w =
     (if map_of (targets (snd w)) cid = None then Some w
      else if \<not> chain_quiet w
      then Some (in_session (\<lambda>s. s\<lparr>disconnect_pending := True, disconnect_ids := disconnect_ids s @ [cid]\<rparr>) w)
      else send_disconnect_now cid w)"

text \<open>One \<open>read\<close> from a target into a chain buffer behind the connection id.\<close>

definition target_read :: "byte \<Rightarrow> fd \<Rightarrow> 'c sworld \<Rightarrow> (read_step \<times> 'c sworld) option" where
  "target_read cid f w =
     (if bp_paused 0 w then Some (ReadReturn, w)
      else do {
        (p, w) \<leftarrow> chain_alloc MAX_PACKET_SIZE w;
        case p of
          None \<Rightarrow> Some (ReadReturn, w)
        | Some rbuf \<Rightarrow>
            (case sys_read f (MAX_PACKET_SIZE - 1) (env (snd w)) of
               (ReadData d, E) \<Rightarrow> do {
                 w \<leftarrow> chain_store rbuf 1 d (in_session (\<lambda>s. s\<lparr>env := E\<rparr>) w);
                 if st (snd w) = RUNNING then do {
                   w \<leftarrow> chain_store rbuf 0 [cid] w;
                   map_option (\<lambda>w. (ReadMore, w)) (chain_push rbuf (1 + length d) 0 0 w)
                 }
                 else map_option (\<lambda>w. (ReadMore, w)) (chain_free rbuf w)
               }
             | (ReadAgain, E) \<Rightarrow>
                 map_option (\<lambda>w. (ReadStop, w)) (chain_free rbuf (in_session (\<lambda>s. s\<lparr>env := E\<rparr>) w))
             | (_, E) \<Rightarrow> do {
                 w \<leftarrow> chain_free rbuf (in_session (\<lambda>s. s\<lparr>env := E\<rparr>) w);
                 map_option (\<lambda>w. (ReadStop, w)) (handle_target_eof cid w)
               })
      })"

partial_function (option) target_drain :: "byte \<Rightarrow> fd \<Rightarrow> 'c sworld \<Rightarrow> 'c sworld option" where
  "target_drain cid f w =
     Option.bind (target_read cid f w)
       (\<lambda>(r, w). if r = ReadMore then target_drain cid f w else Some w)"

declare target_drain.simps [code]

text \<open>The read callback of a target (the two copies of it in the source do the same).\<close>

definition on_target_in :: "byte \<Rightarrow> fd \<Rightarrow> u32 \<Rightarrow> 'c sworld \<Rightarrow> 'c sworld option" where
  "on_target_in cid f events w = do {
     (r, w) \<leftarrow> (if events AND EPOLLIN \<noteq> 0 then target_read cid f w else Some (ReadStop, w));
     if r \<noteq> ReadReturn \<and> events AND (EPOLLERR OR EPOLLHUP) \<noteq> 0 then target_drain cid f w else Some w
   }"

section \<open>Data connections\<close>

definition register_data_connection_reader :: "nat \<Rightarrow> Session \<Rightarrow> Session" where
  "register_data_connection_reader idx s =
     (if length (data_connections s) \<le> idx then s
      else let f = dc_fd (data_connections s ! idx)
           in if f < 0 then s else upd_kernel (add_fd_handler f (HDataIn idx) EPOLLIN) s)"

text \<open>The loop over the addresses of a name, with blocking connects.\<close>

fun connect_blocking :: "nat \<Rightarrow> Session \<Rightarrow> fd \<times> Session" where
  "connect_blocking 0 s = (-1, s)"
| "connect_blocking (Suc n) s =
     (case sys_socket_connect (env s) of
        (None, E) \<Rightarrow> connect_blocking n (s\<lparr>env := E\<rparr>)
      | (Some (f, a), E) \<Rightarrow>
          if a = ConnOk then (f, s\<lparr>env := E\<rparr>) else connect_blocking n (s\<lparr>env := env_close f E\<rparr>))"

definition setup_tunnel_target :: "string \<Rightarrow> byte \<Rightarrow> Session \<Rightarrow> bool \<times> Session" where
  "setup_tunnel_target target cid s =
     (case str_find CHR '':'' target of
        None \<Rightarrow> (False, s)
      | Some colon \<Rightarrow>
          (case sys_getaddrinfo (c_str (take colon target)) (c_str (drop (colon + 1) target)) (env s) of
             (None, E) \<Rightarrow> (False, s\<lparr>env := E\<rparr>)
           | (Some n, E) \<Rightarrow>
               (let (f, s) = connect_blocking n (s\<lparr>env := E\<rparr>)
                in if f < 0 then (False, s)
                   else (True, s\<lparr>targets := al_put cid (target_new f target) (targets s)\<rparr>))))"

fun reconnect_targets :: "(byte \<times> string) list \<Rightarrow> Session \<Rightarrow> Session" where
  "reconnect_targets [] s = s"
| "reconnect_targets ((cid, target) # rest) s =
     (if map_of (targets s) cid \<noteq> None then reconnect_targets rest s
      else let (okay, s) = setup_tunnel_target target cid s
           in if \<not> okay then reconnect_targets rest s
              else case map_of (targets s) cid of
                     None \<Rightarrow> reconnect_targets rest s
                   | Some t \<Rightarrow> reconnect_targets rest
                       (upd_kernel (add_fd_handler (tgt_fd t) (HTarget cid) EPOLLIN)
                          (s\<lparr>in_fd := (in_fd s)(cid \<mapsto> tgt_fd t)\<rparr>)))"

definition process_pending_reconnect_targets :: "Session \<Rightarrow> Session" where
  "process_pending_reconnect_targets s =
     reconnect_targets (pending_reconnect_targets s) (s\<lparr>pending_reconnect_targets := []\<rparr>)"

definition all_ready :: "Session \<Rightarrow> bool" where
  "all_ready s \<longleftrightarrow> list_all (\<lambda>dc. 0 \<le> dc_fd dc) (data_connections s)"

definition transmit_ready :: "Session \<Rightarrow> Session" where
  "transmit_ready s = send_control (make_msg MSG_TRANSMIT_READY []) (process_pending_reconnect_targets s)"

definition add_data_connection :: "byte \<Rightarrow> fd \<Rightarrow> Session \<Rightarrow> Session" where
  "add_data_connection out f s =
     (let idx = unat out
      in if length (data_connections s) \<le> idx
         then s\<lparr>pending_data_conns := pending_data_conns s @ [(out, f)]\<rparr>
         else let old = data_connections s ! idx;
                  s = (if 0 \<le> dc_fd old
                       then upd_dc idx (\<lambda>dc. dc_new\<lparr>unacked := unacked dc, send_seq := send_seq dc, recv_seq := recv_seq dc\<rparr>)
                              (upd_env (env_close (dc_fd old)) (upd_kernel (del_fd (dc_fd old)) s))
                       else s);
                  s = register_data_connection_reader idx (upd_dc idx (\<lambda>dc. dc\<lparr>dc_fd := f\<rparr>) s)
              in if all_ready s \<and> st s = RUNNING then transmit_ready s else s)"

fun attach_data_conns :: "(byte \<times> fd) list \<Rightarrow> Session \<Rightarrow> Session" where
  "attach_data_conns [] s = s"
| "attach_data_conns ((out, f) # rest) s =
     (let idx = unat out
      in if idx < length (data_connections s) \<and> dc_fd (data_connections s ! idx) < 0
         then attach_data_conns rest (register_data_connection_reader idx (upd_dc idx (\<lambda>dc. dc\<lparr>dc_fd := f\<rparr>) s))
         else attach_data_conns rest (upd_env (env_close f) s))"

definition process_pending_data_conns :: "Session \<Rightarrow> Session" where
  "process_pending_data_conns s =
     (let s = (attach_data_conns (pending_data_conns s) s)\<lparr>pending_data_conns := []\<rparr>
      in if all_ready s \<and> st s = RUNNING then transmit_ready s else s)"

text \<open>
  A chain that is already there is destroyed: its queued packets are freed, which does not concern the
  session.
\<close>

definition handle_chain_create :: "'c Setup \<Rightarrow> Packet \<Rightarrow> 'c sworld \<Rightarrow> 'c sworld option" where
  "handle_chain_create P pkt w =
     (case pkt_payload pkt of
        [] \<Rightarrow> Some w
      | count # rest \<Rightarrow> do {
          let mods = decode_modules (unat count) rest;
          let s = snd w;
          let s = s\<lparr>chain_config := (chain_config s)\<lparr>cc_modules := mods\<rparr>\<rparr>;
          (c, s) \<leftarrow> chain_new (su_bases P) session_kapi (su_order P) (clock (env s)) (chain_config s)
                      (chain_empty\<lparr>oom := su_oom P, rands := su_rands P\<rparr>, s);
          if total_extra_outputs c > MAX_WIRE_CONNECTIONS then Some (Some c, s\<lparr>st := DISCONNECTED\<rparr>)
          else do {
            let c = set_pause_callback 1 (set_pause_callback 0 c);
            let te = total_extra_outputs c;
            let s = s\<lparr>st := RUNNING, total_extra := te\<rparr>;
            let s = (if length (data_connections s) < nat (1 + te)
                     then s\<lparr>data_connections := vec_resize (nat (1 + te)) dc_new (data_connections s)\<rparr> else s);
            let s = process_pending_data_conns s;
            let s = (if te > 0 \<and> all_ready s \<and> st s = RUNNING then transmit_ready s else s);
            let s = send_control (make_msg MSG_CHAIN_READY (1 # u64_bytes (session_id s))) s;
            Some (Some c, if te = 0 then transmit_ready s else s)
          }
        })"

section \<open>Losing and regaining the client\<close>

fun drop_data_conns :: "nat \<Rightarrow> DataConnection list \<Rightarrow> Session \<Rightarrow> Session" where
  "drop_data_conns i [] s = s"
| "drop_data_conns i (dc # dcs) s =
     drop_data_conns (i + 1) dcs
       (if 0 \<le> dc_fd dc
        then upd_dc i (\<lambda>dc. dc\<lparr>dc_fd := -1, dc_writer := wb_clear (dc_writer dc), read_buf := []\<rparr>)
               ((if i \<noteq> 0 then upd_env (env_close (dc_fd dc)) else (\<lambda>s. s)) (upd_kernel (del_fd (dc_fd dc)) s))
        else s)"

definition on_disconnect :: "Session \<Rightarrow> Session" where
  "on_disconnect s =
     (if paused s then s
      else if st s \<noteq> RUNNING then s
      else let s = s\<lparr>saved_targets := map (\<lambda>(cid, t). (cid, addr t)) (targets s)\<rparr>;
               s = close_all_targets s;
               s = drop_data_conns 0 (data_connections s) s
           in s\<lparr>paused := True\<rparr>)"

text \<open>\<open>data_connections_[0]\<close> on an empty vector is undefined.\<close>

definition reconnect :: "fd \<Rightarrow> Session \<Rightarrow> (bool \<times> Session) option" where
  "reconnect new_fd s =
     (if \<not> paused s then Some (False, s)
      else if data_connections s = [] then None
      else let s = (if 0 \<le> client_fd s \<and> client_fd s \<noteq> new_fd
                    then upd_env (env_close (client_fd s)) (upd_kernel (del_fd (client_fd s)) s) else s);
               s = s\<lparr>client_fd := new_fd, kept_alive := False\<rparr>;
               s = upd_dc 0 (\<lambda>dc. dc\<lparr>dc_writer := wb_clear (dc_writer dc), read_buf := [], dc_read_offset := 0,
                                  dc_fd := new_fd\<rparr>) s;
               s = register_data_connection_reader 0 s;
               s = s\<lparr>pending_reconnect_targets := saved_targets s, saved_targets := []\<rparr>;
               s = process_pending_reconnect_targets s
           in Some (True, s\<lparr>paused := False\<rparr>))"

text \<open>A setting for examples: no modules, and a digest that copies its input.\<close>

definition demo_setup :: "unit Setup" where
  "demo_setup = \<lparr>su_bases = (\<lambda>_. None), su_names = [], su_order = (\<lambda>x. x), su_oom = [], su_rands = [],
     su_sha256 = (\<lambda>bs. take 32 (bs @ replicate 32 0)), su_resumable = (\<lambda>_. False)\<rparr>"

end
