(* ===== verification/Session_Loop.thy ===== *)
theory Session_Loop
  imports Session
begin

unbundle bit_operations_syntax

text \<open>
  \<open>src/server/session.cpp\<close>, the entry points: what the event loop and the tick call.  Control messages
  (\<open>apply_control\<close>, \<open>process_wire_buffer\<close>, \<open>on_data\<close>), the frames of a data connection, the work of every
  tick (\<open>process_pending_io\<close>, \<open>check_heartbeat\<close>) and the destructor.
\<close>

section \<open>Pausing the targets\<close>

text \<open>A loop over all targets that changes each of them by \<open>g\<close> and then the kernel by \<open>h\<close>.\<close>

definition for_targets ::
  "(TargetConn \<Rightarrow> TargetConn) \<Rightarrow> (TargetConn \<Rightarrow> session_handler Kernel \<Rightarrow> session_handler Kernel)
   \<Rightarrow> Session \<Rightarrow> Session" where
  "for_targets g h s =
     upd_kernel (fold (\<lambda>(cid, t). h (g t)) (targets s)) (s\<lparr>targets := map (apsnd g) (targets s)\<rparr>)"

definition target_paused :: "TargetConn \<Rightarrow> bool" where
  "target_paused t \<longleftrightarrow> writer_paused t \<or> chain_paused t \<or> ext_overflow_paused t"

definition stop_reading :: "TargetConn \<Rightarrow> session_handler Kernel \<Rightarrow> session_handler Kernel" where
  "stop_reading t K = (if 0 \<le> tgt_fd t then mod_fd_events (tgt_fd t) 0 EPOLLIN K else K)"

definition resume_reading :: "TargetConn \<Rightarrow> session_handler Kernel \<Rightarrow> session_handler Kernel" where
  "resume_reading t K =
     (if 0 \<le> tgt_fd t \<and> \<not> target_paused t then mod_fd_events (tgt_fd t) EPOLLIN 0 K else K)"

definition writer_pause :: "byte \<Rightarrow> Session \<Rightarrow> Session" where
  "writer_pause cid s =
     (case map_of (targets s) cid of
        None \<Rightarrow> s
      | Some t \<Rightarrow> upd_kernel (mod_fd_events (tgt_fd t) 0 EPOLLIN)
                   (upd_target cid (\<lambda>t. t\<lparr>writer_paused := True\<rparr>) s))"

definition writer_resume :: "byte \<Rightarrow> Session \<Rightarrow> Session" where
  "writer_resume cid s =
     (case map_of (targets s) cid of
        None \<Rightarrow> s
      | Some t \<Rightarrow> upd_kernel (resume_reading (t\<lparr>writer_paused := False\<rparr>))
                   (upd_target cid (\<lambda>t. t\<lparr>writer_paused := False\<rparr>) s))"

definition recv_chain_pause :: "Session \<Rightarrow> Session" where
  "recv_chain_pause s = for_targets (\<lambda>t. t\<lparr>chain_paused := True\<rparr>) stop_reading s"

definition recv_chain_resume :: "Session \<Rightarrow> Session" where
  "recv_chain_resume s = for_targets (\<lambda>t. t\<lparr>chain_paused := False\<rparr>) resume_reading s"

section \<open>Control messages\<close>

definition apply_control :: "'c Setup \<Rightarrow> Packet \<Rightarrow> 'c sworld \<Rightarrow> 'c sworld option" where
  "apply_control P pkt w =
     (let ty = pkt_type pkt; cid = (case pkt_payload pkt of [] \<Rightarrow> 0 | c # _ \<Rightarrow> c)
      in if ty = MSG_CONNECT_REQ then Some (in_session (handle_connect_req pkt) w)
      else if ty = MSG_CONNECT_CANCEL then Some (in_session (handle_connect_cancel pkt) w)
      else if ty = MSG_DISCONNECT then Some (in_session (handle_disconnect pkt) w)
      else if ty = MSG_MODULE_LIST_REQ
        then Some (in_session (handle_module_list_req (known_mid (su_bases P) (su_names P)) pkt) w)
      else if ty = MSG_CHAIN_CREATE then handle_chain_create P pkt w
      else if ty = MSG_WRITER_PAUSE then Some (in_session (writer_pause cid) w)
      else if ty = MSG_WRITER_RESUME then Some (in_session (writer_resume cid) w)
      else if ty = MSG_CHAIN_PAUSE then Some (in_session recv_chain_pause w)
      else if ty = MSG_CHAIN_RESUME then Some (in_session recv_chain_resume w)
      else Some w)"

definition dispatch_data_conn_packet :: "bytes \<Rightarrow> int \<Rightarrow> 'c sworld \<Rightarrow> 'c sworld option" where
  "dispatch_data_conn_packet payload src w =
     (if length payload < 1 then Some w
      else if fst w \<noteq> None \<and> st (snd w) = RUNNING then do {
        (p, w) \<leftarrow> chain_alloc (length payload) w;
        case p of
          None \<Rightarrow> Some w
        | Some blob \<Rightarrow> do {
            w \<leftarrow> chain_store blob 0 payload w;
            chain_push blob (length payload) src 1 w
          }
      }
      else Some w)"

text \<open>
  A \<open>SHUTDOWN_WR\<close> frame: as \<open>target_shutdown\<close>, and when the buffer could not be flushed the rest is left
  to the write callback.
\<close>

definition recv_shutdown_wr :: "byte \<Rightarrow> Session \<Rightarrow> Session option" where
  "recv_shutdown_wr cid s =
     (if map_of (targets s) cid = None then Some s
      else do {
        s \<leftarrow> target_shutdown cid s;
        case map_of (targets s) cid of
          None \<Rightarrow> Some s
        | Some t \<Rightarrow> Some (if \<not> shutdown_wr_sent t \<and> \<not> registered (tgt_writer t)
                         then register_target_epollout cid (tgt_fd t) s else s)
      })"

text \<open>
  \<open>process_wire_buffer\<close>: the frames that arrived together with the last authentication message.  It
  calls the handlers directly, without \<open>deliver_control\<close>, and passes a data frame on with its two
  sequence bytes.
\<close>

definition wire_buffer_frame :: "'c Setup \<Rightarrow> bytes \<Rightarrow> 'c sworld \<Rightarrow> 'c sworld option" where
  "wire_buffer_frame P body w =
     (let ty = hd body
      in if ty = WIRE_CONTROL then
           (if length body < 2 then Some w
            else case try_parse (drop 2 body) of
                   NoPacket \<Rightarrow> Some w
                 | ParseOutOfRange \<Rightarrow> None
                 | Parsed _ pkt \<Rightarrow> apply_control P pkt w)
      else if ty = WIRE_SHUTDOWN_WR then
           (if 2 \<le> length body
            then map_option (\<lambda>s. (fst w, s)) (recv_shutdown_wr (body ! 1) (snd w)) else Some w)
      else if ty = WIRE_DATA then dispatch_data_conn_packet (tl body) 1 w
      else Some w)"

fun wire_buffer_frames :: "'c Setup \<Rightarrow> bytes list \<Rightarrow> 'c sworld \<Rightarrow> 'c sworld option" where
  "wire_buffer_frames P [] w = Some w"
| "wire_buffer_frames P (b # bs) w = Option.bind (wire_buffer_frame P b w) (wire_buffer_frames P bs)"

definition process_wire_buffer :: "'c Setup \<Rightarrow> bytes \<Rightarrow> 'c sworld \<Rightarrow> 'c sworld option" where
  "process_wire_buffer P data w =
     wire_buffer_frames P (fst (decode_all (length data) next_frame data)) w"

section \<open>The end of the authentication\<close>

definition handle_auth2_response :: "'c Setup \<Rightarrow> Packet \<Rightarrow> 'c sworld \<Rightarrow> 'c sworld option" where
  "handle_auth2_response P pkt w =
     (if 1 \<le> length (pkt_payload pkt) \<and> pkt_payload pkt ! 0 = 1
      then do {
        let w = in_session (\<lambda>s.
          let s = s\<lparr>data_connections := vec_resize 1 dc_new (data_connections s)\<rparr>
          in register_data_connection_reader 0 (upd_dc 0 (\<lambda>dc. dc\<lparr>dc_fd := client_fd s\<rparr>) s)) w;
        w \<leftarrow> (if recv_buf (snd w) = [] then Some w
               else map_option (in_session (\<lambda>s. s\<lparr>recv_buf := []\<rparr>))
                      (process_wire_buffer P (recv_buf (snd w)) w));
        Some (in_session (\<lambda>s. s\<lparr>st := AWAIT_CHAIN_CREATE\<rparr>) w)
      }
      else Some (in_session (\<lambda>s. s\<lparr>st := DISCONNECTED\<rparr>) w))"

section \<open>\<open>on_data\<close>\<close>

text \<open>One message before the authentication is complete.\<close>

definition auth_message :: "'c Setup \<Rightarrow> Packet \<Rightarrow> 'c sworld \<Rightarrow> 'c sworld option" where
  "auth_message P pkt w =
     (let ty = pkt_type pkt; s = st (snd w)
      in if ty = MSG_AUTH_RESPONSE \<and> s = AWAIT_AUTH1_CHALLENGE_RESP
           then Some (in_session (handle_auth_challenge_response P pkt) w)
      else if (ty = MSG_AUTH_RESPONSE \<or> ty = MSG_AUTH_OK) \<and> s = AWAIT_AUTH2_RESPONSE
           then handle_auth2_response P pkt w
      else if ty = MSG_AUTH_CHALLENGE \<and> s = AWAIT_AUTH1_OK
           then Some (in_session (handle_auth2_challenge P pkt) w)
      else if ty = MSG_RECONNECT \<and> s \<in> {AWAIT_AUTH1_CHALLENGE_RESP, AWAIT_CONNECT_REQ, AWAIT_CHAIN_CREATE}
           then Some (in_session (handle_reconnect P pkt) w)
      else Some w)"

text \<open>One message after it.\<close>

definition running_message :: "'c Setup \<Rightarrow> Packet \<Rightarrow> 'c sworld \<Rightarrow> 'c sworld option" where
  "running_message P pkt w =
     (let ty = pkt_type pkt; s = st (snd w); up = (s = RUNNING \<or> s = AWAIT_CHAIN_CREATE)
      in if ty = MSG_AUTH_RESPONSE \<or> ty = MSG_AUTH_OK
           then (if s = AWAIT_AUTH2_RESPONSE then handle_auth2_response P pkt w else Some w)
      else if ty = MSG_AUTH_CHALLENGE
           then Some (if s = AWAIT_AUTH1_OK then in_session (handle_auth2_challenge P pkt) w else w)
      else if ty = MSG_RECONNECT
           then Some (if s = AWAIT_CONNECT_REQ \<or> s = AWAIT_CHAIN_CREATE
                      then in_session (handle_reconnect P pkt) w else w)
      else if ty = MSG_CONNECT_REQ then Some (if up then in_session (handle_connect_req pkt) w else w)
      else if ty = MSG_CHAIN_CREATE
           then (if s = AWAIT_CHAIN_CREATE then handle_chain_create P pkt w else Some w)
      else if ty = MSG_DISCONNECT then Some (if up then in_session (handle_disconnect pkt) w else w)
      else if ty = MSG_CONNECT_CANCEL then Some (if up then in_session (handle_connect_cancel pkt) w else w)
      else if ty = MSG_WRITER_PAUSE
           then Some (if up \<and> pkt_payload pkt \<noteq> [] then in_session (writer_pause (hd (pkt_payload pkt))) w else w)
      else if ty = MSG_WRITER_RESUME
           then Some (if up \<and> pkt_payload pkt \<noteq> [] then in_session (writer_resume (hd (pkt_payload pkt))) w else w)
      else if ty = MSG_CHAIN_PAUSE then Some (if up then in_session recv_chain_pause w else w)
      else if ty = MSG_CHAIN_RESUME then Some (if up then in_session recv_chain_resume w else w)
      else Some w)"

text \<open>The two receive loops.\<close>

partial_function (option) auth_loop :: "'c Setup \<Rightarrow> 'c sworld \<Rightarrow> 'c sworld option" where
  "auth_loop U w =
     (case try_parse (recv_buf (snd w)) of
        NoPacket \<Rightarrow> Some w
      | ParseOutOfRange \<Rightarrow> None
      | Parsed n pkt \<Rightarrow>
          Option.bind (auth_message U pkt (in_session (\<lambda>s. s\<lparr>recv_buf := drop n (recv_buf s)\<rparr>) w))
            (\<lambda>w. if before_auth_done (st (snd w)) then auth_loop U w else Some w))"

partial_function (option) running_loop :: "'c Setup \<Rightarrow> 'c sworld \<Rightarrow> 'c sworld option" where
  "running_loop U w =
     (case try_parse (recv_buf (snd w)) of
        NoPacket \<Rightarrow> Some w
      | ParseOutOfRange \<Rightarrow> None
      | Parsed n pkt \<Rightarrow>
          Option.bind (running_message U pkt (in_session (\<lambda>s. s\<lparr>recv_buf := drop n (recv_buf s)\<rparr>) w))
            (running_loop U))"

declare auth_loop.simps [code] running_loop.simps [code]

definition on_data :: "'c Setup \<Rightarrow> bytes \<Rightarrow> 'c sworld \<Rightarrow> 'c sworld option" where
  "on_data P data w =
     (let appended = in_session (\<lambda>s. s\<lparr>recv_buf := recv_buf s @ data\<rparr>) w
      in if before_auth_done (st (snd w)) then auth_loop P appended
         else if client_fd (snd w) < 0 then Some w
         else running_loop P appended)"

section \<open>Reading a data connection\<close>

text \<open>
  One round of the frame loop on connection \<open>idx\<close>: \<open>None\<close> when a byte outside the buffer is read, else
  whether the loop goes on.  The state is the reordering buffer with the chain and the session.
\<close>

type_synonym 'c dworld = "ControlRecv \<times> 'c sworld"

definition upd_conn :: "nat \<Rightarrow> (DataConnection \<Rightarrow> DataConnection) \<Rightarrow> 'c dworld \<Rightarrow> 'c dworld" where
  "upd_conn idx g d = (fst d, in_session (upd_dc idx g) (snd d))"

definition conn_at :: "nat \<Rightarrow> 'c dworld \<Rightarrow> DataConnection" where
  "conn_at idx d = data_connections (snd (snd d)) ! idx"

definition recv_heartbeat :: "nat \<Rightarrow> byte \<Rightarrow> 'c dworld \<Rightarrow> 'c dworld option" where
  "recv_heartbeat idx ty d =
     (if ty = WIRE_HEARTBEAT_PING
      then map_option (\<lambda>s. (fst d, fst (snd d), dc_ensure_epollout idx s))
             (dc_write idx [1, WIRE_HEARTBEAT_PONG] (snd (snd d)))
      else Some d)"

text \<open>
  A control frame without a number makes the length passed to \<open>try_parse\<close> wrap around; that is taken as
  undefined here.
\<close>

definition recv_control :: "'c Setup \<Rightarrow> bytes \<Rightarrow> 'c dworld \<Rightarrow> 'c dworld option" where
  "recv_control P body d =
     (if length body < 2 then None
      else case try_parse (drop 2 body) of
             NoPacket \<Rightarrow> Some d
           | ParseOutOfRange \<Rightarrow> None
           | Parsed _ pkt \<Rightarrow> deliver_control (apply_control P) (body ! 1) pkt (fst d) (snd d))"

definition recv_data :: "nat \<Rightarrow> bytes \<Rightarrow> 'c dworld \<Rightarrow> 'c dworld option" where
  "recv_data idx body d =
     (let seq = le16 (body ! 1) (body ! 2); (okay, dc) = dc_accept seq (conn_at idx d);
          d = upd_conn idx (\<lambda>_. dc) d
      in do {
        w \<leftarrow> (if okay then dispatch_data_conn_packet (drop 3 body) (int idx + 1) (snd d) else Some (snd d));
        Some (fst d, in_session (\<lambda>s. dc_ensure_epollout idx (upd_dc idx (dc_send_ack seq) s)) w)
      })"

text \<open>
  The acknowledgement branch and the dump of a short data frame read bytes behind the frame: \<open>rest\<close> is
  what the buffer holds from the frame's type byte on.
\<close>

definition data_step :: "'c Setup \<Rightarrow> nat \<Rightarrow> 'c dworld \<Rightarrow> (bool \<times> 'c dworld) option" where
  "data_step P idx d =
     (let dc = conn_at idx d; ptr = drop (dc_read_offset dc) (read_buf dc)
      in case scan_frame ptr of
           FrameStop \<Rightarrow> Some (False, d)
         | FrameOverflow \<Rightarrow> Some (False, upd_conn idx clear_buffer d)
         | FrameAt pos val \<Rightarrow>
             (let body = take val (drop pos ptr); rest = drop pos ptr; ty = hd body;
                  skip = map_option (\<lambda>d. (True, upd_conn idx (skip_bytes (pos + val)) d))
              in if ty = WIRE_HEARTBEAT_PING \<or> ty = WIRE_HEARTBEAT_PONG then skip (recv_heartbeat idx ty d)
              else if ty = WIRE_SHUTDOWN_WR then
                (if val < 2 then Some (False, upd_conn idx clear_buffer d)
                 else skip (map_option (\<lambda>s. (fst d, fst (snd d), s)) (recv_shutdown_wr (body ! 1) (snd (snd d)))))
              else if ty = WIRE_SHUTDOWN_WR_ACK then skip (Some d)
              else if ty = WIRE_CONTROL then skip (recv_control P body d)
              else if ty = WIRE_DATA_ACK then
                (if length rest < 3 then None
                 else skip (Some (upd_conn idx (dc_ack (le16 (rest ! 1) (rest ! 2))) d)))
              else if ty > WIRE_DATA_ACK then Some (False, upd_conn idx clear_buffer d)
              else if val < 3 then (if length rest < 3 + 64 then None else skip (Some d))
              else skip (recv_data idx body d)))"

partial_function (option) data_loop :: "'c Setup \<Rightarrow> nat \<Rightarrow> 'c dworld \<Rightarrow> 'c dworld option" where
  "data_loop U idx d =
     Option.bind (data_step U idx d) (\<lambda>(go_on, d). if go_on then data_loop U idx d else Some d)"

declare data_loop.simps [code]

text \<open>The connection is gone: forget it, pause the session and keep it for a reconnect.\<close>

definition conn_lost :: "nat \<Rightarrow> Session \<Rightarrow> Session" where
  "conn_lost idx s =
     (let f = dc_fd (data_connections s ! idx);
          s = upd_dc idx (\<lambda>dc. (clear_buffer dc)\<lparr>dc_fd := -1\<rparr>) (upd_kernel (del_fd f) s)
      in (on_disconnect s)\<lparr>kept_alive := True\<rparr>)"

text \<open>
  The callback of \<open>register_data_connection_reader\<close>.  After a hard error \<open>read_buf.resize(old)\<close> fills
  the cleared buffer with zeros up to its former length.
\<close>

definition on_data_in :: "'c Setup \<Rightarrow> nat \<Rightarrow> u32 \<Rightarrow> 'c dworld \<Rightarrow> 'c dworld option" where
  "on_data_in P idx events d =
     (if events AND EPOLLIN = 0 then Some d
      else if length (data_connections (snd (snd d))) \<le> idx then None
      else let dc = conn_at idx d; old = length (read_buf dc); s = snd (snd d);
               set_env = (\<lambda>E. in_session (\<lambda>s. s\<lparr>env := E\<rparr>))
      in case sys_read (dc_fd dc) MAX_PACKET_SIZE (env s) of
           (ReadEof, E) \<Rightarrow> Some (fst d, in_session (conn_lost idx) (set_env E (snd d)))
         | (ReadError, E) \<Rightarrow>
             Some (upd_conn idx (\<lambda>dc. dc\<lparr>read_buf := vec_resize old 0 (read_buf dc)\<rparr>)
                     (fst d, in_session (conn_lost idx) (set_env E (snd d))))
         | (ReadAgain, E) \<Rightarrow> Some (fst d, set_env E (snd d))
         | (ReadData bs, E) \<Rightarrow>
             map_option (upd_conn idx trim_buffer)
               (data_loop P idx
                  (fst d, in_session (\<lambda>s. upd_dc idx (\<lambda>dc. dc\<lparr>read_buf := read_buf dc @ bs\<rparr>)
                     (s\<lparr>env := E, last_wire_activity := clock E, heartbeating := False\<rparr>)) (snd d))))"

section \<open>The tick\<close>

definition total_buffered :: "Session \<Rightarrow> u64" where
  "total_buffered s = fold (\<lambda>dc n. n + wb_size (dc_writer dc)) (data_connections s) 0"

text \<open>Stop reading from the targets when the data connections fall behind.\<close>

definition overflow_gate :: "Session \<Rightarrow> Session" where
  "overflow_gate s =
     (let n = total_buffered s
      in if 1048576 < n then
           (if dc_paused s then s
            else for_targets (\<lambda>t. t\<lparr>ext_overflow_paused := True\<rparr>) stop_reading (s\<lparr>dc_paused := True\<rparr>))
         else if n < 262144 \<and> dc_paused s
         then for_targets (\<lambda>t. t\<lparr>ext_overflow_paused := False\<rparr>) resume_reading (s\<lparr>dc_paused := False\<rparr>)
         else s)"

fun retransmit_all :: "nat list \<Rightarrow> Session \<Rightarrow> Session option" where
  "retransmit_all [] s = Some s"
| "retransmit_all (i # is) s =
     (let dc = data_connections s ! i
      in if dc_fd dc < 0 then retransmit_all is s
         else Option.bind (dc_retransmit (clock (env s)) dc (osys (env s)))
                (\<lambda>(dc, w). retransmit_all is (set_os w (upd_dc i (\<lambda>_. dc) s))))"

text \<open>\<open>MSG_CHAIN_PAUSE\<close> and \<open>MSG_CHAIN_RESUME\<close> with a delay of 50 ms.\<close>

definition chain_pause_debounce :: "bool \<Rightarrow> Session \<Rightarrow> Session" where
  "chain_pause_debounce bp1 s =
     (let now = clock (env s); local_sent = list_ex (\<lambda>(_, t). local_chain_sent t) (targets s);
          mark = (\<lambda>b s. s\<lparr>targets := map (apsnd (\<lambda>t. t\<lparr>local_chain_sent := b\<rparr>)) (targets s)\<rparr>)
      in if bp1 then
           (let since = (case bp1_since s of None \<Rightarrow> now | Some t \<Rightarrow> t); s = s\<lparr>bp1_since := Some since\<rparr>
            in if \<not> local_sent \<and> now - since \<ge> 50 then send_chain_pause (mark True s) else s)
         else
           (let s = s\<lparr>bp1_since := None\<rparr>
            in if local_sent then send_chain_resume (mark False s) else s))"

text \<open>Gating of the target readers.\<close>

definition gate_flag :: "bool \<Rightarrow> TargetConn \<Rightarrow> TargetConn" where
  "gate_flag bp0 t = (if tgt_fd t < 0 then t else t\<lparr>epollin_removed := target_paused t \<or> bp0\<rparr>)"

definition gate_reading :: "bool \<Rightarrow> TargetConn \<Rightarrow> session_handler Kernel \<Rightarrow> session_handler Kernel" where
  "gate_reading bp0 t K =
     (if tgt_fd t < 0 then K
      else if target_paused t \<or> bp0
      then (if epollin_removed t then K else mod_fd_events (tgt_fd t) 0 EPOLLIN K)
      else (if epollin_removed t then mod_fd_events (tgt_fd t) EPOLLIN 0 K else K))"

definition gate :: "bool \<Rightarrow> Session \<Rightarrow> Session" where
  "gate bp0 s =
     upd_kernel (fold (\<lambda>(cid, t). gate_reading bp0 t) (targets s))
       (s\<lparr>targets := map (apsnd (gate_flag bp0)) (targets s)\<rparr>)"

definition finish_disconnects :: "'c sworld \<Rightarrow> 'c sworld option" where
  "finish_disconnects w = do {
     w \<leftarrow> (if disconnect_pending (snd w) \<and> chain_quiet w then send_pending_disconnects w else Some w);
     Some (if pending_disconnect_targets (snd w) \<noteq> [] \<and> chain_quiet w
           then in_session (\<lambda>s. (fold close_target (pending_disconnect_targets s) s)
                                  \<lparr>pending_disconnect_targets := []\<rparr>) w
           else w)
   }"

definition process_pending_io :: "'c sworld \<Rightarrow> 'c sworld option" where
  "process_pending_io w = do {
     let w = in_session (\<lambda>s. overflow_gate (check_pending_connect_timeout s)) w;
     s \<leftarrow> retransmit_all [0..<length (data_connections (snd w))] (snd w);
     let s = fold run_pio (pending_ios s) (s\<lparr>pending_ios := []\<rparr>);
     let w = (fst w, s);
     let bp0 = bp_paused 0 w;
     let bp1 = bp_paused 1 w;
     finish_disconnects (in_session (\<lambda>s. gate bp0 (chain_pause_debounce bp1 s)) w)
   }"

section \<open>Heartbeats\<close>

fun ping_all :: "nat list \<Rightarrow> Session \<Rightarrow> Session option" where
  "ping_all [] s = Some s"
| "ping_all (i # is) s =
     (if dc_fd (data_connections s ! i) < 0 then ping_all is s
      else Option.bind (dc_write i [1, WIRE_HEARTBEAT_PING] s) (\<lambda>s. ping_all is (dc_ensure_epollout i s)))"

definition check_heartbeat :: "'c Setup \<Rightarrow> 'c sworld \<Rightarrow> 'c sworld option" where
  "check_heartbeat P w =
     (let s = snd w; idle = clock (env s) - last_wire_activity s; hb = heartbeat_interval_ms s
      in if st s \<noteq> RUNNING then Some w
         else if idle > hb * 2 then Some (in_session (\<lambda>s. s\<lparr>st := DISCONNECTED\<rparr>) w)
         else do {
           s \<leftarrow> (if idle > hb \<and> \<not> heartbeating s
                  then ping_all [0..<length (data_connections s)] (s\<lparr>heartbeating := True\<rparr>) else Some s);
           case fst w of
             None \<Rightarrow> Some (None, s)
           | Some c \<Rightarrow> map_option (\<lambda>(c, s). (Some c, s))
               (check_module_heartbeats (su_bases P) session_kapi hb (clock (env s)) (c, s))
         })"

section \<open>Callbacks and the destructor\<close>

text \<open>
  The reader of the client socket during the authentication, the lambda of \<open>finish_handshake\<close> in
  \<open>src/server/server.cpp\<close>.
\<close>

definition client_lost :: "fd \<Rightarrow> Session \<Rightarrow> Session" where
  "client_lost f s = (on_disconnect (upd_kernel (del_fd f) s))\<lparr>kept_alive := True\<rparr>"

partial_function (option) client_loop :: "'c Setup \<Rightarrow> fd \<Rightarrow> 'c sworld \<Rightarrow> 'c sworld option" where
  "client_loop U f w =
     (case sys_read (client_fd (snd w)) 65536 (env (snd w)) of
        (ReadData bs, E) \<Rightarrow>
          Option.bind (on_data U bs (in_session (\<lambda>s. s\<lparr>env := E\<rparr>) w))
            (\<lambda>w. if client_fd (snd w) < 0 \<or> \<not> before_auth_done (st (snd w)) then Some w
                 else client_loop U f w)
      | (ReadAgain, E) \<Rightarrow> Some (in_session (\<lambda>s. s\<lparr>env := E\<rparr>) w)
      | (_, E) \<Rightarrow> Some (in_session (client_lost f) (in_session (\<lambda>s. s\<lparr>env := E\<rparr>) w)))"

declare client_loop.simps [code]

definition on_client_in :: "'c Setup \<Rightarrow> fd \<Rightarrow> 'c sworld \<Rightarrow> 'c sworld option" where
  "on_client_in P f w = (if client_fd (snd w) < 0 then Some w else client_loop P f w)"

text \<open>The callbacks of the session; those of the server are called by the server.\<close>

fun session_call :: "'c Setup \<Rightarrow> session_handler \<Rightarrow> fd \<Rightarrow> u32 \<Rightarrow> 'c dworld \<Rightarrow> 'c dworld option" where
  "session_call P HClient f e d = map_option (\<lambda>w. (fst d, w)) (on_client_in P f (snd d))"
| "session_call P (HDataIn idx) f e d = on_data_in P idx e d"
| "session_call P (HDataOut idx) f e d =
     map_option (\<lambda>s. (fst d, fst (snd d), s)) (on_data_out idx f e (snd (snd d)))"
| "session_call P (HTarget cid) f e d = map_option (\<lambda>w. (fst d, w)) (on_target_in cid f e (snd d))"
| "session_call P (HTargetOut cid) f e d =
     map_option (\<lambda>s. (fst d, fst (snd d), s)) (on_target_out cid f e (snd (snd d)))"
| "session_call P (HConnect cid req) f e d = Some (fst d, in_session (on_connect_event cid req f e) (snd d))"
| "session_call P _ f e d = Some d"

fun close_conns :: "DataConnection list \<Rightarrow> Session \<Rightarrow> Session" where
  "close_conns [] s = s"
| "close_conns (dc # dcs) s =
     close_conns dcs
       (if 0 \<le> dc_fd dc then upd_env (env_close (dc_fd dc)) (upd_kernel (del_fd (dc_fd dc)) s) else s)"

text \<open>
  \<open>~Session\<close>, after the chain has been cancelled and drained (\<open>chain_destroy\<close>).
\<close>

definition session_destroy :: "Session \<Rightarrow> Session" where
  "session_destroy s =
     (let s = close_all_targets s;
          s = (close_conns (data_connections s) s)\<lparr>data_connections := []\<rparr>
      in if 0 \<le> client_fd s
         then upd_env (env_close (client_fd s)) (upd_kernel (del_fd (client_fd s)) s) else s)"

end
