(* ===== verification/Client_Messages.thy ===== *)
theory Client_Messages
  imports Session_Loop
begin

unbundle bit_operations_syntax

text \<open>
  The payloads of \<open>src/client/client.cpp\<close> that the session decodes: \<open>MSG_CHAIN_CREATE\<close>,
  \<open>MSG_MODULE_LIST_REQ\<close> and \<open>MSG_CONNECT_REQ\<close>, and that both sides agree on them.
\<close>

section \<open>The client's encoders\<close>

definition encode_module :: "ModuleSpec \<Rightarrow> bytes" where
  "encode_module m =
     (let plen = (of_nat (length (ms_params m)) :: u16)
      in of_nat (length (ms_name m)) # bytes_of (ms_name m)
         @ [ucast (plen AND 0xFF), ucast (drop_bit 8 plen)] @ bytes_of (ms_params m))"

definition chain_create_payload :: "ModuleSpec list \<Rightarrow> bytes" where
  "chain_create_payload mods = of_nat (length mods) # concat (map encode_module mods)"

text \<open>\<open>strtol(byte, nullptr, 16)\<close> on two hexadecimal digits.\<close>

definition hex_val :: "char \<Rightarrow> nat" where
  "hex_val c =
     (let n = of_char c in if 48 \<le> n \<and> n \<le> 57 then n - 48 else if 97 \<le> n \<and> n \<le> 102 then n - 87
      else if 65 \<le> n \<and> n \<le> 70 then n - 55 else 0)"

fun mid_bytes :: "string \<Rightarrow> bytes" where
  "mid_bytes (a # b # rest) = of_nat (16 * hex_val a + hex_val b) # mid_bytes rest"
| "mid_bytes _ = []"

definition module_list_payload :: "string list \<Rightarrow> bytes" where
  "module_list_payload mids = of_nat (length mids) # concat (map (\<lambda>m. mid_bytes (take 64 m)) mids)"

definition connect_req_payload :: "byte \<Rightarrow> string \<Rightarrow> bytes" where
  "connect_req_payload req target = req # of_nat (length target) # bytes_of target"

section \<open>Round trips\<close>

lemma unat_of_nat_byte: "n < 256 \<Longrightarrow> unat (of_nat n :: byte) = n"
  by (simp add: unat_of_nat)

lemma unat_of_nat_u16: "n < 65536 \<Longrightarrow> unat (of_nat n :: u16) = n"
  by (simp add: unat_of_nat)

lemma le16_bytes [simp]: "le16 (ucast (p AND 0xFF)) (ucast (drop_bit 8 p)) = (p :: u16)"
proof -
  have m: "(0xFF :: u16) = mask 8" by (simp add: mask_eq_exp_minus_1)
  show ?thesis unfolding m le16_def by (rule bit_word_eqI) (auto simp: bit_simps)
qed

definition module_spec_ok :: "ModuleSpec \<Rightarrow> bool" where
  "module_spec_ok m \<longleftrightarrow> length (ms_name m) < 256 \<and> length (ms_params m) < 65536"

lemma decode_modules_encode:
  "list_all module_spec_ok mods \<Longrightarrow>
   decode_modules (length mods) (concat (map encode_module mods) @ rest) = mods"
proof (induction mods)
  case (Cons m mods)
  then show ?case
    by (simp add: encode_module_def Let_def module_spec_ok_def unat_of_nat_byte unat_of_nat_u16)
qed simp

lemma hex_digit_val: "n < 16 \<Longrightarrow> hex_val (hex_digit n) = n"
proof -
  assume "n < 16"
  then have "(of_char (char_of (48 + n)) :: nat) = 48 + n" "(of_char (char_of (87 + n)) :: nat) = 87 + n"
    by (simp_all add: of_char_of)
  then show ?thesis using \<open>n < 16\<close> by (auto simp: hex_val_def hex_digit_def Let_def)
qed

lemma mid_bytes_hex_of: "mid_bytes (hex_of bs) = bs"
proof (induction bs)
  case (Cons b bs)
  have "unat b < 256" using unsigned_less [of b] by simp
  then have "unat b div 16 < 16" "unat b mod 16 < 16" by simp_all
  then have "(of_nat (16 * hex_val (hex_digit (unat b div 16)) + hex_val (hex_digit (unat b mod 16))) :: byte) = b"
    by (simp add: hex_digit_val)
  then show ?case using Cons by (simp add: hex_of_def)
qed (simp add: hex_of_def)

lemma length_hex_of [simp]: "length (hex_of bs) = 2 * length bs"
  by (induction bs) (simp_all add: hex_of_def)

text \<open>What the client sends for the identifiers \<open>hex_of r\<close> is \<open>r\<close>, and the session turns it back.\<close>

lemma mids_of_raw:
  "list_all (\<lambda>r. length r = 32) rs \<Longrightarrow> mids_of (length rs) (concat rs @ rest) = map hex_of rs"
  by (induction rs) auto

lemma module_list_payload_raw:
  assumes "list_all (\<lambda>r. length r = 32) ids"
  shows "module_list_payload (map hex_of ids) = of_nat (length ids) # concat ids" and "length (concat ids) = 32 * length ids"
proof -
  have "map (\<lambda>m. mid_bytes (take 64 m)) (map hex_of ids) = ids"
    using assms by (induction ids) (simp_all add: mid_bytes_hex_of)
  then show "module_list_payload (map hex_of ids) = of_nat (length ids) # concat ids" by (simp add: module_list_payload_def)
  show "length (concat ids) = 32 * length ids" using assms by (induction ids) simp_all
qed

lemma module_list_all_known:
  assumes "list_all (\<lambda>r. length r = 32) ids" and "length ids < 256" and "list_all (\<lambda>r. known (hex_of r)) ids"
  shows "handle_module_list_req known (make_msg MSG_MODULE_LIST_REQ (module_list_payload (map hex_of ids))) s
     = send_control (make_msg MSG_MODULE_LIST_RES [1]) s"
proof -
  have "filter (\<lambda>m. \<not> known m) (map hex_of ids) = []" using assms(3) by (induction ids) simp_all
  then show ?thesis
    using module_list_payload_raw [OF assms(1)] mids_of_raw [OF assms(1), of "[]"] assms(2)
    by (simp add: handle_module_list_req_def make_msg_def unat_of_nat_byte Let_def)
qed

section \<open>Properties\<close>

text \<open>
  The session decodes the \<open>MSG_CHAIN_CREATE\<close> payload the client builds to the client's own module list,
  names and parameters unchanged, for up to 255 modules with names below 256 and parameters below 65536
  characters.
\<close>

theorem chain_create_roundtrip:
  assumes "list_all module_spec_ok mods" and "length mods < 256"
  shows "\<exists>count rest. chain_create_payload mods = count # rest \<and> decode_modules (unat count) rest = mods"
  using assms decode_modules_encode [of mods "[]"]
  by (simp add: chain_create_payload_def unat_of_nat_byte)

theorem chain_create_roundtrip_witness:
  "\<exists>count rest. chain_create_payload [\<lparr>ms_name = ''split'', ms_params = ''2''\<rparr>, copy_spec] = count # rest
     \<and> decode_modules (unat count) rest = [\<lparr>ms_name = ''split'', ms_params = ''2''\<rparr>, copy_spec]"
proof (rule chain_create_roundtrip)
  show "list_all module_spec_ok [\<lparr>ms_name = ''split'', ms_params = ''2''\<rparr>, copy_spec]"
    by (simp add: module_spec_ok_def copy_spec_def)
qed simp

text \<open>
  A client that lists the modules with the 32-byte identifiers \<open>ids\<close> is told by the session that all is
  well exactly when each of them is registered at the session; otherwise the session answers with the
  unknown ones and disconnects.
\<close>

theorem module_list_verdict:
  assumes "list_all (\<lambda>r. length r = 32) ids" and "length ids < 256"
  shows "handle_module_list_req known
       (make_msg MSG_MODULE_LIST_REQ (module_list_payload (map hex_of ids))) s
     = (let missing = filter (\<lambda>m. \<not> known m) (map hex_of ids)
        in if missing = [] then send_control (make_msg MSG_MODULE_LIST_RES [1]) s
           else (send_control (make_msg MSG_MODULE_LIST_RES (module_list_fail missing)) s)\<lparr>st := DISCONNECTED\<rparr>)"
  using module_list_payload_raw [OF assms(1)] mids_of_raw [OF assms(1), of "[]"] assms(2)
  by (simp add: handle_module_list_req_def make_msg_def unat_of_nat_byte Let_def)

theorem module_list_verdict_witness:
  "st (handle_module_list_req (\<lambda>m. m = hex_of (replicate 32 0))
     (make_msg MSG_MODULE_LIST_REQ (module_list_payload (map hex_of [replicate 32 0, replicate 32 7])))
     (session_new 4 ''pw'' 30000 1 env_new)) = DISCONNECTED"
proof -
  have "hex_of (replicate 32 7) \<noteq> hex_of (replicate 32 0)" by code_simp
  then show ?thesis
    using module_list_verdict [of "[replicate 32 0, replicate 32 7]" "\<lambda>m. m = hex_of (replicate 32 0)"
        "session_new 4 ''pw'' 30000 1 env_new"]
    by (simp add: Let_def)
qed

end
