(* ===== verification/Session_Auth.thy ===== *)
theory Session_Auth
  imports Session_Loop Client_Messages
begin

unbundle bit_operations_syntax

text \<open>
  The authentication of a session: nothing but the answer to the challenge opens it, and the honest
  handshake does.
\<close>

section \<open>What a session can meet before it is authenticated\<close>

text \<open>
  \<open>Recv\<close>: bytes from the client; \<open>Tick\<close>: the tick callback at a time; \<open>Attach\<close>: a connection whose
  9-byte greeting names this session (the greeting itself carries no secret).
\<close>

datatype session_op = Recv bytes | Tick millis | Attach byte fd

fun session_step :: "'c Setup \<Rightarrow> session_op \<Rightarrow> 'c sworld \<Rightarrow> 'c sworld option" where
  "session_step P (Recv data) w = on_data P data w"
| "session_step P (Tick t) w =
     Option.bind (process_pending_io (in_session (upd_env (\<lambda>E. E\<lparr>clock := t\<rparr>)) w)) (check_heartbeat P)"
| "session_step P (Attach out f) w = Some (in_session (add_data_connection out f) w)"

fun session_ops :: "'c Setup \<Rightarrow> session_op list \<Rightarrow> 'c sworld \<Rightarrow> 'c sworld option" where
  "session_ops P [] w = Some w"
| "session_ops P (a # as) w = Option.bind (session_step P a w) (session_ops P as)"

fun received :: "session_op list \<Rightarrow> bytes" where
  "received [] = []"
| "received (Recv data # as) = data @ received as"
| "received (_ # as) = received as"

section \<open>The invariant\<close>

text \<open>A session with no chain, no connections and nothing queued.\<close>

definition bare :: "'c sworld \<Rightarrow> bool" where
  "bare w \<longleftrightarrow> fst w = None \<and> data_connections (snd w) = [] \<and> targets (snd w) = []
     \<and> pending_connects (snd w) = [] \<and> pending_ios (snd w) = [] \<and> \<not> disconnect_pending (snd w)
     \<and> pending_disconnect_targets (snd w) = [] \<and> \<not> dc_paused (snd w)"

definition expected_answer :: "'c Setup \<Rightarrow> string \<Rightarrow> string \<Rightarrow> bytes" where
  "expected_answer P ch pw = bytes_of (hex_sha256 (su_sha256 P) (ch @ pw))"

definition contains :: "bytes \<Rightarrow> bytes \<Rightarrow> bool" where
  "contains part whole \<longleftrightarrow> (\<exists>a b. whole = a @ part @ b)"

lemma contains_append1: "contains p w \<Longrightarrow> contains p (w @ x)"
proof -
  assume "contains p w"
  then obtain a b where "w = a @ p @ b" by (auto simp: contains_def)
  then have "w @ x = a @ p @ (b @ x)" by simp
  then show ?thesis unfolding contains_def by blast
qed

lemma contains_append2: "contains p w \<Longrightarrow> contains p (x @ w)"
proof -
  assume "contains p w"
  then obtain a b where "w = a @ p @ b" by (auto simp: contains_def)
  then have "x @ w = (x @ a) @ p @ b" by simp
  then show ?thesis unfolding contains_def by blast
qed

definition locked :: "'c Setup \<Rightarrow> string \<Rightarrow> string \<Rightarrow> bytes \<Rightarrow> 'c sworld \<Rightarrow> bool" where
  "locked P ch pw stream w \<longleftrightarrow> bare w \<and>
     (st (snd w) = DISCONNECTED
      \<or> st (snd w) = AWAIT_AUTH1_CHALLENGE_RESP \<and> challenge1 (snd w) = ch \<and> password (snd w) = pw
        \<and> (\<exists>a. stream = a @ recv_buf (snd w)))"

definition guarded :: "'c Setup \<Rightarrow> string \<Rightarrow> string \<Rightarrow> bytes \<Rightarrow> 'c sworld \<Rightarrow> bool" where
  "guarded P ch pw stream w \<longleftrightarrow> contains (expected_answer P ch pw) stream \<or> locked P ch pw stream w"

lemma parsed_payload_part:
  "try_parse buf = Parsed n p \<Longrightarrow> contains (pkt_payload p) buf"
proof -
  assume "try_parse buf = Parsed n p"
  then obtain i k where "pkt_payload p = take k (drop i buf)"
    by (auto simp: try_parse_def Let_def split: prod.splits if_splits)
  then have "buf = take i buf @ pkt_payload p @ drop k (drop i buf)"
    by (metis append_take_drop_id)
  then show ?thesis unfolding contains_def by blast
qed

lemmas send_frame = send_packet_def set_os_def upd_env_def

lemma auth1_locked:
  assumes "contains (pkt_payload pkt) stream" and "bare w" and "challenge1 (snd w) = ch" "password (snd w) = pw"
  shows "guarded P ch pw stream (in_session (handle_auth_challenge_response P pkt) w)"
proof (cases "string_of (pkt_payload pkt) = hex_sha256 (su_sha256 P) (ch @ pw)")
  case True
  then have "pkt_payload pkt = expected_answer P ch pw"
    unfolding expected_answer_def by (metis bytes_of_string_of)
  then show ?thesis using assms(1) by (simp add: guarded_def)
next
  case False
  then show ?thesis
    using assms(2-4)
    by (simp add: guarded_def locked_def bare_def in_session_def handle_auth_challenge_response_def Let_def send_frame)
qed

lemma reconnect_locked:
  assumes "locked P ch pw stream w" and "st (snd w) = AWAIT_AUTH1_CHALLENGE_RESP"
  shows "locked P ch pw stream (in_session (handle_reconnect P pkt) w)"
  using assms by (simp add: locked_def bare_def in_session_def handle_reconnect_def Let_def send_frame)

lemma auth_message_guarded:
  assumes "auth_message P pkt w = Some w'" and "locked P ch pw stream w"
    and "st (snd w) = AWAIT_AUTH1_CHALLENGE_RESP" and "contains (pkt_payload pkt) stream"
  shows "guarded P ch pw stream w'"
proof -
  have "bare w" "challenge1 (snd w) = ch" "password (snd w) = pw"
    using assms(2,3) by (auto simp: locked_def)
  then show ?thesis
    using assms auth1_locked [OF assms(4), of w ch pw P] reconnect_locked [OF assms(2,3), of pkt]
    by (auto simp: auth_message_def Let_def guarded_def split: if_splits)
qed

lemma take_off_locked:
  assumes "locked P ch pw stream w"
  shows "locked P ch pw stream (in_session (\<lambda>s. s\<lparr>recv_buf := drop n (recv_buf s)\<rparr>) w)"
proof -
  have "\<exists>a. b @ recv_buf (snd w) = a @ drop n (recv_buf (snd w))" for b
    by (rule exI [of _ "b @ take n (recv_buf (snd w))"]) simp
  then show ?thesis using assms by (auto simp: locked_def bare_def in_session_def)
qed

lemma auth_loop_guarded:
  assumes "auth_loop P w = Some w'"
  shows "locked P ch pw stream w \<longrightarrow> st (snd w) = AWAIT_AUTH1_CHALLENGE_RESP \<longrightarrow> guarded P ch pw stream w'"
proof (rule auth_loop.raw_induct [where P = "\<lambda>P w w'. locked P ch pw stream w \<longrightarrow>
    st (snd w) = AWAIT_AUTH1_CHALLENGE_RESP \<longrightarrow> guarded P ch pw stream w'", OF _ assms], intro impI)
  fix loop P w w'
  assume IH: "\<And>P w w'. loop P w = Some w' \<Longrightarrow> locked P ch pw stream w \<longrightarrow>
      st (snd w) = AWAIT_AUTH1_CHALLENGE_RESP \<longrightarrow> guarded P ch pw stream w'"
    and run: "(case try_parse (recv_buf (snd w)) of NoPacket \<Rightarrow> Some w | ParseOutOfRange \<Rightarrow> None
        | Parsed n pkt \<Rightarrow> auth_message P pkt (in_session (\<lambda>s. s\<lparr>recv_buf := drop n (recv_buf s)\<rparr>) w) \<bind>
            (\<lambda>w. if before_auth_done (st (snd w)) then loop P w else Some w)) = Some w'"
    and lk: "locked P ch pw stream w" and s: "st (snd w) = AWAIT_AUTH1_CHALLENGE_RESP"
  show "guarded P ch pw stream w'"
  proof (cases "try_parse (recv_buf (snd w))")
    case NoPacket
    then show ?thesis using run lk by (simp add: guarded_def)
  next
    case (Parsed n pkt)
    let ?w = "in_session (\<lambda>s. s\<lparr>recv_buf := drop n (recv_buf s)\<rparr>) w"
    from run Parsed obtain w1 where w1: "auth_message P pkt ?w = Some w1"
      and rest: "(if before_auth_done (st (snd w1)) then loop P w1 else Some w1) = Some w'"
      by (auto split: bind_splits)
    obtain a where "stream = a @ recv_buf (snd w)" using lk s by (auto simp: locked_def)
    then have "contains (pkt_payload pkt) stream"
      using parsed_payload_part [OF Parsed] by (simp add: contains_append2)
    then have "guarded P ch pw stream w1"
      by (intro auth_message_guarded [OF w1 take_off_locked [OF lk]]) (use s in \<open>simp_all add: in_session_def\<close>)
    then consider "contains (expected_answer P ch pw) stream" | "locked P ch pw stream w1"
      by (auto simp: guarded_def)
    then show ?thesis
    proof cases
      case 1
      then show ?thesis by (simp add: guarded_def)
    next
      case 2
      show ?thesis
      proof (cases "before_auth_done (st (snd w1))")
        case True
        then have "st (snd w1) = AWAIT_AUTH1_CHALLENGE_RESP"
          using 2 by (auto simp: locked_def before_auth_done_def)
        then show ?thesis using IH [of P w1 w'] rest True 2 by simp
      next
        case False
        then show ?thesis using 2 rest by (simp add: guarded_def)
      qed
    qed
  qed (use run in simp)
qed

lemma running_message_disconnected:
  "st (snd w) = DISCONNECTED \<Longrightarrow> running_message P pkt w = Some w"
  by (simp add: running_message_def Let_def)

lemma running_loop_disconnected:
  assumes "running_loop P w = Some w'"
  shows "st (snd w) = DISCONNECTED \<longrightarrow> bare w \<longrightarrow> st (snd w') = DISCONNECTED \<and> bare w'"
proof (rule running_loop.raw_induct [where P = "\<lambda>P w w'. st (snd w) = DISCONNECTED \<longrightarrow> bare w \<longrightarrow>
    st (snd w') = DISCONNECTED \<and> bare w'", OF _ assms], intro impI)
  fix loop P w w'
  assume IH: "\<And>P w w'. loop P w = Some w' \<Longrightarrow> st (snd w) = DISCONNECTED \<longrightarrow> bare w \<longrightarrow>
      st (snd w') = DISCONNECTED \<and> bare w'"
    and run: "(case try_parse (recv_buf (snd w)) of NoPacket \<Rightarrow> Some w | ParseOutOfRange \<Rightarrow> None
        | Parsed n pkt \<Rightarrow> running_message P pkt (in_session (\<lambda>s. s\<lparr>recv_buf := drop n (recv_buf s)\<rparr>) w) \<bind> loop P)
        = Some w'"
    and s: "st (snd w) = DISCONNECTED" "bare w"
  show "st (snd w') = DISCONNECTED \<and> bare w'"
  proof (cases "try_parse (recv_buf (snd w))")
    case NoPacket
    then show ?thesis using run s by simp
  next
    case (Parsed n pkt)
    let ?w = "in_session (\<lambda>s. s\<lparr>recv_buf := drop n (recv_buf s)\<rparr>) w"
    have "st (snd ?w) = DISCONNECTED" "bare ?w" using s by (simp_all add: in_session_def bare_def)
    then show ?thesis using IH [of P ?w w'] run Parsed running_message_disconnected [of ?w P pkt] by simp
  qed (use run in simp)
qed

lemma bare_tick:
  assumes "bare w"
  shows "process_pending_io w = Some (in_session (\<lambda>s. s\<lparr>bp1_since := None\<rparr>) w)"
  using assms
  by (cases w) (simp add: process_pending_io_def bare_def in_session_def check_pending_connect_timeout_def
      overflow_gate_def total_buffered_def chain_pause_debounce_def gate_def upd_kernel_def upd_env_def upd_kern_def
      finish_disconnects_def bp_paused_def Let_def)

lemma session_step_guarded:
  assumes "session_step P a w = Some w'" and "guarded P ch pw stream w"
  shows "guarded P ch pw (stream @ received [a]) w'"
proof (cases "contains (expected_answer P ch pw) stream")
  case True
  then show ?thesis by (simp add: guarded_def contains_append1)
next
  case False
  then have lk: "locked P ch pw stream w" using assms(2) by (simp add: guarded_def)
  then have b: "bare w" by (simp add: locked_def)
  have same: "locked P ch pw stream w' \<Longrightarrow> received [a] = [] \<Longrightarrow> ?thesis" by (simp add: guarded_def)
  show ?thesis
  proof (cases a)
    case (Recv data)
    let ?w = "in_session (\<lambda>s. s\<lparr>recv_buf := recv_buf s @ data\<rparr>) w"
    have lk': "locked P ch pw (stream @ data) ?w" and st': "st (snd ?w) = st (snd w)"
      using lk by (auto simp: locked_def bare_def in_session_def)
    consider "st (snd w) = DISCONNECTED" | "st (snd w) = AWAIT_AUTH1_CHALLENGE_RESP"
      using lk by (auto simp: locked_def)
    then show ?thesis
    proof cases
      case 1
      then have "\<not> before_auth_done (st (snd w))" by (simp add: before_auth_done_def)
      moreover have "bare ?w" "st (snd ?w) = DISCONNECTED" using lk' st' 1 by (simp_all add: locked_def)
      ultimately have "st (snd w') = DISCONNECTED \<and> bare w'"
        using assms(1) Recv 1 b running_loop_disconnected [of P ?w w']
        by (auto simp: on_data_def Let_def split: if_splits)
      then show ?thesis by (simp add: guarded_def locked_def)
    next
      case 2
      then have "auth_loop P ?w = Some w'"
        using assms(1) Recv by (simp add: on_data_def Let_def before_auth_done_def)
      from auth_loop_guarded [OF this, of ch pw "stream @ data"] lk' st' 2 Recv show ?thesis by simp
    qed
  next
    case (Tick t)
    let ?w = "in_session (upd_env (\<lambda>E. E\<lparr>clock := t\<rparr>)) w"
    have "bare ?w" using b by (simp add: bare_def in_session_def upd_env_def)
    from bare_tick [OF this] assms(1) Tick
    have "check_heartbeat P (in_session (\<lambda>s. s\<lparr>bp1_since := None\<rparr>) ?w) = Some w'" by simp
    moreover have "st (snd w) \<noteq> RUNNING" using lk by (auto simp: locked_def)
    ultimately have "w' = in_session (\<lambda>s. s\<lparr>bp1_since := None\<rparr>) ?w"
      by (simp add: check_heartbeat_def in_session_def upd_env_def Let_def)
    then show ?thesis
      using lk by (intro same) (auto simp: locked_def bare_def in_session_def upd_env_def Tick)
  next
    case (Attach out f)
    then have "w' = in_session (\<lambda>s. s\<lparr>pending_data_conns := pending_data_conns s @ [(out, f)]\<rparr>) w"
      using assms(1) b by (simp add: add_data_connection_def bare_def in_session_def Let_def)
    then show ?thesis
      using lk by (intro same) (auto simp: locked_def bare_def in_session_def Attach)
  qed
qed

lemma received_Cons: "received (a # as) = received [a] @ received as"
  by (cases a) simp_all

lemma session_ops_guarded:
  "session_ops P ops w = Some w' \<Longrightarrow> guarded P ch pw stream w \<Longrightarrow> guarded P ch pw (stream @ received ops) w'"
proof (induction ops arbitrary: w stream)
  case (Cons a ops)
  then obtain w1 where w1: "session_step P a w = Some w1" "session_ops P ops w1 = Some w'"
    by (auto split: bind_splits)
  from Cons.IH [OF w1(2) session_step_guarded [OF w1(1) Cons.prems(2)]] show ?case
    by (simp add: received_Cons [of a ops])
qed simp

section \<open>The honest handshake\<close>

lemma length_serialize_bound:
  assumes "packet_ok p"
  shows "length (serialize p) < 2 ^ 64"
  using assms write_varint_length10 [of "ucast (pkt_type p)"] write_varint_length10 [of "of_nat (length (pkt_payload p))"]
  by (simp add: serialize_eq packet_ok_def)

lemma auth_loop_empty: "recv_buf (snd w) = [] \<Longrightarrow> auth_loop P w = Some w"
  by (subst auth_loop.simps) simp

text \<open>A read that holds one whole message: the message is handled and the buffer is empty again.\<close>

lemma on_data_message:
  assumes "before_auth_done (st (snd w))" and "recv_buf (snd w) = []" and "packet_ok p"
    and "auth_message P p w = Some w'" and "recv_buf (snd w') = []"
  shows "on_data P (serialize p) w = Some w'"
proof -
  have ser: "try_parse (serialize p) = Parsed (length (serialize p)) p"
    using try_parse_serialize [OF assms(3), of "[]"] length_serialize_bound [OF assms(3)] by simp
  have "in_session (\<lambda>s. s\<lparr>recv_buf := drop (length (serialize p)) (recv_buf s)\<rparr>)
      (in_session (\<lambda>s. s\<lparr>recv_buf := recv_buf s @ serialize p\<rparr>) w) = w"
    using assms(2) by (cases w) (simp add: in_session_def)
  then have "auth_loop P (in_session (\<lambda>s. s\<lparr>recv_buf := recv_buf s @ serialize p\<rparr>) w) = Some w'"
    using ser assms(2,4,5) auth_loop_empty [of w' P]
    by (subst auth_loop.simps) (simp add: in_session_def)
  then show ?thesis using assms(1) by (simp add: on_data_def Let_def)
qed

section \<open>Properties\<close>

text \<open>
  C4: whatever a client sends, in whatever pieces, mixed with ticks and with connections that claim to belong
  to the session: unless the bytes it sent contain the right answer to the challenge, the session has no
  chain, no data connection and no target, and it is still waiting for the answer or disconnected.
\<close>

theorem tunnel_needs_password:
  assumes "session_ops P ops (None, (session_new f pw hb sid E)\<lparr>challenge1 := ch\<rparr>) = Some w"
  shows "(\<exists>a b. received ops = a @ bytes_of (hex_sha256 (su_sha256 P) (ch @ pw)) @ b)
    \<or> fst w = None \<and> data_connections (snd w) = [] \<and> targets (snd w) = []
      \<and> st (snd w) \<in> {AWAIT_AUTH1_CHALLENGE_RESP, DISCONNECTED}"
proof -
  have "guarded P ch pw [] (None, (session_new f pw hb sid E)\<lparr>challenge1 := ch\<rparr>)"
    by (simp add: guarded_def locked_def bare_def session_new_def)
  from session_ops_guarded [OF assms this] show ?thesis
    by (auto simp: guarded_def contains_def locked_def bare_def expected_answer_def)
qed

theorem tunnel_needs_password_witness:
  "\<exists>w. session_ops demo_setup [Attach 0 9, Recv [2, 1], Tick 20, Recv [49]]
         (None, (session_new 4 ''pw'' 30000 1 env_new)\<lparr>challenge1 := ''7''\<rparr>) = Some w
     \<and> fst w = None \<and> data_connections (snd w) = [] \<and> targets (snd w) = []
     \<and> st (snd w) \<in> {AWAIT_AUTH1_CHALLENGE_RESP, DISCONNECTED}"
proof -
  let ?ops = "[Attach 0 9, Recv [2, 1], Tick 20, Recv [49]]"
  let ?s = "(None, (session_new 4 ''pw'' 30000 1 env_new)\<lparr>challenge1 := ''7''\<rparr>)"
  have "\<not> Option.is_none (session_ops demo_setup ?ops ?s)" by code_simp
  then obtain w where w: "session_ops demo_setup ?ops ?s = Some w" by (auto simp: Option.is_none_def)
  have "length (hex_sha256 (su_sha256 demo_setup) (''7'' @ ''pw'')) = 64" by code_simp
  then have "length (a @ bytes_of (hex_sha256 (su_sha256 demo_setup) (''7'' @ ''pw'')) @ b) \<noteq> 3" for a b
    by simp
  moreover have "length (received ?ops) = 3" by simp
  ultimately have "\<not> (\<exists>a b. received ?ops = a @ bytes_of (hex_sha256 (su_sha256 demo_setup) (''7'' @ ''pw'')) @ b)"
    by metis
  with tunnel_needs_password [OF w] w show ?thesis by blast
qed

text \<open>
  A client that knows the password gets through: after the answer to the challenge, the client's own
  challenge and its acknowledgement, the session waits for the chain, its first data connection is the
  client's socket, and that socket's reader is the frame reader.
\<close>

theorem handshake_completes:
  assumes "0 \<le> f" and "length (su_sha256 P (bytes_of (ch @ pw))) = 32" and "length challenge2 < 2 ^ 32"
  shows "\<exists>w. session_ops P
       [Recv (serialize (make_msg MSG_AUTH_RESPONSE (bytes_of (hex_sha256 (su_sha256 P) (ch @ pw))))),
        Recv (serialize (make_msg MSG_AUTH_CHALLENGE challenge2)),
        Recv (serialize (make_msg MSG_AUTH_OK [1]))]
       (None, (session_new f pw hb sid E)\<lparr>challenge1 := ch\<rparr>) = Some w
     \<and> st (snd w) = AWAIT_CHAIN_CREATE \<and> map dc_fd (data_connections (snd w)) = [f]
     \<and> Option.bind (fd_to_handler (kern (env (snd w))) f) in_cb = Some (HDataIn 0)"
proof -
  let ?w0 = "(None, (session_new f pw hb sid E)\<lparr>challenge1 := ch\<rparr>) :: 'a sworld"
  let ?p1 = "make_msg MSG_AUTH_RESPONSE (bytes_of (hex_sha256 (su_sha256 P) (ch @ pw)))"
  let ?p2 = "make_msg MSG_AUTH_CHALLENGE challenge2"
  let ?p3 = "make_msg MSG_AUTH_OK [1]"
  define w1 where "w1 = in_session (handle_auth_challenge_response P ?p1) ?w0"
  define w2 where "w2 = in_session (handle_auth2_challenge P ?p2) w1"
  define s3 where "s3 = (let s = snd w2; s = s\<lparr>data_connections := vec_resize 1 dc_new (data_connections s)\<rparr>
      in register_data_connection_reader 0 (upd_dc 0 (\<lambda>dc. dc\<lparr>dc_fd := client_fd s\<rparr>) s))"
  define w3 where "w3 = (fst w2, s3\<lparr>st := AWAIT_CHAIN_CREATE\<rparr>)"
  have s1: "st (snd w1) = AWAIT_AUTH1_OK" "recv_buf (snd w1) = []" "client_fd (snd w1) = f" "data_connections (snd w1) = []"
    by (simp_all add: w1_def in_session_def handle_auth_challenge_response_def make_msg_def session_new_def Let_def send_frame)
  then have s2: "st (snd w2) = AWAIT_AUTH2_RESPONSE" "recv_buf (snd w2) = []" "client_fd (snd w2) = f" "data_connections (snd w2) = []"
    by (simp_all add: w2_def in_session_def handle_auth2_challenge_def make_msg_def Let_def send_frame)
  then have s3: "recv_buf s3 = []" "map dc_fd (data_connections s3) = [f]"
      "Option.bind (fd_to_handler (kern (env s3)) f) in_cb = Some (HDataIn 0)"
    using assms(1)
    by (simp_all add: s3_def vec_resize_def register_data_connection_reader_def upd_dc_def upd_kernel_def upd_env_def
        upd_kern_def add_fd_handler_table Let_def)
  have "length (hex_sha256 (su_sha256 P) (ch @ pw)) = 64"
    using assms(2) by (simp add: hex_sha256_def)
  then have ok: "packet_ok ?p1" "packet_ok ?p2" "packet_ok ?p3"
    using assms(3) by (simp_all add: packet_ok_def make_msg_def)
  have r1: "on_data P (serialize ?p1) ?w0 = Some w1"
    by (rule on_data_message [OF _ _ ok(1)])
      (use s1 in \<open>simp_all add: session_new_def before_auth_done_def auth_message_def make_msg_def w1_def\<close>)
  have r2: "on_data P (serialize ?p2) w1 = Some w2"
    by (rule on_data_message [OF _ _ ok(2)])
      (use s1 s2 in \<open>simp_all add: before_auth_done_def auth_message_def make_msg_def w2_def\<close>)
  have m3: "auth_message P ?p3 w2 = Some w3"
    using s2 s3(1)
    by (simp add: auth_message_def make_msg_def handle_auth2_response_def w3_def in_session_def s3_def [unfolded Let_def] Let_def)
  have r3: "on_data P (serialize ?p3) w2 = Some w3"
    by (rule on_data_message [OF _ _ ok(3) m3]) (use s2 s3 in \<open>simp_all add: before_auth_done_def w3_def\<close>)
  show ?thesis
    using r1 r2 r3 s3 by (intro exI [of _ w3]) (simp add: w3_def)
qed

theorem handshake_completes_witness:
  "\<exists>w. session_ops demo_setup
       [Recv (serialize (make_msg MSG_AUTH_RESPONSE (bytes_of (hex_sha256 (su_sha256 demo_setup) (''7'' @ ''pw''))))),
        Recv (serialize (make_msg MSG_AUTH_CHALLENGE [56])),
        Recv (serialize (make_msg MSG_AUTH_OK [1]))]
       (None, (session_new 4 ''pw'' 30000 1 env_new)\<lparr>challenge1 := ''7''\<rparr>) = Some w
     \<and> st (snd w) = AWAIT_CHAIN_CREATE \<and> map dc_fd (data_connections (snd w)) = [4]
     \<and> Option.bind (fd_to_handler (kern (env (snd w))) 4) in_cb = Some (HDataIn 0)"
  by (rule handshake_completes) (simp_all add: demo_setup_def)

end
