(* ===== verification/Session_Gate.thy ===== *)
theory Session_Gate
  imports Session_Loop
begin

unbundle bit_operations_syntax

text \<open>
  Backpressure towards the targets.  Four mechanisms stop and resume reading from a target: the client's
  \<open>WRITER_PAUSE\<close> and \<open>CHAIN_PAUSE\<close> messages, the overflow of the session's own data connections, and the
  gating of every tick, which also looks at the chain.  The first three switch \<open>EPOLLIN\<close> at once, the last
  one remembers in \<open>epollin_removed\<close> what it did.
\<close>

section \<open>Watching\<close>

definition watched :: "'h Kernel \<Rightarrow> fd \<Rightarrow> bool" where
  "watched K f = (case fd_to_handler K f of None \<Rightarrow> False | Some h \<Rightarrow> bit (fd_events h) 0)"

lemma epollin_bit: "e AND EPOLLIN \<noteq> 0 \<longleftrightarrow> bit (e :: u32) 0"
proof -
  have "e AND 1 = of_bool (odd e)" by (simp add: and_one_eq mod_2_eq_odd)
  then show ?thesis by (simp add: bit_0)
qed

lemma table_mod:
  "fd_to_handler (mod_fd_events g a r K) f =
     (if f = g then map_option (\<lambda>h. h\<lparr>fd_events := (fd_events h OR a) AND NOT r\<rparr>) (fd_to_handler K g)
      else fd_to_handler K f)"
  by (auto simp: mod_fd_events_def epoll_del_def epoll_add_def epoll_mod_def Let_def split: option.splits)

lemma watched_mod:
  "watched (mod_fd_events g a r K) f =
     (if f = g \<and> fd_to_handler K f \<noteq> None then (watched K f \<or> bit a 0) \<and> \<not> bit r 0 else watched K f)"
  by (auto simp: watched_def table_mod bit_and_iff bit_or_iff bit_not_iff possible_bit_word split: option.splits)

section \<open>The invariant\<close>

definition gate_ok :: "session_handler Kernel \<Rightarrow> TargetConn \<Rightarrow> bool" where
  "gate_ok K t \<longleftrightarrow> 0 \<le> tgt_fd t \<and> fd_to_handler K (tgt_fd t) \<noteq> None
     \<and> (target_paused t \<longrightarrow> \<not> watched K (tgt_fd t))
     \<and> (\<not> target_paused t \<longrightarrow> \<not> epollin_removed t \<longrightarrow> watched K (tgt_fd t))"

definition gate_inv :: "Session \<Rightarrow> bool" where
  "gate_inv s \<longleftrightarrow> distinct (map fst (targets s)) \<and> distinct (map (tgt_fd \<circ> snd) (targets s))
     \<and> (\<forall>e\<in>set (targets s). gate_ok (kern (env s)) (snd e))"

text \<open>An operation on the kernel that concerns only the descriptor of one target.\<close>

definition only_at :: "fd \<Rightarrow> (session_handler Kernel \<Rightarrow> session_handler Kernel) \<Rightarrow> bool" where
  "only_at f k \<longleftrightarrow> (\<forall>K t. tgt_fd t \<noteq> f \<longrightarrow> gate_ok K t \<longrightarrow> gate_ok (k K) t)"

lemma only_at_mod [simp]: "only_at f (mod_fd_events f a r)"
  by (auto simp: only_at_def gate_ok_def watched_mod table_mod)

lemma only_at_id [simp]: "only_at f (\<lambda>K. K)"
  by (simp add: only_at_def)

lemma only_at_stop [simp]: "only_at (tgt_fd t) (stop_reading t)"
  by (cases "0 \<le> tgt_fd t") (simp_all add: stop_reading_def [abs_def])

lemma only_at_resume [simp]: "only_at (tgt_fd t) (resume_reading t)"
  by (cases "0 \<le> tgt_fd t"; cases "target_paused t") (simp_all add: resume_reading_def [abs_def])

lemma only_at_gate [simp]: "only_at (tgt_fd t) (gate_reading bp0 t)"
  by (cases "tgt_fd t < 0"; cases "target_paused t \<or> bp0"; cases "epollin_removed t")
    (simp_all add: gate_reading_def [abs_def])

lemma fold_other:
  "(\<And>e. e \<in> set ts \<Longrightarrow> only_at (tgt_fd (snd e)) (k e)) \<Longrightarrow> tgt_fd t \<notin> tgt_fd ` snd ` set ts \<Longrightarrow>
   gate_ok K t \<Longrightarrow> gate_ok (fold k ts K) t"
proof (induction ts arbitrary: K)
  case (Cons e ts)
  have "gate_ok (k e K) t" using Cons.prems by (auto simp: only_at_def)
  then show ?case using Cons.IH [of "k e K"] Cons.prems(1,2) by simp
qed simp

text \<open>A loop over the targets keeps the invariant if every round does so for its target.\<close>

lemma fold_gate_ok:
  assumes "distinct (map (tgt_fd \<circ> snd) ts)"
    and "\<And>e. e \<in> set ts \<Longrightarrow> only_at (tgt_fd (snd e)) (k e)"
    and "\<And>e K. e \<in> set ts \<Longrightarrow> gate_ok K (snd e) \<Longrightarrow> gate_ok (k e K) (g e)"
    and "\<And>e. tgt_fd (g e) = tgt_fd (snd e)"
    and "\<forall>e\<in>set ts. gate_ok K (snd e)"
  shows "\<forall>e\<in>set ts. gate_ok (fold k ts K) (g e)"
  using assms(1-3,5)
proof (induction ts arbitrary: K)
  case (Cons e ts)
  have fresh: "tgt_fd (snd e) \<notin> tgt_fd ` snd ` set ts" using Cons.prems(1) by force
  have "gate_ok (k e K) (g e)" using Cons.prems(3,4) by simp
  then have "gate_ok (fold k ts (k e K)) (g e)"
    by (intro fold_other) (use Cons.prems(2) fresh assms(4) in auto)
  moreover have "\<forall>e'\<in>set ts. gate_ok (k e K) (snd e')"
  proof
    fix e' assume "e' \<in> set ts"
    then have "tgt_fd (snd e') \<noteq> tgt_fd (snd e)" using fresh by (metis image_eqI)
    moreover have "only_at (tgt_fd (snd e)) (k e)" using Cons.prems(2) by simp
    ultimately show "gate_ok (k e K) (snd e')" using Cons.prems(4) \<open>e' \<in> set ts\<close> by (auto simp: only_at_def)
  qed
  then have "\<forall>e'\<in>set ts. gate_ok (fold k ts (k e K)) (g e')"
    using Cons.prems(1-3) by (intro Cons.IH) simp_all
  ultimately show ?case by simp
qed simp

lemma gate_inv_loop:
  assumes "gate_inv s"
    and "\<And>e. e \<in> set (targets s) \<Longrightarrow> only_at (tgt_fd (snd e)) (k e)"
    and "\<And>e K. e \<in> set (targets s) \<Longrightarrow> gate_ok K (snd e) \<Longrightarrow> gate_ok (k e K) (g e)"
    and "\<And>e. tgt_fd (g e) = tgt_fd (snd e)"
    and "targets s' = map (\<lambda>e. (fst e, g e)) (targets s)" and "kern (env s') = fold k (targets s) (kern (env s))"
  shows "gate_inv s'"
proof -
  have "map (tgt_fd \<circ> snd) (targets s') = map (tgt_fd \<circ> snd) (targets s)"
    using assms(4,5) by simp
  moreover have "map fst (targets s') = map fst (targets s)" using assms(5) by simp
  moreover have "\<forall>e\<in>set (targets s). gate_ok (fold k (targets s) (kern (env s))) (g e)"
    using assms(1-4) by (intro fold_gate_ok) (auto simp: gate_inv_def)
  then have "\<forall>e\<in>set (targets s'). gate_ok (kern (env s')) (snd e)" using assms(5,6) by simp
  ultimately show ?thesis using assms(1) unfolding gate_inv_def by metis
qed

lemma for_targets_inv:
  assumes "gate_inv s" and "\<And>t. only_at (tgt_fd t) (h (g t))"
    and "\<And>t K. gate_ok K t \<Longrightarrow> gate_ok (h (g t) K) (g t)" and "\<And>t. tgt_fd (g t) = tgt_fd t"
  shows "gate_inv (for_targets g h s)"
proof (rule gate_inv_loop [OF assms(1), where k = "\<lambda>e. h (g (snd e))" and g = "\<lambda>e. g (snd e)"])
  show "targets (for_targets g h s) = map (\<lambda>e. (fst e, g (snd e))) (targets s)"
    by (auto simp: for_targets_def upd_kernel_def upd_env_def)
  have "(\<lambda>(cid :: byte, t). h (g t)) = (\<lambda>e. h (g (snd e)))" by auto
  then show "kern (env (for_targets g h s)) = fold (\<lambda>e. h (g (snd e))) (targets s) (kern (env s))"
    by (simp add: for_targets_def upd_kernel_def upd_env_def upd_kern_def)
qed (use assms in simp_all)

lemmas pause_simps = gate_ok_def target_paused_def stop_reading_def resume_reading_def watched_mod table_mod

lemma chain_pause_inv: "gate_inv s \<Longrightarrow> gate_inv (recv_chain_pause s)"
  unfolding recv_chain_pause_def
proof (rule for_targets_inv)
  fix t show "only_at (tgt_fd t) (stop_reading (t\<lparr>chain_paused := True\<rparr>))"
    using only_at_stop [of "t\<lparr>chain_paused := True\<rparr>"] by simp
qed (auto simp: pause_simps)

lemma chain_resume_inv: "gate_inv s \<Longrightarrow> gate_inv (recv_chain_resume s)"
  unfolding recv_chain_resume_def
proof (rule for_targets_inv)
  fix t show "only_at (tgt_fd t) (resume_reading (t\<lparr>chain_paused := False\<rparr>))"
    using only_at_resume [of "t\<lparr>chain_paused := False\<rparr>"] by simp
qed (auto simp: pause_simps)

lemma overflow_inv: "gate_inv s \<Longrightarrow> gate_inv (overflow_gate s)"
proof -
  assume s: "gate_inv s"
  then have p: "gate_inv (s\<lparr>dc_paused := b\<rparr>)" for b by (simp add: gate_inv_def)
  have "gate_inv (for_targets (\<lambda>t. t\<lparr>ext_overflow_paused := True\<rparr>) stop_reading (s\<lparr>dc_paused := True\<rparr>))"
  proof (rule for_targets_inv [OF p])
    fix t show "only_at (tgt_fd t) (stop_reading (t\<lparr>ext_overflow_paused := True\<rparr>))"
      using only_at_stop [of "t\<lparr>ext_overflow_paused := True\<rparr>"] by simp
  qed (auto simp: pause_simps)
  moreover have "gate_inv (for_targets (\<lambda>t. t\<lparr>ext_overflow_paused := False\<rparr>) resume_reading (s\<lparr>dc_paused := False\<rparr>))"
  proof (rule for_targets_inv [OF p])
    fix t show "only_at (tgt_fd t) (resume_reading (t\<lparr>ext_overflow_paused := False\<rparr>))"
      using only_at_resume [of "t\<lparr>ext_overflow_paused := False\<rparr>"] by simp
  qed (auto simp: pause_simps)
  ultimately show ?thesis using s by (simp add: overflow_gate_def Let_def)
qed

lemma gate_step_inv: "gate_inv s \<Longrightarrow> gate_inv (gate bp0 s)"
proof (rule gate_inv_loop [where k = "\<lambda>e. gate_reading bp0 (snd e)" and g = "\<lambda>e. gate_flag bp0 (snd e)"])
  have "(\<lambda>(cid :: byte, t). gate_reading bp0 t) = (\<lambda>e. gate_reading bp0 (snd e))" by auto
  then show "kern (env (gate bp0 s)) = fold (\<lambda>e. gate_reading bp0 (snd e)) (targets s) (kern (env s))"
    by (simp add: gate_def upd_kernel_def upd_env_def upd_kern_def)
  show "targets (gate bp0 s) = map (\<lambda>e. (fst e, gate_flag bp0 (snd e))) (targets s)"
    by (auto simp: gate_def upd_kernel_def upd_env_def)
qed (auto simp: gate_flag_def gate_reading_def pause_simps)

text \<open>Changing one target of a list with distinct keys.\<close>

lemma al_put_eq_map:
  "distinct (map fst xs) \<Longrightarrow> map_of xs k = Some v \<Longrightarrow>
   al_put k (g v) xs = map (\<lambda>e. (fst e, if fst e = k then g (snd e) else snd e)) xs"
proof (induction xs)
  case (Cons x xs)
  show ?case
  proof (cases "fst x = k")
    case True
    then have "map (\<lambda>e. (fst e, if fst e = k then g (snd e) else snd e)) xs = map (\<lambda>e. e) xs"
      using Cons.prems(1) by (intro map_cong) (auto simp: image_iff Bex_def)
    then show ?thesis using True Cons.prems(2) by (cases x) simp
  next
    case False
    then show ?thesis using Cons by (cases x) simp
  qed
qed simp

lemma fold_single:
  assumes "distinct (map fst xs)" and "map_of xs c = Some t"
  shows "fold (\<lambda>e K. if fst e = c then k (snd e) K else K) xs K = k t K"
  using assms
proof (induction xs arbitrary: K)
  case (Cons x xs)
  show ?case
  proof (cases "fst x = c")
    case True
    have "fold (\<lambda>e K. if fst e = c then k (snd e) K else K) ys K' = K'" if "c \<notin> fst ` set ys" for ys K'
      using that by (induction ys) auto
    then show ?thesis using True Cons.prems by (cases x) auto
  next
    case False
    then show ?thesis using Cons by (cases x) auto
  qed
qed simp

lemma one_target_inv:
  assumes "gate_inv s" and t: "map_of (targets s) cid = Some t"
    and "\<And>t. only_at (tgt_fd t) (k t)"
    and "\<And>t K. gate_ok K t \<Longrightarrow> gate_ok (k t K) (g t)" and "\<And>t. tgt_fd (g t) = tgt_fd t"
  shows "gate_inv (upd_kernel (k t) (upd_target cid g s))"
proof (rule gate_inv_loop [OF assms(1), where k = "\<lambda>e K. if fst e = cid then k (snd e) K else K"
      and g = "\<lambda>e. if fst e = cid then g (snd e) else snd e"])
  have d: "distinct (map fst (targets s))" using assms(1) by (simp add: gate_inv_def)
  show "targets (upd_kernel (k t) (upd_target cid g s))
      = map (\<lambda>e. (fst e, if fst e = cid then g (snd e) else snd e)) (targets s)"
    using t al_put_eq_map [OF d t, of g] by (simp add: upd_kernel_def upd_env_def upd_target_def)
  show "kern (env (upd_kernel (k t) (upd_target cid g s)))
      = fold (\<lambda>e K. if fst e = cid then k (snd e) K else K) (targets s) (kern (env s))"
    using t fold_single [OF d t, of k] by (simp add: upd_kernel_def upd_env_def upd_kern_def upd_target_def)
  fix e assume "e \<in> set (targets s)"
  show "only_at (tgt_fd (snd e)) (\<lambda>K. if fst e = cid then k (snd e) K else K)"
    using assms(3) [of "snd e"] by (cases "fst e = cid") simp_all
qed (use assms in auto)

lemma writer_pause_inv: "gate_inv s \<Longrightarrow> gate_inv (writer_pause cid s)"
proof (cases "map_of (targets s) cid")
  case (Some t)
  assume s: "gate_inv s"
  have "gate_inv (upd_kernel (mod_fd_events (tgt_fd t) 0 EPOLLIN) (upd_target cid (\<lambda>t. t\<lparr>writer_paused := True\<rparr>) s))"
    by (rule one_target_inv [OF s Some, where k = "\<lambda>t. mod_fd_events (tgt_fd t) 0 EPOLLIN"]) (auto simp: pause_simps)
  then show ?thesis using Some by (simp add: writer_pause_def)
qed (simp add: writer_pause_def)

lemma writer_resume_inv: "gate_inv s \<Longrightarrow> gate_inv (writer_resume cid s)"
proof (cases "map_of (targets s) cid")
  case (Some t)
  assume s: "gate_inv s"
  have "gate_inv (upd_kernel (resume_reading (t\<lparr>writer_paused := False\<rparr>)) (upd_target cid (\<lambda>t. t\<lparr>writer_paused := False\<rparr>) s))"
  proof (rule one_target_inv [OF s Some, where k = "\<lambda>t. resume_reading (t\<lparr>writer_paused := False\<rparr>)"])
    fix t show "only_at (tgt_fd t) (resume_reading (t\<lparr>writer_paused := False\<rparr>))"
      using only_at_resume [of "t\<lparr>writer_paused := False\<rparr>"] by simp
  qed (auto simp: pause_simps)
  then show ?thesis using Some by (simp add: writer_resume_def)
qed (simp add: writer_resume_def)

section \<open>Properties\<close>

text \<open>
  The events that pause and resume targets.  \<open>Buffered\<close> stands for whatever else the session does to the
  writers of its data connections in between.
\<close>

datatype pause_op = WriterPause byte | WriterResume byte | ChainPause | ChainResume | Overflow | Gate bool
  | Buffered "DataConnection list"

fun pause_step :: "pause_op \<Rightarrow> Session \<Rightarrow> Session" where
  "pause_step (WriterPause cid) s = writer_pause cid s"
| "pause_step (WriterResume cid) s = writer_resume cid s"
| "pause_step ChainPause s = recv_chain_pause s"
| "pause_step ChainResume s = recv_chain_resume s"
| "pause_step Overflow s = overflow_gate s"
| "pause_step (Gate bp0) s = gate bp0 s"
| "pause_step (Buffered dcs) s = s\<lparr>data_connections := dcs\<rparr>"

lemma pause_steps_inv: "gate_inv s \<Longrightarrow> gate_inv (fold pause_step ops s)"
proof (induction ops arbitrary: s)
  case (Cons a ops)
  have "gate_inv (pause_step a s)"
    using Cons.prems writer_pause_inv writer_resume_inv chain_pause_inv chain_resume_inv overflow_inv gate_step_inv
    by (cases a) (simp_all add: gate_inv_def)
  then show ?case using Cons.IH by simp
qed simp

text \<open>
  C14: in any interleaving of pauses and resumes from the client, from the data connections and from the chain,
  after a tick without chain backpressure a target is read from exactly when no pause is in force for it:
  no target is forgotten in the paused state, and none is read from against a pause.
\<close>

theorem targets_read_unless_paused:
  assumes "gate_inv s" and "(cid, t) \<in> set (targets (gate False (fold pause_step ops s)))"
  shows "watched (kern (env (gate False (fold pause_step ops s)))) (tgt_fd t)
    \<longleftrightarrow> \<not> (writer_paused t \<or> chain_paused t \<or> ext_overflow_paused t)"
proof -
  let ?s = "fold pause_step ops s"
  have inv: "gate_inv (gate False ?s)" "gate_inv ?s" using assms(1) pause_steps_inv gate_step_inv by blast+
  have "targets (gate False ?s) = map (apsnd (gate_flag False)) (targets ?s)"
    by (simp add: gate_def upd_kernel_def upd_env_def)
  then obtain t' where t': "(cid, t') \<in> set (targets ?s)" "t = gate_flag False t'" using assms(2) by auto
  then have "0 \<le> tgt_fd t'" using inv(2) by (auto simp: gate_inv_def gate_ok_def)
  then have "epollin_removed t \<longleftrightarrow> target_paused t"
    using t'(2) by (simp add: gate_flag_def target_paused_def)
  moreover have "gate_ok (kern (env (gate False ?s))) t" using inv(1) assms(2) by (auto simp: gate_inv_def)
  ultimately show ?thesis by (auto simp: gate_ok_def target_paused_def)
qed

definition gated_session :: Session where
  "gated_session = upd_kernel (add_fd_handler 8 (HTarget 1) EPOLLIN) (upd_kernel (fd_appears 8)
     ((session_new 4 [] 30000 1 env_new)\<lparr>targets := [(1, target_new 8 [])]\<rparr>))"

lemma gated_session_inv: "gate_inv gated_session"
proof -
  have "watched (kern (env gated_session)) 8" "\<not> Option.is_none (fd_to_handler (kern (env gated_session)) 8)"
    "targets gated_session = [(1, target_new 8 [])]"
    by code_simp+
  then show ?thesis
    by (auto simp: gate_inv_def gate_ok_def target_new_def target_paused_def Option.is_none_def)
qed

theorem targets_read_unless_paused_witness:
  "\<not> watched (kern (env (gate False (fold pause_step [WriterPause 1, ChainPause, WriterResume 1] gated_session)))) 8"
proof -
  let ?t = "(target_new 8 [])\<lparr>chain_paused := True, epollin_removed := True\<rparr>"
  have "targets (gate False (fold pause_step [WriterPause 1, ChainPause, WriterResume 1] gated_session)) = [(1, ?t)]"
    by code_simp
  then have "(1, ?t) \<in> set (targets (gate False (fold pause_step [WriterPause 1, ChainPause, WriterResume 1] gated_session)))"
    by simp
  from targets_read_unless_paused [OF gated_session_inv this] show ?thesis by (simp add: target_new_def)
qed

text \<open>
  The client's \<open>WRITER_RESUME\<close> undoes the gating of the chain's own backpressure: a target that a tick has
  stopped because the chain is full is read from again after the message, and the next tick, with the chain
  still full, does not stop it.
\<close>

theorem resume_defeats_backpressure:
  assumes "gate_inv s" and "map_of (targets s) cid = Some t"
    and "\<not> (writer_paused t \<or> chain_paused t \<or> ext_overflow_paused t)"
  shows "watched (kern (env (gate True (writer_resume cid (gate True s))))) (tgt_fd t)"
proof -
  define t1 where "t1 = gate_flag True t"
  define t2 where "t2 = t1\<lparr>writer_paused := False\<rparr>"
  let ?s1 = "gate True s" and ?s2 = "writer_resume cid (gate True s)"
  have t0: "0 \<le> tgt_fd t" using assms(1,2) map_of_SomeD [OF assms(2)] by (auto simp: gate_inv_def gate_ok_def)
  have tg1: "targets ?s1 = map (apsnd (gate_flag True)) (targets s)"
    by (simp add: gate_def upd_kernel_def upd_env_def)
  then have m1: "map_of (targets ?s1) cid = Some t1"
    using assms(2) by (simp add: t1_def map_of_map apsnd_def map_prod_def)
  have f1: "tgt_fd t1 = tgt_fd t" "epollin_removed t1" "\<not> target_paused t1"
    using assms(3) t0 by (auto simp: t1_def gate_flag_def target_paused_def)
  have inv1: "gate_inv ?s1" using assms(1) by (rule gate_step_inv)
  then have g1: "gate_ok (kern (env ?s1)) t1" using map_of_SomeD [OF m1] by (auto simp: gate_inv_def)
  have w2: "watched (kern (env ?s2)) (tgt_fd t)"
    using m1 f1 g1 t0
    by (simp add: writer_resume_def upd_kernel_def upd_env_def upd_kern_def upd_target_def resume_reading_def
        target_paused_def gate_ok_def watched_mod)
  have inv2: "gate_inv ?s2" using inv1 by (rule writer_resume_inv)
  have m2: "map_of (targets ?s2) cid = Some t2"
    using m1 by (simp add: writer_resume_def upd_kernel_def upd_env_def upd_target_def t2_def)
  have f2: "tgt_fd t2 = tgt_fd t" "epollin_removed t2" "\<not> target_paused t2"
    using f1 by (simp_all add: t2_def target_paused_def)
  have d: "distinct (map (tgt_fd \<circ> snd) (targets ?s2))" using inv2 by (simp add: gate_inv_def)
  have keep: "watched (gate_reading True t' K) (tgt_fd t) = watched K (tgt_fd t)"
    if "(c, t') \<in> set (targets ?s2)" for c t' K
  proof (cases "tgt_fd t' = tgt_fd t")
    case True
    have "inj_on (tgt_fd \<circ> snd) (set (targets ?s2))" using d by (simp add: distinct_map)
    then have "(c, t') = (cid, t2)"
      by (rule inj_onD) (use True that map_of_SomeD [OF m2] f2(1) in simp_all)
    then show ?thesis using f2 t0 by (simp add: gate_reading_def)
  next
    case False
    then show ?thesis by (simp add: gate_reading_def watched_mod)
  qed
  have "watched (fold (\<lambda>(c, t). gate_reading True t) ts K) (tgt_fd t) = watched K (tgt_fd t)"
    if "set ts \<subseteq> set (targets ?s2)" for ts K
    using that by (induction ts arbitrary: K) (auto simp: keep)
  then show ?thesis using w2 by (simp add: gate_def upd_kernel_def upd_env_def upd_kern_def)
qed

theorem resume_defeats_backpressure_witness:
  "watched (kern (env (gate True (writer_resume 1 (gate True gated_session))))) 8"
proof -
  have "map_of (targets gated_session) 1 = Some (target_new 8 [])" by code_simp
  from resume_defeats_backpressure [OF gated_session_inv this] show ?thesis by (simp add: target_new_def)
qed

end
