(* ===== verification/Session_Conn.thy ===== *)
theory Session_Conn
  imports Session_Loop Client_Messages
begin

unbundle bit_operations_syntax

text \<open>
  Targets and connections of a session over their life: connect requests and their answers, loss of the
  client and reconnection, release of every descriptor at the end.
\<close>

section \<open>What the operations leave unchanged\<close>

lemmas sess_upd = upd_kernel_def upd_env_def upd_kern_def set_os_def upd_dc_def

lemma register_out_frame [frame_simps]:
  "targets (register_data_conn_epollout i f s) = targets s"
  "pending_connects (register_data_conn_epollout i f s) = pending_connects s"
  "clock (env (register_data_conn_epollout i f s)) = clock (env s)"
  by (simp_all add: register_data_conn_epollout_def sess_upd)

lemma send_control_on_frame [frame_simps]:
  "targets (send_control_on b n is s) = targets s"
  "pending_connects (send_control_on b n is s) = pending_connects s"
  "clock (env (send_control_on b n is s)) = clock (env s)"
  by (induction "is" arbitrary: s) (simp_all add: Let_def frame_simps upd_dc_def)

lemma send_control_frame [frame_simps]:
  "targets (send_control p s) = targets s"
  "pending_connects (send_control p s) = pending_connects s"
  "clock (env (send_control p s)) = clock (env s)"
  by (simp_all add: send_control_def Let_def frame_simps)

lemma env_close_frame [frame_simps]:
  "clock (env_close f E) = clock E" "closed_fds (osys (env_close f E)) = closed_fds (osys E) @ [f]"
  "fd_to_handler (kern (env_close f E)) = fd_to_handler (kern E)"
  by (simp_all add: env_close_def sys_close_def fd_closed_def)

lemma del_fd_table [frame_simps]: "fd_to_handler (del_fd f K) = (fd_to_handler K)(f := None)"
  by (simp add: del_fd_def epoll_del_def Let_def)

section \<open>Connect requests\<close>

lemma connect_async_outcome:
  "(\<exists>E. connect_async n cid req s = connect_fail cid req (s\<lparr>env := E\<rparr>))
   \<or> (\<exists>E f. connect_async n cid req s = on_target_connected f cid req (s\<lparr>env := E\<rparr>))
   \<or> (\<exists>pc. map_of (pending_connects (connect_async n cid req s)) req = Some pc \<and> pc_conn_id pc = cid \<and> pc_req_id pc = req
        \<and> Option.bind (fd_to_handler (kern (env (connect_async n cid req s))) (pc_fd pc)) out_cb = Some (HConnect cid req))"
    (is "?fail n s \<or> ?okay n s \<or> ?pend n s")
proof (induction n arbitrary: s)
  case 0
  have "connect_async 0 cid req s = connect_fail cid req (s\<lparr>env := env s\<rparr>)" by simp
  then show ?case by blast
next
  case (Suc n)
  have again: "?fail (Suc n) s \<or> ?okay (Suc n) s \<or> ?pend (Suc n) s"
    if "connect_async (Suc n) cid req s = connect_async n cid req (s\<lparr>env := E\<rparr>)" for E
    using Suc.IH [of "s\<lparr>env := E\<rparr>"] unfolding that by simp
  obtain r E where sys: "sys_socket_connect (env s) = (r, E)" by fastforce
  show ?case
  proof (cases r)
    case None
    show ?thesis by (rule again) (simp add: sys None)
  next
    case (Some fa)
    obtain f a where fa: "fa = (f, a)" by fastforce
    show ?thesis
    proof (cases a)
      case ConnOk
      then have "?okay (Suc n) s" using sys Some fa by auto
      then show ?thesis by blast
    next
      case ConnInProgress
      then have "?pend (Suc n) s"
        using sys Some fa by (simp add: sess_upd add_fd_handler_table Let_def)
      then show ?thesis by blast
    next
      case ConnFail
      show ?thesis by (rule again) (simp add: sys Some fa ConnFail)
    qed
  qed
qed

lemma setup_async_outcome:
  "(\<exists>E. setup_tunnel_target_async target cid req s = connect_fail cid req (s\<lparr>env := E\<rparr>))
   \<or> (\<exists>E f. setup_tunnel_target_async target cid req s = on_target_connected f cid req (s\<lparr>env := E\<rparr>))
   \<or> (\<exists>pc. map_of (pending_connects (setup_tunnel_target_async target cid req s)) req = Some pc
        \<and> pc_conn_id pc = cid \<and> pc_req_id pc = req
        \<and> Option.bind (fd_to_handler (kern (env (setup_tunnel_target_async target cid req s))) (pc_fd pc)) out_cb
            = Some (HConnect cid req))"
proof (cases "str_find CHR '':'' target")
  case None
  then have "setup_tunnel_target_async target cid req s = connect_fail cid req (s\<lparr>env := env s\<rparr>)"
    by (simp add: setup_tunnel_target_async_def del: str_find_None)
  then show ?thesis by blast
next
  case (Some colon)
  obtain r E where g: "sys_getaddrinfo (c_str (take colon target)) (c_str (drop (colon + 1) target)) (env s) = (r, E)"
    by fastforce
  show ?thesis
  proof (cases r)
    case None
    then have "setup_tunnel_target_async target cid req s = connect_fail cid req (s\<lparr>env := E\<rparr>)"
      using Some g by (simp add: setup_tunnel_target_async_def)
    then show ?thesis by blast
  next
    case (Some n)
    then have "setup_tunnel_target_async target cid req s = connect_async n cid req (s\<lparr>env := E\<rparr>)"
      using \<open>str_find CHR '':'' target = Some colon\<close> g by (simp add: setup_tunnel_target_async_def)
    then show ?thesis using connect_async_outcome [of n cid req "s\<lparr>env := E\<rparr>"] by simp
  qed
qed



section \<open>Time-outs\<close>

lemma connect_timeouts_spec:
  "clock (env (connect_timeouts xs s)) = clock (env s)
   \<and> set (pending_connects (connect_timeouts xs s)) \<subseteq> set (pending_connects s)
   \<and> (\<forall>e\<in>set (pending_connects (connect_timeouts xs s)).
        e \<in> set xs \<longrightarrow> clock (env s) - started_at (snd e) \<le> CONNECT_TIMEOUT_MS)"
proof (induction xs arbitrary: s)
  case (Cons x xs)
  obtain req pc where x: "x = (req, pc)" by fastforce
  show ?case
  proof (cases "clock (env s) - started_at pc > CONNECT_TIMEOUT_MS")
    case True
    let ?s = "(connect_fail (pc_conn_id pc) (pc_req_id pc) (upd_env (env_close (pc_fd pc)) s))
        \<lparr>pending_connects := al_erase req (pending_connects s)\<rparr>"
    have c: "clock (env ?s) = clock (env s)" and p: "pending_connects ?s = al_erase req (pending_connects s)"
      by (simp_all add: connect_fail_def frame_simps upd_env_def)
    have "x \<notin> set (pending_connects ?s)" "set (pending_connects ?s) \<subseteq> set (pending_connects s)"
      using x by (auto simp: p al_erase_def)
    then show ?thesis using Cons.IH [of ?s] True x c by (auto simp: subset_iff)
  next
    case False
    then show ?thesis using Cons.IH [of s] x by auto
  qed
qed simp

text \<open>
  C27: after the check of a tick no connect request that has been pending for more than five seconds is left:
  every older one has been given up (its answer is \<open>MSG_CONNECT_FAIL\<close>), and no younger one was touched.
\<close>

theorem connect_timeout_bounded:
  "\<forall>e\<in>set (pending_connects (check_pending_connect_timeout s)).
     e \<in> set (pending_connects s) \<and> clock (env s) - started_at (snd e) \<le> CONNECT_TIMEOUT_MS"
  using connect_timeouts_spec [of "pending_connects s" s]
  by (auto simp: check_pending_connect_timeout_def)

definition waiting_session :: Session where
  "waiting_session = (session_new 4 [] 30000 1 (env_new\<lparr>clock := 6000\<rparr>))\<lparr>pending_connects :=
     [(1, \<lparr>pc_fd = 8, pc_conn_id = 0, pc_req_id = 1, started_at = 100\<rparr>),
      (2, \<lparr>pc_fd = 9, pc_conn_id = 1, pc_req_id = 2, started_at = 4000\<rparr>)]\<rparr>"

theorem connect_timeout_bounded_witness:
  "map fst (pending_connects (check_pending_connect_timeout waiting_session)) = [2]
   \<and> clock (env waiting_session) - started_at (snd (hd (pending_connects (check_pending_connect_timeout waiting_session))))
       \<le> CONNECT_TIMEOUT_MS"
proof -
  let ?p = "pending_connects (check_pending_connect_timeout waiting_session)"
  have m: "map fst ?p = [2]" by code_simp
  then have "hd ?p \<in> set ?p" by (intro list.set_sel(1)) auto
  then show ?thesis using m connect_timeout_bounded [of waiting_session] by blast
qed

section \<open>Closing\<close>

lemma al_erase_absent: "map_of xs k = None \<Longrightarrow> al_erase k xs = xs"
  by (induction xs) (auto simp: al_erase_def split: if_splits)

lemma close_target_frame [frame_simps]:
  "data_connections (close_target cid s) = data_connections s"
  "client_fd (close_target cid s) = client_fd s"
  "saved_targets (close_target cid s) = saved_targets s"
  "st (close_target cid s) = st s"
  "targets (close_target cid s) = al_erase cid (targets s)"
  by (simp_all add: close_target_def sess_upd al_erase_absent split: option.splits)

lemma close_all_frame [frame_simps]:
  "data_connections (close_all_targets s) = data_connections s"
  "client_fd (close_all_targets s) = client_fd s"
  "saved_targets (close_all_targets s) = saved_targets s"
  "st (close_all_targets s) = st s"
  "targets (close_all_targets s) = []"
  by (induction s rule: close_all_targets.induct;
      subst close_all_targets.simps; auto simp: frame_simps split: list.splits)+

text \<open>Descriptor \<open>f\<close> has been closed and has no callback.\<close>

definition released :: "Session \<Rightarrow> fd \<Rightarrow> bool" where
  "released s f \<longleftrightarrow> f \<in> set (closed_fds (osys (env s))) \<and> fd_to_handler (kern (env s)) f = None"

lemma released_close:
  "released (upd_env (env_close f) (upd_kernel (del_fd f) s)) g \<longleftrightarrow> g = f \<or> released s g"
  by (auto simp: released_def sess_upd frame_simps)

lemma released_frame [simp]:
  "released (s\<lparr>targets := ts\<rparr>) f = released s f" "released (s\<lparr>data_connections := dcs\<rparr>) f = released s f"
  by (simp_all add: released_def)

lemma released_close_target: "released s g \<Longrightarrow> released (close_target cid s) g"
  by (simp add: close_target_def released_close split: option.splits)

lemma close_all_released:
  "distinct (map fst (targets s)) \<Longrightarrow>
   (\<forall>e\<in>set (targets s). released (close_all_targets s) (tgt_fd (snd e)))
   \<and> (\<forall>g. released s g \<longrightarrow> released (close_all_targets s) g)"
proof (induction s rule: close_all_targets.induct)
  case (1 s)
  show ?case
  proof (cases "targets s")
    case Nil
    then show ?thesis by (subst (1 2) close_all_targets.simps) simp
  next
    case (Cons e es)
    obtain cid t where e: "e = (cid, t)" by fastforce
    let ?s = "close_target cid s"
    have eq: "close_all_targets s = close_all_targets ?s" using Cons e by (subst close_all_targets.simps) simp
    have "cid \<notin> fst ` set es" using 1(2) Cons e by simp
    then have "al_erase cid es = es" by (force simp: al_erase_def filter_id_conv)
    then have tg: "targets ?s = es" using Cons e by (simp add: frame_simps al_erase_def)
    have "released ?s (tgt_fd t)" using Cons e by (simp add: close_target_def released_close)
    moreover have "(\<forall>e\<in>set es. released (close_all_targets ?s) (tgt_fd (snd e)))
        \<and> (\<forall>g. released ?s g \<longrightarrow> released (close_all_targets ?s) g)"
      using 1(1) [OF Cons e [symmetric]] 1(2) Cons tg by simp
    ultimately show ?thesis using Cons e eq released_close_target [of s _ cid] by simp
  qed
qed

lemma close_conns_frame [frame_simps]:
  "client_fd (close_conns dcs s) = client_fd s" "targets (close_conns dcs s) = targets s"
  by (induction dcs arbitrary: s) (simp_all add: sess_upd)

lemma close_conns_released:
  "(\<forall>dc\<in>set dcs. 0 \<le> dc_fd dc \<longrightarrow> released (close_conns dcs s) (dc_fd dc))
   \<and> (\<forall>g. released s g \<longrightarrow> released (close_conns dcs s) g)"
proof (induction dcs arbitrary: s)
  case (Cons dc dcs)
  show ?case
  proof (cases "0 \<le> dc_fd dc")
    case True
    then show ?thesis
      using Cons.IH [of "upd_env (env_close (dc_fd dc)) (upd_kernel (del_fd (dc_fd dc)) s)"]
      by (simp add: released_close)
  next
    case False
    then show ?thesis using Cons.IH [of s] by simp
  qed
qed simp


definition small_session :: Session where
  "small_session = (session_new 4 [] 30000 1 env_new)\<lparr>st := RUNNING, targets := [(1, target_new 8 []), (2, target_new 9 [])],
     data_connections := [dc_new\<lparr>dc_fd := 4\<rparr>, dc_new\<lparr>dc_fd := 5\<rparr>]\<rparr>"


section \<open>Losing and regaining the client\<close>

lemma drop_data_conns_frame [frame_simps]:
  "targets (drop_data_conns i dcs s) = targets s" "saved_targets (drop_data_conns i dcs s) = saved_targets s"
  "length (data_connections (drop_data_conns i dcs s)) = length (data_connections s)"
  by (induction dcs arbitrary: i s) (simp_all add: sess_upd)

lemma drop_data_conns_buffer:
  "read_buf (data_connections (drop_data_conns i dcs s) ! j) \<in> {[], read_buf (data_connections s ! j)}
   \<and> dc_read_offset (data_connections (drop_data_conns i dcs s) ! j) = dc_read_offset (data_connections s ! j)"
proof (induction dcs arbitrary: i s)
  case (Cons dc dcs)
  let ?s = "if 0 \<le> dc_fd dc
        then upd_dc i (\<lambda>dc. dc\<lparr>dc_fd := -1, dc_writer := wb_clear (dc_writer dc), read_buf := []\<rparr>)
               ((if i \<noteq> 0 then upd_env (env_close (dc_fd dc)) else (\<lambda>s. s)) (upd_kernel (del_fd (dc_fd dc)) s))
        else s"
  have "read_buf (data_connections ?s ! j) \<in> {[], read_buf (data_connections s ! j)}"
    "dc_read_offset (data_connections ?s ! j) = dc_read_offset (data_connections s ! j)"
    by (auto simp: sess_upd nth_upd)
  then show ?case using Cons.IH [of "i + 1" ?s] by auto
qed simp

lemma reconnect_targets_nameless:
  "list_all (\<lambda>e. snd e = []) xs \<Longrightarrow> reconnect_targets xs s = s"
proof (induction xs arbitrary: s)
  case (Cons x xs)
  then show ?case by (cases x) (simp add: setup_tunnel_target_def)
qed simp



lemma scan_zero: "scan_frame (0 # bs) = FrameStop"
  by (simp add: scan_frame_def Let_def)

text \<open>
  A hard read error on a data connection with bytes in its buffer leaves that buffer filled with zeros;
  whatever is received into it later, the frame reader finds no frame: it stops at once at every read.
\<close>

theorem read_error_poisons_buffer:
  assumes "idx < length (data_connections (snd (snd d)))" and "read_buf (conn_at idx d) \<noteq> []"
    and "rd_answers (env (snd (snd d))) (dc_fd (conn_at idx d)) = ReadError # as"
  shows "\<exists>d'. on_data_in P idx EPOLLIN d = Some d'
    \<and> scan_frame (drop (dc_read_offset (conn_at idx d')) (read_buf (conn_at idx d') @ later)) = FrameStop"
proof -
  let ?dc = "conn_at idx d" and ?old = "length (read_buf (conn_at idx d))"
  define s0 where "s0 = (snd (snd d))\<lparr>env := (env (snd (snd d)))\<lparr>rd_answers :=
      (rd_answers (env (snd (snd d))))(dc_fd ?dc := as)\<rparr>\<rparr>"
  define s1 where "s1 = upd_dc idx (\<lambda>dc. (clear_buffer dc)\<lparr>dc_fd := -1\<rparr>) (upd_kernel (del_fd (dc_fd ?dc)) s0)"
  have i0: "idx < length (data_connections s0)" "data_connections s0 ! idx = ?dc"
    using assms(1) by (simp_all add: s0_def conn_at_def)
  have b1: "read_buf (data_connections s1 ! idx) = []" "dc_read_offset (data_connections s1 ! idx) = 0"
      "idx < length (data_connections s1)"
    using i0 by (simp_all add: s1_def sess_upd clear_buffer_def)
  have b2: "read_buf (data_connections (on_disconnect s1) ! idx) = []"
      "dc_read_offset (data_connections (on_disconnect s1) ! idx) = 0"
      "idx < length (data_connections (on_disconnect s1))"
    using b1 drop_data_conns_buffer [of 0 "data_connections s1"
        "close_all_targets (s1\<lparr>saved_targets := map (\<lambda>(cid, t). (cid, addr t)) (targets s1)\<rparr>)" idx]
    by (simp_all add: on_disconnect_def Let_def frame_simps)
  have lost: "conn_lost idx s0 = (on_disconnect s1)\<lparr>kept_alive := True\<rparr>"
    using i0 by (simp add: conn_lost_def s1_def Let_def)
  have run: "on_data_in P idx EPOLLIN d = Some (upd_conn idx (\<lambda>dc. dc\<lparr>read_buf := vec_resize ?old 0 (read_buf dc)\<rparr>)
      (fst d, in_session (conn_lost idx) (fst (snd d), s0)))"
    using assms by (simp add: on_data_in_def sys_read_def Let_def s0_def in_session_def)
  obtain n where n: "?old = Suc n" using assms(2) by (cases ?old) auto
  let ?d = "upd_conn idx (\<lambda>dc. dc\<lparr>read_buf := vec_resize ?old 0 (read_buf dc)\<rparr>)
      (fst d, in_session (conn_lost idx) (fst (snd d), s0))"
  have "read_buf (conn_at idx ?d) = 0 # replicate n 0" "dc_read_offset (conn_at idx ?d) = 0"
    using b2 lost n by (simp_all add: conn_at_def upd_conn_def in_session_def upd_dc_def vec_resize_def)
  then have "scan_frame (drop (dc_read_offset (conn_at idx ?d)) (read_buf (conn_at idx ?d) @ later)) = FrameStop"
    by (simp add: scan_zero)
  with run show ?thesis by blast
qed

theorem read_error_poisons_buffer_witness:
  "\<exists>d'. on_data_in demo_setup 0 EPOLLIN (ctl_new, None, small_session\<lparr>data_connections := [dc_new\<lparr>dc_fd := 4, read_buf := [9]\<rparr>],
        env := env_new\<lparr>rd_answers := (\<lambda>_. [ReadError])\<rparr>\<rparr>) = Some d'
     \<and> scan_frame (drop (dc_read_offset (conn_at 0 d')) (read_buf (conn_at 0 d') @ [1, 1])) = FrameStop"
proof (rule read_error_poisons_buffer)
qed (simp_all add: conn_at_def)

section \<open>Hang-ups\<close>

interpretation session_kernel: kernel_state
  "\<lambda>d :: 'c dworld. kern (env (snd (snd d)))" "\<lambda>K d. (fst d, fst (snd d), upd_kernel (\<lambda>_. K) (snd (snd d)))"
  by unfold_locales (simp add: sess_upd)

text \<open>After a hang-up or an error of a descriptor no callback of the session is left for it.\<close>

lemmas session_hangup_unregisters = session_kernel.dispatch_hup_unregisters

end
