(* ===== verification/Server.thy ===== *)
theory Server
  imports Session_Loop
begin

unbundle bit_operations_syntax

text \<open>
  \<open>src/server/server.h\<close> and \<open>server.cpp\<close>: the listening socket, the connections that have not yet sent
  their nine bytes of greeting, the registry of sessions and the tick.

  All sessions share one kernel, one operating system and the function-static counters; \<open>with_session\<close>
  lends them to one session for one call and takes them back.  In the shared table a callback carries the
  id of its session (\<open>HOf\<close>); inside the session it appears as the session's own.  \<open>sessions\<close> is
  \<open>g_session_registry\<close> restricted to the sessions that are alive.  A session dies when nothing refers to
  it any more: no callback in the table and no entry in \<open>g_paused_sessions\<close> (\<open>unreferenced\<close>); the
  destructor is the operation \<open>session_reaped\<close>.  The answers of \<open>accept\<close>, \<open>rand\<close> and \<open>time\<close> are members.
\<close>

section \<open>State\<close>

abbreviation (input) HANDSHAKE_TIMEOUT_MS :: int where "HANDSHAKE_TIMEOUT_MS \<equiv> 5000"
abbreviation (input) HANDSHAKE_SHORT_TIMEOUT_MS :: int where "HANDSHAKE_SHORT_TIMEOUT_MS \<equiv> 50"

record PendingHandshake =
  ph_fd :: fd
  ph_buf :: bytes
  ph_got :: nat
  accepted_at :: millis

record 'c Server =
  listen_fd :: fd
  srv_password :: string
  srv_heartbeat :: int
  pending_handshakes :: "PendingHandshake list"
  sessions :: "(u64 \<times> 'c dworld) list"
  srv_env :: "session_handler Env"
  accept_answers :: "acc_answer list"
  srv_rands :: "nat list"
  srv_time :: u64
  id_counter :: u64
  srv_conn_id :: byte
  srv_module_id :: int

definition server_new :: "string \<Rightarrow> int \<Rightarrow> session_handler Env \<Rightarrow> 'c Server" where
  "server_new pw hb E = \<lparr>listen_fd = -1, srv_password = pw, srv_heartbeat = hb, pending_handshakes = [],
     sessions = [], srv_env = E, accept_answers = [], srv_rands = [], srv_time = 0, id_counter = 0,
     srv_conn_id = 0, srv_module_id = 0\<rparr>"

definition srv_upd_env :: "(session_handler Env \<Rightarrow> session_handler Env) \<Rightarrow> 'c Server \<Rightarrow> 'c Server" where
  "srv_upd_env g S = S\<lparr>srv_env := g (srv_env S)\<rparr>"

definition srv_kernel ::
  "(session_handler Kernel \<Rightarrow> session_handler Kernel) \<Rightarrow> 'c Server \<Rightarrow> 'c Server" where
  "srv_kernel g S = srv_upd_env (upd_kern g) S"

section \<open>Lending the shared state to a session\<close>

text \<open>A callback as its own session sees it, and back.\<close>

fun own_cb :: "u64 \<Rightarrow> session_handler \<Rightarrow> session_handler" where
  "own_cb sid (HOf i h) = (if i = sid then h else HOf i h)"
| "own_cb sid h = h"

fun shared_cb :: "u64 \<Rightarrow> session_handler \<Rightarrow> session_handler" where
  "shared_cb sid HListen = HListen"
| "shared_cb sid HPending = HPending"
| "shared_cb sid (HOf i h) = HOf i h"
| "shared_cb sid h = HOf sid h"

definition map_table :: "('h \<Rightarrow> 'h) \<Rightarrow> 'h Kernel \<Rightarrow> 'h Kernel" where
  "map_table g K = K\<lparr>fd_to_handler := (\<lambda>f. map_option (\<lambda>s. s\<lparr>in_cb := map_option g (in_cb s),
     out_cb := map_option g (out_cb s)\<rparr>) (fd_to_handler K f))\<rparr>"

definition lend :: "u64 \<Rightarrow> 'c Server \<Rightarrow> Session \<Rightarrow> Session" where
  "lend sid S s = s\<lparr>env := upd_kern (map_table (own_cb sid)) (srv_env S),
     next_conn_id := srv_conn_id S, next_module_id := srv_module_id S\<rparr>"

definition take_back :: "u64 \<Rightarrow> 'c dworld \<Rightarrow> 'c Server \<Rightarrow> 'c Server" where
  "take_back sid d S =
     (let s = snd (snd d)
      in S\<lparr>sessions := al_put sid d (sessions S), srv_env := upd_kern (map_table (shared_cb sid)) (env s),
           srv_conn_id := next_conn_id s, srv_module_id := next_module_id s\<rparr>)"

text \<open>\<open>reconnect\<close> on the sessions that a reconnecting client has taken over.\<close>

fun carry_out :: "(u64 \<times> fd) list \<Rightarrow> 'c Server \<Rightarrow> 'c Server option" where
  "carry_out [] S = Some S"
| "carry_out ((sid, f) # rest) S =
     (case map_of (sessions S) sid of
        None \<Rightarrow> carry_out rest S
      | Some (c, chain, s) \<Rightarrow>
          Option.bind (reconnect f (lend sid S s)) (\<lambda>(_, s). carry_out rest (take_back sid (c, chain, s) S)))"

definition resumable :: "'c Server \<Rightarrow> u64 \<Rightarrow> bool" where
  "resumable S sid = (case map_of (sessions S) sid of None \<Rightarrow> False | Some d \<Rightarrow> paused (snd (snd d)))"

definition with_session ::
  "'c Setup \<Rightarrow> u64 \<Rightarrow> ('c Setup \<Rightarrow> 'c dworld \<Rightarrow> 'c dworld option) \<Rightarrow> 'c Server \<Rightarrow> 'c Server option" where
  "with_session P sid g S =
     (case map_of (sessions S) sid of
        None \<Rightarrow> Some S
      | Some (c, chain, s) \<Rightarrow> do {
          (c, chain, s) \<leftarrow> g (P\<lparr>su_resumable := resumable S\<rparr>) (c, chain, lend sid S s);
          carry_out (taken_over s) (take_back sid (c, chain, s\<lparr>taken_over := []\<rparr>) S)
        })"

section \<open>The greeting\<close>

definition new_session_id :: "'c Server \<Rightarrow> u64" where
  "new_session_id S = id_counter S + 1 + push_bit 32 (srv_time S)"

text \<open>\<open>std::to_string(rand()) + std::to_string(time(nullptr))\<close>\<close>

definition new_challenge :: "'c Server \<Rightarrow> string" where
  "new_challenge S = dec_string (case srv_rands S of [] \<Rightarrow> 0 | r # _ \<Rightarrow> r) @ dec_string (unat (srv_time S))"

definition greet_client :: "string \<Rightarrow> bytes \<Rightarrow> 'c Setup \<Rightarrow> 'c dworld \<Rightarrow> 'c dworld option" where
  "greet_client challenge data P d = do {
     let w = in_session (\<lambda>s. send_packet (make_msg MSG_AUTH_CHALLENGE (bytes_of challenge))
                                (s\<lparr>challenge1 := challenge\<rparr>)) (snd d);
     w \<leftarrow> (if data \<noteq> [] then on_data P data w else Some w);
     Some (fst d, w)
   }"

definition register_session :: "fd \<Rightarrow> 'c Server \<Rightarrow> 'c Server" where
  "register_session f S =
     (let sid = new_session_id S
      in S\<lparr>id_counter := id_counter S + 1, srv_rands := tl (srv_rands S),
           sessions := al_put sid (ctl_new, None, session_new f (srv_password S) (srv_heartbeat S) sid (srv_env S))
                         (sessions S)\<rparr>)"

definition new_session :: "'c Setup \<Rightarrow> fd \<Rightarrow> bytes \<Rightarrow> 'c Server \<Rightarrow> 'c Server option" where
  "new_session P f data S =
     map_option (srv_kernel (add_fd_handler f (HOf (new_session_id S) HClient) EPOLLIN))
       (with_session P (new_session_id S) (greet_client (new_challenge S) data) (register_session f S))"

definition finish_handshake :: "'c Setup \<Rightarrow> fd \<Rightarrow> bytes \<Rightarrow> 'c Server \<Rightarrow> 'c Server option" where
  "finish_handshake P f buf S =
     (let sid = u64_of_bytes buf
      in if length buf = 9 \<and> map_of (sessions S) sid \<noteq> None
         then with_session P sid (\<lambda>P (c, w). Some (c, in_session (add_data_connection (buf ! 8) f) w)) S
         else new_session P f buf S)"

text \<open>The array \<open>buf\<close> of a pending connection, written from an offset on.\<close>

definition write_at :: "nat \<Rightarrow> bytes \<Rightarrow> bytes \<Rightarrow> bytes" where
  "write_at off bs buf = take off buf @ bs @ drop (off + length bs) buf"

definition push_pending :: "fd \<Rightarrow> bytes \<Rightarrow> 'c Server \<Rightarrow> 'c Server" where
  "push_pending f data S =
     srv_kernel (add_fd_handler f HPending EPOLLIN)
       (S\<lparr>pending_handshakes := pending_handshakes S @
            [\<lparr>ph_fd = f, ph_buf = write_at 0 data (replicate 9 0), ph_got = length data,
              accepted_at = clock (srv_env S)\<rparr>]\<rparr>)"

text \<open>One accepted connection: the immediate read of nine bytes.\<close>

definition accepted :: "'c Setup \<Rightarrow> fd \<Rightarrow> 'c Server \<Rightarrow> 'c Server option" where
  "accepted P cfd S =
     (case sys_read cfd 9 (srv_env S) of
        (ReadData hdr, E) \<Rightarrow>
          (let S = S\<lparr>srv_env := E\<rparr>
           in if length hdr < 9 then Some (push_pending cfd hdr S) else finish_handshake P cfd hdr S)
      | (ReadAgain, E) \<Rightarrow> Some (push_pending cfd [] (S\<lparr>srv_env := E\<rparr>))
      | (_, E) \<Rightarrow> Some (S\<lparr>srv_env := env_close cfd E\<rparr>))"

fun accept_loop :: "'c Setup \<Rightarrow> acc_answer list \<Rightarrow> 'c Server \<Rightarrow> 'c Server option" where
  "accept_loop P [] S = Some (S\<lparr>accept_answers := []\<rparr>)"
| "accept_loop P (AcceptAgain # as) S = Some (S\<lparr>accept_answers := as\<rparr>)"
| "accept_loop P (AcceptEintr # as) S = accept_loop P as S"
| "accept_loop P (AcceptError # as) S = Some (S\<lparr>accept_answers := as\<rparr>)"
| "accept_loop P (Accepted f # as) S =
     (if f < 0 \<or> fd_open (kern (srv_env S)) f then accept_loop P as S
      else Option.bind (accepted P f (srv_kernel (fd_appears f) S)) (accept_loop P as))"

definition on_listen :: "'c Setup \<Rightarrow> u32 \<Rightarrow> 'c Server \<Rightarrow> 'c Server option" where
  "on_listen P events S =
     (if events AND EPOLLIN = 0 then Some S else accept_loop P (accept_answers S) S)"

section \<open>Pending connections\<close>

fun pending_index :: "fd \<Rightarrow> PendingHandshake list \<Rightarrow> nat option" where
  "pending_index f [] = None"
| "pending_index f (ph # phs) = (if ph_fd ph = f then Some 0 else map_option Suc (pending_index f phs))"

definition erase_at :: "nat \<Rightarrow> 'a list \<Rightarrow> 'a list" where
  "erase_at i xs = take i xs @ drop (Suc i) xs"

definition pending_handler :: "'c Setup \<Rightarrow> fd \<Rightarrow> u32 \<Rightarrow> 'c Server \<Rightarrow> 'c Server option" where
  "pending_handler P f events S =
     (case (if events AND EPOLLIN = 0 then None else pending_index f (pending_handshakes S)) of
        None \<Rightarrow> Some S
      | Some idx \<Rightarrow>
          (let ph = pending_handshakes S ! idx;
               erase = (\<lambda>S. S\<lparr>pending_handshakes := erase_at idx (pending_handshakes S)\<rparr>)
           in case sys_read f (9 - ph_got ph) (srv_env S) of
                (ReadData bs, E) \<Rightarrow>
                  (let ph = ph\<lparr>ph_buf := write_at (ph_got ph) bs (ph_buf ph), ph_got := ph_got ph + length bs\<rparr>;
                       S = S\<lparr>srv_env := E, pending_handshakes := (pending_handshakes S)[idx := ph]\<rparr>
                   in if ph_got ph = 9 then map_option erase (finish_handshake P f (ph_buf ph) S) else Some S)
              | (ReadAgain, E) \<Rightarrow> Some (S\<lparr>srv_env := E\<rparr>)
              | (_, E) \<Rightarrow> Some (erase (srv_kernel (del_fd f) (S\<lparr>srv_env := env_close f E\<rparr>)))))"

text \<open>The loop of \<open>check_handshake_timeout\<close>: the pending connections it has passed and those ahead.\<close>

fun expire_pending ::
  "'c Setup \<Rightarrow> PendingHandshake list \<Rightarrow> PendingHandshake list \<Rightarrow> 'c Server \<Rightarrow> 'c Server option" where
  "expire_pending P passed [] S = Some (S\<lparr>pending_handshakes := rev passed\<rparr>)"
| "expire_pending P passed (ph # phs) S =
     (let elapsed = clock (srv_env S) - accepted_at ph
      in if 0 < ph_got ph \<and> elapsed > HANDSHAKE_TIMEOUT_MS
         then expire_pending P passed phs (srv_kernel (del_fd (ph_fd ph)) (srv_upd_env (env_close (ph_fd ph)) S))
         else if ph_got ph = 0 \<and> elapsed > HANDSHAKE_SHORT_TIMEOUT_MS
         then Option.bind (finish_handshake P (ph_fd ph) [] (srv_kernel (del_fd (ph_fd ph)) S))
                (expire_pending P passed phs)
         else expire_pending P (ph # passed) phs S)"

definition check_handshake_timeout :: "'c Setup \<Rightarrow> 'c Server \<Rightarrow> 'c Server option" where
  "check_handshake_timeout P S = expire_pending P [] (pending_handshakes S) S"

section \<open>The tick, the event loop, start and stop\<close>

fun tick_sessions :: "'c Setup \<Rightarrow> u64 list \<Rightarrow> 'c Server \<Rightarrow> 'c Server option" where
  "tick_sessions P [] S = Some S"
| "tick_sessions P (sid # sids) S = do {
     S \<leftarrow> with_session P sid (\<lambda>P (c, w). map_option (\<lambda>w. (c, w))
            (Option.bind (process_pending_io w) (check_heartbeat P))) S;
     tick_sessions P sids S
   }"

definition server_tick :: "'c Setup \<Rightarrow> 'c Server \<Rightarrow> 'c Server option" where
  "server_tick P S = do {
     S \<leftarrow> check_handshake_timeout P S;
     tick_sessions P (map fst (sessions S)) S
   }"

fun server_call :: "'c Setup \<Rightarrow> session_handler \<Rightarrow> fd \<Rightarrow> u32 \<Rightarrow> 'c Server \<Rightarrow> 'c Server option" where
  "server_call P HListen f e S = on_listen P e S"
| "server_call P HPending f e S = pending_handler P f e S"
| "server_call P (HOf sid h) f e S = with_session P sid (\<lambda>P. session_call P h f e) S"
| "server_call P _ f e S = Some S"

text \<open>
  \<open>Server::start\<close>: \<open>sock\<close> is the answer of \<open>socket\<close>, \<open>bind_ok\<close> and \<open>listen_ok\<close> those of \<open>bind\<close> and
  \<open>listen\<close>.  The first component of the result tells whether the event loop has ended.
\<close>

definition server_open :: "fd \<Rightarrow> bool \<Rightarrow> bool \<Rightarrow> 'c Server \<Rightarrow> bool \<times> 'c Server" where
  "server_open sock bind_ok listen_ok S =
     (let S = S\<lparr>listen_fd := sock\<rparr>
      in if sock < 0 then (False, S)
         else let S = srv_kernel (fd_appears sock) S
         in if \<not> bind_ok \<or> \<not> listen_ok then (False, srv_upd_env (env_close sock) S)
         else (True, srv_kernel (add_fd_handler sock HListen EPOLLIN) S))"

definition server_loop :: "'c Setup \<Rightarrow> wait_answer list \<Rightarrow> 'c Server \<Rightarrow> (bool \<times> 'c Server) option" where
  "server_loop P answers S =
     kernel_start (\<lambda>S. kern (srv_env S)) (\<lambda>K. srv_kernel (\<lambda>_. K)) (server_call P) (server_tick P) answers S"

definition server_stop :: "'c Server \<Rightarrow> 'c Server" where
  "server_stop S =
     (let S = (if 0 \<le> listen_fd S then (srv_upd_env (env_close (listen_fd S)) S)\<lparr>listen_fd := -1\<rparr> else S);
          S = fold (\<lambda>ph S. srv_upd_env (env_close (ph_fd ph)) (srv_kernel (del_fd (ph_fd ph)) S))
                (pending_handshakes S) S
      in srv_kernel kernel_stop (S\<lparr>pending_handshakes := []\<rparr>))"

text \<open>The last reference to a session goes away, and its destructor runs.\<close>

definition refers_to :: "u64 \<Rightarrow> session_handler option \<Rightarrow> bool" where
  "refers_to sid cb = (case cb of Some (HOf i _) \<Rightarrow> i = sid | _ \<Rightarrow> False)"

definition unreferenced :: "u64 \<Rightarrow> 'c Server \<Rightarrow> bool" where
  "unreferenced sid S \<longleftrightarrow>
     (case map_of (sessions S) sid of None \<Rightarrow> False | Some d \<Rightarrow> \<not> kept_alive (snd (snd d)))
     \<and> (\<forall>f s. fd_to_handler (kern (srv_env S)) f = Some s \<longrightarrow>
          \<not> refers_to sid (in_cb s) \<and> \<not> refers_to sid (out_cb s))"

definition session_reaped :: "u64 \<Rightarrow> 'c Server \<Rightarrow> 'c Server" where
  "session_reaped sid S =
     (case map_of (sessions S) sid of
        None \<Rightarrow> S
      | Some (c, chain, s) \<Rightarrow>
          (take_back sid (c, chain, session_destroy (lend sid S s)) S)\<lparr>sessions := al_erase sid (sessions S)\<rparr>)"

end
