(* ===== verification/Server_Props.thy ===== *)
theory Server_Props
  imports Server Session_Conn
begin

unbundle bit_operations_syntax

text \<open>
  Properties of the server: the greeting and its buffer, the time limits, and what happens to a session
  whose client leaves during the authentication.
\<close>

section \<open>What does not touch the pending connections\<close>

abbreviation set_pending :: "PendingHandshake list \<Rightarrow> 'c Server \<Rightarrow> 'c Server" where
  "set_pending phs S \<equiv> S\<lparr>pending_handshakes := phs\<rparr>"

named_theorems frame_pending

lemma srv_upd_env_pending [frame_pending]:
  "srv_upd_env g (set_pending phs S) = set_pending phs (srv_upd_env g S)"
  by (simp add: srv_upd_env_def)

lemma srv_kernel_pending [frame_pending]: "srv_kernel g (set_pending phs S) = set_pending phs (srv_kernel g S)"
  by (simp add: srv_kernel_def frame_pending)

lemma take_back_pending [frame_pending]:
  "take_back sid d (set_pending phs S) = set_pending phs (take_back sid d S)"
  by (simp add: take_back_def Let_def)

lemma lend_pending [frame_pending]: "lend sid (set_pending phs S) s = lend sid S s"
  by (simp add: lend_def)

lemma resumable_pending [frame_pending]: "resumable (set_pending phs S) = resumable S"
  by (simp add: resumable_def fun_eq_iff)

lemma carry_out_pending [frame_pending]:
  "carry_out ts (set_pending phs S) = map_option (set_pending phs) (carry_out ts S)"
proof (induction ts arbitrary: S)
  case (Cons t ts)
  obtain sid f where t: "t = (sid, f)" by (cases t)
  show ?case
  proof (cases "map_of (sessions S) sid")
    case (Some d)
    obtain c chain s where "d = (c, chain, s)" by (cases d)
    then show ?thesis using Some Cons by (cases "reconnect f (lend sid S s)") (auto simp: t frame_pending)
  qed (use Cons in \<open>simp add: t\<close>)
qed simp

lemma with_session_pending [frame_pending]:
  "with_session P sid g (set_pending phs S) = map_option (set_pending phs) (with_session P sid g S)"
  by (auto simp: with_session_def frame_pending map_option_bind comp_def split: option.splits
      intro!: arg_cong2 [where f = Option.bind])

lemma register_session_pending [frame_pending]:
  "register_session f (set_pending phs S) = set_pending phs (register_session f S)"
  by (simp add: register_session_def new_session_id_def Let_def)

lemma new_session_pending [frame_pending]:
  "new_session P f data (set_pending phs S) = map_option (set_pending phs) (new_session P f data S)"
proof -
  have "new_session_id (set_pending phs S) = new_session_id S" "new_challenge (set_pending phs S) = new_challenge S"
    by (simp_all add: new_session_id_def new_challenge_def)
  then show ?thesis
    by (simp add: new_session_def frame_pending option.map_comp comp_def)
qed

lemma finish_handshake_pending [frame_pending]:
  "finish_handshake P f buf (set_pending phs S) = map_option (set_pending phs) (finish_handshake P f buf S)"
proof (cases "length buf = 9 \<and> map_of (sessions S) (u64_of_bytes buf) \<noteq> None")
  case True
  then show ?thesis by (simp add: finish_handshake_def frame_pending)
next
  case False
  then have "\<not> (length buf = 9 \<and> map_of (sessions (set_pending phs S)) (u64_of_bytes buf) \<noteq> None)" by simp
  then show ?thesis using False unfolding finish_handshake_def Let_def by (simp only: if_False frame_pending)
qed

lemma finish_handshake_keeps:
  assumes "finish_handshake P f buf S = Some S'"
  shows "pending_handshakes S' = pending_handshakes S"
  using assms finish_handshake_pending [of P f buf "pending_handshakes S" S] by (auto dest: arg_cong [where f = pending_handshakes])

section \<open>Well-formed servers\<close>

definition pending_ok :: "PendingHandshake \<Rightarrow> bool" where
  "pending_ok ph \<longleftrightarrow> ph_got ph < 9 \<and> length (ph_buf ph) = 9"

definition shared_form :: "session_handler option \<Rightarrow> bool" where
  "shared_form cb = (case cb of Some h \<Rightarrow> (\<exists>sid. shared_cb sid h = h) | None \<Rightarrow> True)"

definition table_shared :: "session_handler Kernel \<Rightarrow> bool" where
  "table_shared K \<longleftrightarrow> (\<forall>f s. fd_to_handler K f = Some s \<longrightarrow> shared_form (in_cb s) \<and> shared_form (out_cb s))"

definition server_wf :: "'c Server \<Rightarrow> bool" where
  "server_wf S \<longleftrightarrow> list_all pending_ok (pending_handshakes S) \<and> distinct (map fst (sessions S))
     \<and> table_shared (kern (srv_env S))"

lemma sys_read_data:
  assumes "sys_read f n E = (ReadData bs, E')" and "0 < n"
  shows "bs \<noteq> []" and "length bs \<le> n" and "kern E' = kern E"
  using assms by (auto simp: sys_read_def split: list.splits rd_answer.splits if_splits)

lemma sys_read_kern [simp]: "kern (snd (sys_read f n E)) = kern E" "clock (snd (sys_read f n E)) = clock E"
  "osys (snd (sys_read f n E)) = osys E"
  by (simp_all add: sys_read_def split: list.splits rd_answer.splits)

lemma keys_al_put: "set (map fst (al_put k v xs)) = insert k (set (map fst xs))"
proof (induction xs)
  case (Cons x xs)
  then show ?case by (cases x) (simp add: insert_commute)
qed simp

lemma distinct_al_put: "distinct (map fst xs) \<Longrightarrow> distinct (map fst (al_put k v xs))"
proof (induction xs)
  case (Cons x xs)
  then show ?case using keys_al_put [of k v xs] by (cases x) auto
qed simp

lemma distinct_al_erase: "distinct (map fst xs) \<Longrightarrow> distinct (map fst (al_erase k xs))"
  unfolding al_erase_def by (rule distinct_map_filter)

lemma shared_form_cb [simp]: "shared_form (map_option (shared_cb sid) cb)"
proof (cases cb)
  case (Some h)
  have "shared_cb sid (shared_cb sid h) = shared_cb sid h" by (cases h) simp_all
  then show ?thesis using Some by (auto simp: shared_form_def)
qed (simp add: shared_form_def)

lemma table_shared_map [simp]: "table_shared (map_table (shared_cb sid) K)"
  by (auto simp: table_shared_def map_table_def)

lemma table_shared_eq: "fd_to_handler K' = fd_to_handler K \<Longrightarrow> table_shared K \<Longrightarrow> table_shared K'"
  by (simp add: table_shared_def)

lemma table_shared_add:
  assumes "table_shared K" and "shared_form (Some h)"
  shows "table_shared (add_fd_handler f h e K)"
  using assms
  by (auto simp: table_shared_def add_fd_handler_table fd_state_empty_def shared_form_def Let_def split: option.splits)

lemma table_shared_del: "table_shared K \<Longrightarrow> table_shared (del_fd f K)"
  by (auto simp: table_shared_def del_fd_def epoll_del_def Let_def)

lemma table_shared_closed: "table_shared K \<Longrightarrow> table_shared (fd_closed f K)"
  by (auto simp: table_shared_def fd_closed_def)

lemma shared_forms [simp]: "shared_form (Some HListen)" "shared_form (Some HPending)" "shared_form (Some (HOf i h))"
  by (simp_all add: shared_form_def)

named_theorems wf_intros

lemma take_back_wf [wf_intros]: "server_wf S \<Longrightarrow> server_wf (take_back sid d S)"
  by (simp add: server_wf_def take_back_def upd_kern_def distinct_al_put Let_def)

lemma wf_kernel_add [wf_intros]:
  "server_wf S \<Longrightarrow> shared_form (Some h) \<Longrightarrow> server_wf (srv_kernel (add_fd_handler f h e) S)"
  by (simp add: server_wf_def srv_kernel_def srv_upd_env_def upd_kern_def table_shared_add)

lemma wf_kernel_del [wf_intros]: "server_wf S \<Longrightarrow> server_wf (srv_kernel (del_fd f) S)"
  by (simp add: server_wf_def srv_kernel_def srv_upd_env_def upd_kern_def table_shared_del)

lemma wf_close [wf_intros]: "server_wf S \<Longrightarrow> server_wf (srv_upd_env (env_close f) S)"
  by (simp add: server_wf_def srv_upd_env_def env_close_def table_shared_closed)

lemma wf_table [wf_intros]:
  "server_wf S \<Longrightarrow> fd_to_handler (kern E) = fd_to_handler (kern (srv_env S)) \<Longrightarrow> server_wf (S\<lparr>srv_env := E\<rparr>)"
  using table_shared_eq by (auto simp: server_wf_def)

lemma wf_appears [wf_intros]: "server_wf S \<Longrightarrow> server_wf (srv_kernel (fd_appears f) S)"
  unfolding srv_kernel_def srv_upd_env_def by (rule wf_table) (simp_all add: upd_kern_def fd_appears_def)

lemma wf_pending [wf_intros]: "server_wf S \<Longrightarrow> list_all pending_ok phs \<Longrightarrow> server_wf (set_pending phs S)"
  by (simp add: server_wf_def)

lemma wf_members [wf_intros]:
  "server_wf S \<Longrightarrow> server_wf (S\<lparr>accept_answers := a\<rparr>)" "server_wf S \<Longrightarrow> server_wf (S\<lparr>listen_fd := f\<rparr>)"
  by (simp_all add: server_wf_def)

lemma carry_out_wf: "carry_out ts S = Some S' \<Longrightarrow> server_wf S \<Longrightarrow> server_wf S'"
proof (induction ts arbitrary: S)
  case (Cons t ts)
  obtain sid f where t: "t = (sid, f)" by (cases t)
  show ?case
    using Cons by (auto simp: t split: option.splits bind_splits intro: Cons.IH [OF _ take_back_wf])
qed simp

lemma with_session_wf: "with_session P sid g S = Some S' \<Longrightarrow> server_wf S \<Longrightarrow> server_wf S'"
  by (auto simp: with_session_def split: option.splits bind_splits intro: carry_out_wf [OF _ take_back_wf])

lemma finish_handshake_wf:
  assumes "finish_handshake P f buf S = Some S'" and "server_wf S"
  shows "server_wf S'"
proof -
  have "server_wf (register_session f S)"
    using assms(2) by (simp add: server_wf_def register_session_def distinct_al_put Let_def)
  then show ?thesis
    using assms with_session_wf
    by (auto simp: finish_handshake_def new_session_def Let_def split: if_splits intro!: wf_intros)
qed

lemma write_at_length: "off + length bs \<le> length buf \<Longrightarrow> length (write_at off bs buf) = length buf"
  by (simp add: write_at_def)

lemma push_pending_wf:
  assumes "server_wf S" and "length data < 9"
  shows "server_wf (push_pending f data S)"
  unfolding push_pending_def
  using assms by (intro wf_intros) (auto simp: server_wf_def pending_ok_def write_at_length)

lemma accepted_wf:
  assumes "accepted P f S = Some S'" and "server_wf S"
  shows "server_wf S'"
proof -
  obtain a E where r: "sys_read f 9 (srv_env S) = (a, E)" by (cases "sys_read f 9 (srv_env S)")
  have k: "kern E = kern (srv_env S)" using sys_read_kern(1) [of f 9 "srv_env S"] by (simp add: r)
  have wf: "server_wf (S\<lparr>srv_env := E\<rparr>)" using assms(2) k by (intro wf_table) simp_all
  show ?thesis
  proof (cases a)
    case (ReadData hdr)
    then show ?thesis
      using assms(1) r wf finish_handshake_wf push_pending_wf
      by (auto simp: accepted_def Let_def split: if_splits)
  next
    case ReadAgain
    then show ?thesis using assms(1) r push_pending_wf [OF wf, of "[]" f] by (auto simp: accepted_def)
  qed (use assms(1) r wf_close [OF wf, of f] in \<open>auto simp: accepted_def srv_upd_env_def\<close>)
qed

lemma accept_loop_wf: "accept_loop P as S = Some S' \<Longrightarrow> server_wf S \<Longrightarrow> server_wf S'"
proof (induction P as S rule: accept_loop.induct)
  case (5 P f as S)
  then show ?case
    by (auto split: if_splits bind_splits intro: accepted_wf wf_intros)
qed (auto intro: wf_intros)

lemma pending_index_less: "pending_index f phs = Some i \<Longrightarrow> i < length phs"
  by (induction phs arbitrary: i) (auto split: if_splits)

lemma list_all_erase_at: "list_all q xs \<Longrightarrow> list_all q (erase_at i xs)"
  by (auto simp: erase_at_def list_all_iff dest: in_set_takeD in_set_dropD)

lemma list_all_update: "list_all q xs \<Longrightarrow> q x \<Longrightarrow> list_all q (xs[i := x])"
  by (auto simp: list_all_iff dest!: set_update_subset_insert [THEN subsetD])

lemma pending_handler_wf:
  assumes "pending_handler P f e S = Some S'" and wf: "server_wf S"
  shows "server_wf S'"
proof (cases "if e AND EPOLLIN = 0 then None else pending_index f (pending_handshakes S)")
  case None
  then show ?thesis using assms by (simp add: pending_handler_def)
next
  case (Some idx)
  let ?ph = "pending_handshakes S ! idx"
  have ok: "list_all pending_ok (pending_handshakes S)" using wf by (simp add: server_wf_def)
  have "idx < length (pending_handshakes S)" using Some by (auto dest: pending_index_less split: if_splits)
  then have ph: "pending_ok ?ph" using ok by (simp add: list_all_length)
  obtain a E where r: "sys_read f (9 - ph_got ?ph) (srv_env S) = (a, E)"
    by (cases "sys_read f (9 - ph_got ?ph) (srv_env S)")
  have k: "kern E = kern (srv_env S)" using sys_read_kern(1) [of f "9 - ph_got ?ph" "srv_env S"] by (simp add: r)
  have wfE: "server_wf (S\<lparr>srv_env := E\<rparr>)" using wf k by (intro wf_table) simp_all
  show ?thesis
  proof (cases a)
    case (ReadData bs)
    let ?new = "?ph\<lparr>ph_buf := write_at (ph_got ?ph) bs (ph_buf ?ph), ph_got := ph_got ?ph + length bs\<rparr>"
    let ?S = "S\<lparr>srv_env := E, pending_handshakes := (pending_handshakes S)[idx := ?new]\<rparr>"
    have len: "length bs \<le> 9 - ph_got ?ph"
      using sys_read_data [of f "9 - ph_got ?ph" "srv_env S" bs E] r ReadData ph by (simp add: pending_ok_def)
    show ?thesis
    proof (cases "ph_got ?ph + length bs = 9")
      case True
      then obtain S1 where S1: "finish_handshake P f (ph_buf ?new) ?S = Some S1"
        and S': "S' = set_pending (erase_at idx (pending_handshakes S1)) S1"
        using assms(1) Some r ReadData by (auto simp: pending_handler_def Let_def)
      have "finish_handshake P f (ph_buf ?new) (S\<lparr>srv_env := E\<rparr>)
          = map_option (set_pending (pending_handshakes S)) (finish_handshake P f (ph_buf ?new) ?S)"
        by (subst finish_handshake_pending [symmetric]) simp
      then have "server_wf (set_pending (pending_handshakes S) S1)"
        using S1 wfE by (auto intro: finish_handshake_wf)
      moreover have "pending_handshakes S1 = (pending_handshakes S)[idx := ?new]"
        using finish_handshake_keeps [OF S1] by simp
      moreover have "erase_at idx ((pending_handshakes S)[idx := ?new]) = erase_at idx (pending_handshakes S)"
        by (simp add: erase_at_def)
      ultimately show ?thesis
        using ok unfolding S' by (simp add: server_wf_def list_all_erase_at)
    next
      case False
      then have "pending_ok ?new" using len ph by (auto simp: pending_ok_def write_at_length)
      moreover have "S' = ?S" using False assms(1) Some r ReadData by (simp add: pending_handler_def Let_def)
      moreover have "?S = set_pending ((pending_handshakes S)[idx := ?new]) (S\<lparr>srv_env := E\<rparr>)" by simp
      ultimately show ?thesis using wfE ok by (simp add: server_wf_def list_all_update)
    qed
  next
    case ReadAgain
    then show ?thesis using assms(1) Some r wfE by (simp add: pending_handler_def)
  qed (use assms(1) Some r wf_kernel_del [OF wf_close [OF wfE, of f], of f] ok
      in \<open>auto simp: pending_handler_def srv_kernel_def srv_upd_env_def Let_def server_wf_def list_all_erase_at\<close>)
qed

lemma expire_pending_wf:
  "expire_pending P passed phs S = Some S' \<Longrightarrow> server_wf S \<Longrightarrow> list_all pending_ok passed \<Longrightarrow> list_all pending_ok phs
   \<Longrightarrow> server_wf S'"
proof (induction P passed phs S rule: expire_pending.induct)
  case (2 P passed ph phs S)
  then show ?case
    by (auto simp: Let_def split: if_splits bind_splits intro: wf_intros finish_handshake_wf [OF _ wf_kernel_del])
qed (auto simp: server_wf_def list_all_rev)

lemma tick_sessions_wf: "tick_sessions P sids S = Some S' \<Longrightarrow> server_wf S \<Longrightarrow> server_wf S'"
proof (induction sids arbitrary: S)
  case (Cons sid sids)
  then obtain S1 where "with_session P sid (\<lambda>P (c, w). map_option (\<lambda>w. (c, w))
      (Option.bind (process_pending_io w) (check_heartbeat P))) S = Some S1" "tick_sessions P sids S1 = Some S'"
    by (auto split: bind_splits)
  then show ?case using Cons with_session_wf by blast
qed simp

lemma server_tick_wf: "server_tick P S = Some S' \<Longrightarrow> server_wf S \<Longrightarrow> server_wf S'"
proof -
  assume "server_tick P S = Some S'" and wf: "server_wf S"
  then obtain S1 where S1: "expire_pending P [] (pending_handshakes S) S = Some S1"
    and t: "tick_sessions P (map fst (sessions S1)) S1 = Some S'"
    by (auto simp: server_tick_def check_handshake_timeout_def split: bind_splits)
  from expire_pending_wf [OF S1 wf] wf have "server_wf S1" by (simp add: server_wf_def)
  then show ?thesis by (rule tick_sessions_wf [OF t])
qed

lemma server_call_wf: "server_call P h f e S = Some S' \<Longrightarrow> server_wf S \<Longrightarrow> server_wf S'"
  by (cases h) (auto simp: on_listen_def split: if_splits intro: accept_loop_wf pending_handler_wf with_session_wf)

lemma fold_pending_wf:
  "server_wf S \<Longrightarrow> server_wf (fold (\<lambda>ph S. srv_upd_env (env_close (ph_fd ph)) (srv_kernel (del_fd (ph_fd ph)) S)) phs S)"
proof (induction phs arbitrary: S)
  case (Cons ph phs)
  from Cons.IH [OF wf_close [OF wf_kernel_del [OF Cons.prems]]] show ?case by simp
qed simp

lemma server_stop_wf:
  assumes "server_wf S"
  shows "server_wf (server_stop S)"
proof -
  let ?S = "if 0 \<le> listen_fd S then (srv_upd_env (env_close (listen_fd S)) S)\<lparr>listen_fd := -1\<rparr> else S"
  have "server_wf ?S" using assms by (auto intro: wf_intros)
  from wf_pending [OF fold_pending_wf [OF this, of "pending_handshakes ?S"], of "[]"]
  have "server_wf (set_pending [] (fold (\<lambda>ph S. srv_upd_env (env_close (ph_fd ph)) (srv_kernel (del_fd (ph_fd ph)) S))
      (pending_handshakes ?S) ?S))" by simp
  then show ?thesis
    unfolding server_stop_def Let_def srv_kernel_def [of kernel_stop] srv_upd_env_def [of "upd_kern kernel_stop"]
    by (rule wf_table) (simp add: upd_kern_def kernel_stop_def)
qed

lemma server_open_wf: "server_wf S \<Longrightarrow> server_wf (snd (server_open sock b l S))"
  by (auto simp: server_open_def Let_def intro!: wf_intros)

lemma session_reaped_wf: "server_wf S \<Longrightarrow> server_wf (session_reaped sid S)"
  by (auto simp: session_reaped_def take_back_def upd_kern_def server_wf_def distinct_al_erase Let_def split: option.splits)

text \<open>
  Everything that can happen to a server: its callbacks and ticks in any order, sessions dying, and the
  world around it moving on (time, new input, other answers of the system calls).
\<close>

inductive server_reach :: "'c Setup \<Rightarrow> 'c Server \<Rightarrow> bool" for P where
  init: "server_reach P (server_new pw hb env_new)"
| opened: "server_reach P S \<Longrightarrow> server_reach P (snd (server_open sock bind_ok listen_ok S))"
| world: "server_reach P S \<Longrightarrow> kern E = kern (srv_env S) \<Longrightarrow>
    server_reach P (S\<lparr>srv_env := E, accept_answers := as, srv_rands := rs, srv_time := t\<rparr>)"
| call: "server_reach P S \<Longrightarrow> server_call P h f e S = Some S' \<Longrightarrow> server_reach P S'"
| tick: "server_reach P S \<Longrightarrow> server_tick P S = Some S' \<Longrightarrow> server_reach P S'"
| reaped: "server_reach P S \<Longrightarrow> unreferenced sid S \<Longrightarrow> server_reach P (session_reaped sid S)"
| stopped: "server_reach P S \<Longrightarrow> server_reach P (server_stop S)"

lemma server_reach_wf: "server_reach P S \<Longrightarrow> server_wf S"
proof (induction rule: server_reach.induct)
  case (init pw hb)
  then show ?case by (simp add: server_wf_def server_new_def env_new_def kernel_new_def table_shared_def)
next
  case (world S E as rs t)
  have "server_wf (S\<lparr>srv_env := E\<rparr>)" using world by (intro wf_table) simp_all
  then show ?case by (simp add: server_wf_def)
qed (auto intro: server_call_wf server_tick_wf server_stop_wf server_open_wf session_reaped_wf)

section \<open>The greeting in pieces\<close>

text \<open>The next bytes of descriptor \<open>f\<close>, and none.\<close>

definition arrives :: "fd \<Rightarrow> bytes \<Rightarrow> 'c Server \<Rightarrow> 'c Server" where
  "arrives f bs S = srv_upd_env (\<lambda>E. E\<lparr>rd_answers := (rd_answers E)(f := [ReadData bs])\<rparr>) S"

definition silent :: "fd \<Rightarrow> 'c Server \<Rightarrow> 'c Server" where
  "silent f S = srv_upd_env (\<lambda>E. E\<lparr>rd_answers := (rd_answers E)(f := [])\<rparr>) S"

fun greeting_pieces :: "'c Setup \<Rightarrow> fd \<Rightarrow> bytes list \<Rightarrow> 'c Server \<Rightarrow> 'c Server option" where
  "greeting_pieces P f [] S = Some S"
| "greeting_pieces P f (p # ps) S =
     Option.bind (pending_handler P f EPOLLIN (arrives f p S)) (greeting_pieces P f ps)"

lemma write_at_0: "write_at 0 bs (replicate 9 0) = bs @ replicate (9 - length bs) 0"
  by (simp add: write_at_def)

lemma pending_index_last:
  "pending_index f phs = None \<Longrightarrow> ph_fd ph = f \<Longrightarrow> pending_index f (phs @ [ph]) = Some (length phs)"
  by (induction phs) (auto split: if_splits)

lemma erase_at_last [simp]: "erase_at (length xs) (xs @ [x]) = xs"
  by (simp add: erase_at_def)

lemma push_pending_eq:
  "push_pending f bs (silent f S) = set_pending (pending_handshakes S @
     [\<lparr>ph_fd = f, ph_buf = bs @ replicate (9 - length bs) 0, ph_got = length bs, accepted_at = clock (srv_env S)\<rparr>])
     (srv_kernel (add_fd_handler f HPending EPOLLIN) (silent f S))"
  by (simp add: push_pending_def frame_pending silent_def srv_upd_env_def write_at_0)

lemma pending_handler_piece:
  assumes "pending_index f (pending_handshakes S) = None" and "q \<noteq> []" and "length (bs @ q) \<le> 9"
  shows "pending_handler P f EPOLLIN (arrives f q (push_pending f bs (silent f S)))
    = (if length (bs @ q) = 9
       then finish_handshake P f (bs @ q) (srv_kernel (add_fd_handler f HPending EPOLLIN) (silent f S))
       else Some (push_pending f (bs @ q) (silent f S)))"
proof -
  let ?K = "srv_kernel (add_fd_handler f HPending EPOLLIN) (silent f S)"
  let ?ph = "\<lambda>bs. \<lparr>ph_fd = f, ph_buf = bs @ replicate (9 - length bs) 0, ph_got = length bs, accepted_at = clock (srv_env S)\<rparr>"
  let ?S = "arrives f q (push_pending f bs (silent f S))"
  have ps: "pending_handshakes ?S = pending_handshakes S @ [?ph bs]"
    unfolding push_pending_eq by (simp add: arrives_def srv_upd_env_def)
  then have idx: "pending_index f (pending_handshakes ?S) = Some (length (pending_handshakes S))"
    using pending_index_last [OF assms(1), of "?ph bs"] by simp
  have rd: "sys_read f (9 - length bs) (srv_env ?S) = (ReadData q, srv_env ?K)"
    using assms(2,3) unfolding push_pending_eq
    by (auto simp: arrives_def silent_def srv_kernel_def srv_upd_env_def upd_kern_def sys_read_def)
  have wr: "write_at (length bs) q (bs @ replicate (9 - length bs) 0) = (bs @ q) @ replicate (9 - length (bs @ q)) 0"
    by (simp add: write_at_def)
  have eq: "?S\<lparr>srv_env := srv_env ?K, pending_handshakes := x\<rparr> = set_pending x ?K" for x
    unfolding push_pending_eq by (simp add: arrives_def silent_def srv_kernel_def srv_upd_env_def)
  have fin: "finish_handshake P f (bs @ q) (set_pending x ?K)
      = map_option (set_pending x) (finish_handshake P f (bs @ q) ?K)" for x
    by (rule finish_handshake_pending)
  have keep: "map_option (\<lambda>T. set_pending (pending_handshakes S) T) (finish_handshake P f (bs @ q) ?K)
      = finish_handshake P f (bs @ q) ?K"
    using finish_handshake_pending [of P f "bs @ q" "pending_handshakes S" ?K]
    by (simp add: silent_def srv_kernel_def srv_upd_env_def)
  show ?thesis
  proof (cases "length (bs @ q) = 9")
    case True
    then have "pending_handler P f EPOLLIN ?S = map_option (set_pending (pending_handshakes S)) (finish_handshake P f (bs @ q) ?K)"
      unfolding pending_handler_def using idx ps rd wr by (simp add: Let_def eq fin option.map_comp comp_def)
    then show ?thesis using True keep by simp
  next
    case False
    then have "pending_handler P f EPOLLIN ?S = Some (set_pending (pending_handshakes S @ [?ph (bs @ q)]) ?K)"
      unfolding pending_handler_def using idx ps rd wr by (simp add: Let_def eq)
    then show ?thesis using False unfolding push_pending_eq [of f "bs @ q"] by simp
  qed
qed

lemma greeting_pieces_run:
  assumes "pending_index f (pending_handshakes S) = None" and "ps \<noteq> []" and "\<forall>p\<in>set ps. p \<noteq> []"
    and "length (bs @ concat ps) = 9"
  shows "greeting_pieces P f ps (push_pending f bs (silent f S))
    = finish_handshake P f (bs @ concat ps) (srv_kernel (add_fd_handler f HPending EPOLLIN) (silent f S))"
  using assms(2-4)
proof (induction ps arbitrary: bs)
  case (Cons p ps)
  show ?case
  proof (cases "ps = []")
    case True
    moreover have "greeting_pieces P f [] = Some" by (rule ext) simp
    ultimately show ?thesis
      using Cons.prems pending_handler_piece [OF assms(1), of p bs P] by simp
  next
    case False
    then have "length (concat ps) \<noteq> 0" using Cons.prems(2) by (cases ps) auto
    moreover have "length (bs @ p) + length (concat ps) = 9" using Cons.prems(3) by simp
    ultimately have "length (bs @ p) \<noteq> 9" "length (bs @ p) \<le> 9" by linarith+
    then show ?thesis
      using Cons.IH [of "bs @ p"] False Cons.prems pending_handler_piece [OF assms(1), of p bs P] by simp
  qed
qed simp

section \<open>The time limits\<close>

lemma map_table_frame [simp]: "fd_open (map_table g K) = fd_open K"
  by (simp add: map_table_def)

lemma new_session_silent:
  obtains S' where "new_session P f [] S = Some S'" "clock (srv_env S') = clock (srv_env S)"
    "closed_fds (osys (srv_env S')) = closed_fds (osys (srv_env S))" "id_counter S' = id_counter S + 1"
    "pending_handshakes S' = pending_handshakes S"
proof -
  let ?sid = "new_session_id S" and ?ch = "new_challenge S" and ?R = "register_session f S"
  let ?s = "session_new f (srv_password S) (srv_heartbeat S) ?sid (srv_env S)"
  let ?s1 = "send_packet (make_msg MSG_AUTH_CHALLENGE (bytes_of ?ch)) ((lend ?sid ?R ?s)\<lparr>challenge1 := ?ch\<rparr>)"
  let ?S = "srv_kernel (add_fd_handler f (HOf ?sid HClient) EPOLLIN) (take_back ?sid (ctl_new, None, ?s1\<lparr>taken_over := []\<rparr>) ?R)"
  have reg: "map_of (sessions ?R) ?sid = Some (ctl_new, None, ?s)"
    by (simp add: register_session_def Let_def)
  have t: "taken_over ?s1 = []"
    by (simp add: send_packet_def set_os_def upd_env_def lend_def session_new_def)
  then have run: "new_session P f [] S = Some ?S"
    using reg t by (simp add: new_session_def with_session_def greet_client_def in_session_def)
  have cl: "closed_fds (snd (sys_write g data w)) = closed_fds w" for g data w
    by (simp add: sys_write_def Let_def split: list.splits wr_answer.splits)
  show thesis
    by (rule that [OF run])
      (simp_all add: srv_kernel_def srv_upd_env_def upd_kern_def take_back_def send_packet_def set_os_def upd_env_def
        lend_def register_session_def cl Let_def)
qed

text \<open>A pending connection that has waited too long: with a part of its greeting, and without any.\<close>

definition stalled :: "millis \<Rightarrow> PendingHandshake \<Rightarrow> bool" where
  "stalled now ph \<longleftrightarrow> 0 < ph_got ph \<and> now - accepted_at ph > HANDSHAKE_TIMEOUT_MS"

definition mute :: "millis \<Rightarrow> PendingHandshake \<Rightarrow> bool" where
  "mute now ph \<longleftrightarrow> ph_got ph = 0 \<and> now - accepted_at ph > HANDSHAKE_SHORT_TIMEOUT_MS"

lemma expire_pending_exact:
  "\<exists>S'. expire_pending P passed phs S = Some S'
     \<and> pending_handshakes S' = rev passed @ filter (\<lambda>ph. \<not> stalled (clock (srv_env S)) ph \<and> \<not> mute (clock (srv_env S)) ph) phs
     \<and> closed_fds (osys (srv_env S')) = closed_fds (osys (srv_env S)) @ map ph_fd (filter (stalled (clock (srv_env S))) phs)
     \<and> id_counter S' = id_counter S + of_nat (length (filter (mute (clock (srv_env S))) phs))"
proof (induction phs arbitrary: passed S)
  case (Cons ph phs)
  let ?now = "clock (srv_env S)"
  have excl: "\<not> (stalled ?now ph \<and> mute ?now ph)" by (auto simp: stalled_def mute_def)
  consider "stalled ?now ph" | "mute ?now ph" | "\<not> stalled ?now ph" "\<not> mute ?now ph" by blast
  then show ?case
  proof cases
    case 1
    let ?S = "srv_kernel (del_fd (ph_fd ph)) (srv_upd_env (env_close (ph_fd ph)) S)"
    have fr: "clock (srv_env ?S) = ?now" "id_counter ?S = id_counter S"
        "closed_fds (osys (srv_env ?S)) = closed_fds (osys (srv_env S)) @ [ph_fd ph]"
      by (simp_all add: srv_kernel_def srv_upd_env_def upd_kern_def env_close_def sys_close_def)
    have "expire_pending P passed (ph # phs) S = expire_pending P passed phs ?S"
      using 1 by (simp add: stalled_def)
    then show ?thesis using Cons.IH [of passed ?S] 1 excl by (simp add: fr)
  next
    case 2
    let ?S = "srv_kernel (del_fd (ph_fd ph)) S"
    obtain S1 where S1: "new_session P (ph_fd ph) [] ?S = Some S1" "clock (srv_env S1) = ?now"
        "closed_fds (osys (srv_env S1)) = closed_fds (osys (srv_env S))" "id_counter S1 = id_counter S + 1"
      by (rule new_session_silent [of P "ph_fd ph" ?S])
        (simp add: srv_kernel_def srv_upd_env_def upd_kern_def)
    have "expire_pending P passed (ph # phs) S = expire_pending P passed phs S1"
      using 2 S1(1) by (simp add: mute_def finish_handshake_def)
    then show ?thesis using Cons.IH [of passed S1] 2 excl by (simp add: S1(2-4) add.assoc)
  next
    case 3
    then have "expire_pending P passed (ph # phs) S = expire_pending P (ph # passed) phs S"
      by (auto simp: stalled_def mute_def Let_def)
    then show ?thesis using Cons.IH [of "ph # passed" S] 3 by simp
  qed
qed simp

section \<open>Attaching a data connection\<close>

lemma u64_step: "push_bit 8 (drop_bit 8 w) OR ucast (ucast w :: byte) = (w :: u64)"
  by (rule bit_word_eqI) (auto simp: bit_simps)

lemma u64_of_bytes_bytes [simp]: "u64_of_bytes (u64_bytes v @ rest) = v"
proof -
  have "foldr (\<lambda>b acc. push_bit 8 acc OR ucast b) (map (\<lambda>i. ucast (drop_bit (8 * i) v) :: byte) [j..<8]) 0
      = drop_bit (8 * j) v" if "j \<le> 8" for j
    using that
  proof (induction rule: inc_induct)
    case (step j)
    then show ?case
      using u64_step [of "drop_bit (8 * j) v"] by (simp add: upt_conv_Cons add.commute)
  qed (simp add: drop_bit_eq_zero_iff_not_bit_last)
  from this [of 0] show ?thesis by (simp add: u64_of_bytes_def u64_bytes_def)
qed

definition reader :: "Session \<Rightarrow> fd \<Rightarrow> session_handler option" where
  "reader s f = Option.bind (fd_to_handler (kern (env s)) f) in_cb"

lemma reader_frame [simp]:
  "reader (s\<lparr>control_seq := a\<rparr>) f = reader s f" "reader (s\<lparr>control_rr_counter := b\<rparr>) f = reader s f"
  "reader (upd_dc i g s) f = reader s f"
  by (simp_all add: reader_def upd_dc_def)

lemma reader_add_out [simp]: "reader (upd_kernel (add_fd_handler g h EPOLLOUT) s) f = reader s f"
  by (simp add: reader_def sess_upd add_fd_handler_table fd_state_empty_def Let_def split: option.splits)

lemma map_update_keep: "(\<And>x. h (g x) = h x) \<Longrightarrow> map h (xs[i := g (xs ! i)]) = map h xs"
proof (cases "i < length xs")
  case True
  assume "\<And>x. h (g x) = h x"
  then have "map h (xs[i := g (xs ! i)]) = (map h xs)[i := map h xs ! i]" using True by (simp add: map_update)
  then show ?thesis by simp
next
  case False
  then show ?thesis by (simp add: list_update_beyond)
qed

definition keeps_readers :: "(Session \<Rightarrow> Session) \<Rightarrow> bool" where
  "keeps_readers g \<longleftrightarrow> (\<forall>s f. reader (g s) f = reader s f \<and> taken_over (g s) = taken_over s
     \<and> map dc_fd (data_connections (g s)) = map dc_fd (data_connections s))"

lemma register_out_keeps: "keeps_readers (register_data_conn_epollout i g)"
  by (auto simp: keeps_readers_def register_data_conn_epollout_def upd_dc_def upd_kernel_def upd_env_def map_update_keep)
    (simp_all add: reader_def upd_kern_def add_fd_handler_table fd_state_empty_def Let_def split: option.splits)

lemma send_control_on_keeps: "keeps_readers (send_control_on b n is)"
proof (induction "is")
  case (Cons i "is")
  have "keeps_readers (\<lambda>s. upd_dc k (\<lambda>dc. dc\<lparr>dc_writer := write_priority b (dc_writer dc)\<rparr>) s)" for k
    by (auto simp: keeps_readers_def upd_dc_def map_update_keep) (simp_all add: reader_def)
  then show ?case
    using Cons register_out_keeps unfolding keeps_readers_def by (simp add: Let_def)
qed (simp add: keeps_readers_def)

lemma send_control_keeps: "keeps_readers (send_control p)"
  using send_control_on_keeps unfolding keeps_readers_def by (simp add: send_control_def Let_def)

lemma add_data_connection_attaches:
  assumes "unat out < length (data_connections s)" and "0 \<le> f" and "pending_reconnect_targets s = []"
  shows "reader (add_data_connection out f s) f = Some (HDataIn (unat out))"
    and "dc_fd (data_connections (add_data_connection out f s) ! unat out) = f"
    and "taken_over (add_data_connection out f s) = taken_over s"
proof -
  let ?i = "unat out"
  let ?old = "data_connections s ! ?i"
  define s0 where "s0 = (if 0 \<le> dc_fd ?old
      then upd_dc ?i (\<lambda>dc. dc_new\<lparr>unacked := unacked dc, send_seq := send_seq dc, recv_seq := recv_seq dc\<rparr>)
             (upd_env (env_close (dc_fd ?old)) (upd_kernel (del_fd (dc_fd ?old)) s)) else s)"
  define s1 where "s1 = register_data_connection_reader ?i (upd_dc ?i (\<lambda>dc. dc\<lparr>dc_fd := f\<rparr>) s0)"
  have s0: "length (data_connections s0) = length (data_connections s)" "taken_over s0 = taken_over s"
      "pending_reconnect_targets s0 = []"
    using assms(3) by (simp_all add: s0_def sess_upd)
  have s1: "reader s1 f = Some (HDataIn ?i)" "dc_fd (data_connections s1 ! ?i) = f" "taken_over s1 = taken_over s"
      "pending_reconnect_targets s1 = []" "length (data_connections s1) = length (data_connections s)"
    using assms(1,2) s0
    by (simp_all add: s1_def register_data_connection_reader_def sess_upd reader_def add_fd_handler_table Let_def)
  have "process_pending_reconnect_targets s1 = s1"
    using s1(4) by (simp add: process_pending_reconnect_targets_def)
  then have t: "transmit_ready s1 = send_control (make_msg MSG_TRANSMIT_READY []) s1"
    by (simp add: transmit_ready_def)
  have k: "reader (transmit_ready s1) f = reader s1 f" "taken_over (transmit_ready s1) = taken_over s1"
      "map dc_fd (data_connections (transmit_ready s1)) = map dc_fd (data_connections s1)"
    using send_control_keeps [of "make_msg MSG_TRANSMIT_READY []"] unfolding t keeps_readers_def by simp_all
  have d: "dc_fd (data_connections (transmit_ready s1) ! ?i) = dc_fd (data_connections s1 ! ?i)"
    using arg_cong [OF k(3), of "\<lambda>xs. xs ! ?i"] arg_cong [OF k(3), of length] s1(5) assms(1) by simp
  have eq: "add_data_connection out f s = (if all_ready s1 \<and> st s1 = RUNNING then transmit_ready s1 else s1)"
    using assms(1) by (simp add: add_data_connection_def s1_def s0_def Let_def)
  show "reader (add_data_connection out f s) f = Some (HDataIn ?i)"
    and "dc_fd (data_connections (add_data_connection out f s) ! ?i) = f"
    and "taken_over (add_data_connection out f s) = taken_over s"
    unfolding eq using s1 k d by simp_all
qed

lemma lend_frame [simp]:
  "data_connections (lend sid S s) = data_connections s" "taken_over (lend sid S s) = taken_over s"
  "pending_reconnect_targets (lend sid S s) = pending_reconnect_targets s"
  by (simp_all add: lend_def)

lemma take_back_reader:
  "Option.bind (fd_to_handler (kern (srv_env (take_back sid d S))) f) in_cb
     = map_option (shared_cb sid) (reader (snd (snd d)) f)"
  by (cases "fd_to_handler (kern (env (snd (snd d)))) f")
    (simp_all add: take_back_def Let_def upd_kern_def map_table_def reader_def)

lemma greeting_finishes:
  assumes "map_of (sessions S) sid = Some (c, chain, s)" and "unat out < length (data_connections s)" and "0 \<le> f"
    and "pending_reconnect_targets s = []" and "taken_over s = []"
  defines "s' \<equiv> add_data_connection out f (lend sid S s)"
  shows "finish_handshake P f (u64_bytes sid @ [out]) S = Some (take_back sid (c, chain, s'\<lparr>taken_over := []\<rparr>) S)"
proof -
  have len: "length (u64_bytes sid) = 8" by (simp add: u64_bytes_def)
  have "taken_over s' = []" using add_data_connection_attaches(3) [of out "lend sid S s" f] assms by simp
  then show ?thesis
    using assms(1) by (simp add: finish_handshake_def len with_session_def in_session_def nth_append s'_def [symmetric])
qed

section \<open>Losing a connection\<close>

lemma drop_data_conns_fds:
  assumes "\<forall>j<i. dc_fd (data_connections s ! j) < 0" and "drop i (data_connections s) = dcs"
    and "j < length (data_connections s)"
  shows "dc_fd (data_connections (drop_data_conns i dcs s) ! j) < 0"
  using assms
proof (induction dcs arbitrary: i s)
  case (Cons dc dcs)
  let ?s = "if 0 \<le> dc_fd dc
        then upd_dc i (\<lambda>dc. dc\<lparr>dc_fd := -1, dc_writer := wb_clear (dc_writer dc), read_buf := []\<rparr>)
               ((if i \<noteq> 0 then upd_env (env_close (dc_fd dc)) else (\<lambda>s. s)) (upd_kernel (del_fd (dc_fd dc)) s))
        else s"
  have i: "i < length (data_connections s)" using Cons.prems(2) by (cases "i < length (data_connections s)") simp_all
  have dc: "data_connections s ! i = dc" and dcs: "drop (Suc i) (data_connections s) = dcs"
    using Cons.prems(2) i by (simp_all add: Cons_nth_drop_Suc [symmetric])
  have "\<forall>j<i + 1. dc_fd (data_connections ?s ! j) < 0"
    using Cons.prems(1) dc i by (auto simp: sess_upd less_Suc_eq nth_list_update)
  moreover have "drop (i + 1) (data_connections ?s) = dcs" using dcs by (auto simp: sess_upd)
  moreover have "j < length (data_connections ?s)" using Cons.prems(3) by (simp add: sess_upd)
  ultimately have "dc_fd (data_connections (drop_data_conns (i + 1) dcs ?s) ! j) < 0" by (rule Cons.IH)
  then show ?case by simp
next
  case Nil
  then show ?case by (simp add: not_less [symmetric])
qed

lemma on_disconnect_drops:
  assumes "st s = RUNNING" and "\<not> paused s"
  shows "list_all (\<lambda>dc. dc_fd dc < 0) (data_connections (on_disconnect s))"
    and "targets (on_disconnect s) = []" and "paused (on_disconnect s)"
    and "length (data_connections (on_disconnect s)) = length (data_connections s)"
proof -
  let ?s = "close_all_targets (s\<lparr>saved_targets := map (\<lambda>(cid, t). (cid, addr t)) (targets s)\<rparr>)"
  have eq: "on_disconnect s = (drop_data_conns 0 (data_connections ?s) ?s)\<lparr>paused := True\<rparr>"
    using assms by (simp add: on_disconnect_def Let_def)
  show "list_all (\<lambda>dc. dc_fd dc < 0) (data_connections (on_disconnect s))"
    unfolding eq list_all_length using drop_data_conns_fds [of 0 ?s "data_connections ?s"] by (simp add: frame_simps)
  show "targets (on_disconnect s) = []" "paused (on_disconnect s)"
    "length (data_connections (on_disconnect s)) = length (data_connections s)"
    unfolding eq by (simp_all add: frame_simps)
qed

lemma reattach_keeps_primary:
  assumes "unat out \<noteq> 0" and "data_connections s \<noteq> []" and "dc_fd (data_connections s ! 0) < 0"
  shows "dc_fd (data_connections (add_data_connection out f s) ! 0) < 0"
proof (cases "length (data_connections s) \<le> unat out")
  case False
  let ?i = "unat out"
  let ?old = "data_connections s ! ?i"
  define s1 where "s1 = register_data_connection_reader ?i (upd_dc ?i (\<lambda>dc. dc\<lparr>dc_fd := f\<rparr>)
      (if 0 \<le> dc_fd ?old
       then upd_dc ?i (\<lambda>dc. dc_new\<lparr>unacked := unacked dc, send_seq := send_seq dc, recv_seq := recv_seq dc\<rparr>)
             (upd_env (env_close (dc_fd ?old)) (upd_kernel (del_fd (dc_fd ?old)) s)) else s))"
  have p: "dc_fd (data_connections s1 ! 0) < 0" "data_connections s1 \<noteq> []"
    using assms by (auto simp: s1_def register_data_connection_reader_def sess_upd Let_def)
  then have "\<not> all_ready s1" by (cases "data_connections s1") (auto simp: all_ready_def)
  then have "add_data_connection out f s = s1" using False by (simp add: add_data_connection_def s1_def Let_def)
  then show ?thesis using p by simp
qed (use assms in \<open>simp add: add_data_connection_def\<close>)

section \<open>Properties\<close>


lemma fd_open_add [simp]: "fd_open (add_fd_handler f h e K) = fd_open K"
  by (simp add: add_fd_handler_def epoll_add_def epoll_mod_def Let_def)

definition demo_listening :: "unit Server" where
  "demo_listening = (let S = snd (server_open 5 True True (server_new ''pw'' 30000 env_new))
     in S\<lparr>srv_env := (srv_env S)\<lparr>rd_answers := (\<lambda>_. [])(7 := [ReadData [1, 2, 3]])\<rparr>,
          accept_answers := [Accepted 7, AcceptAgain], srv_rands := [], srv_time := 0\<rparr>)"

definition demo_server :: "unit Server" where
  "demo_server = the (server_call demo_setup HListen 5 EPOLLIN demo_listening)"

lemmas demo_defs = on_listen_def demo_listening_def server_open_def server_new_def env_new_def kernel_new_def
  srv_kernel_def srv_upd_env_def upd_kern_def fd_appears_def accepted_def sys_read_def push_pending_def Let_def


text \<open>
  C18: it does not matter how the network cuts the nine bytes of a greeting.  Read in any number of pieces,
  the first when the connection is accepted and the others by the pending handler, they end in the same call of
  \<open>finish_handshake\<close> as read at once; the only difference is that the pending handler has been
  registered for the descriptor meanwhile.
\<close>

theorem greeting_any_cut:
  assumes "pending_index f (pending_handshakes S) = None" and "p \<noteq> []" and "ps \<noteq> []" and "\<forall>q\<in>set ps. q \<noteq> []"
    and "length (p @ concat ps) = 9"
  shows "accepted P f (arrives f (p @ concat ps) S) = finish_handshake P f (p @ concat ps) (silent f S)
    \<and> Option.bind (accepted P f (arrives f p S)) (greeting_pieces P f ps)
      = finish_handshake P f (p @ concat ps) (srv_kernel (add_fd_handler f HPending EPOLLIN) (silent f S))"
proof -
  have rd: "sys_read f 9 (srv_env (arrives f q S)) = (ReadData q, srv_env (silent f S))"
      "(arrives f q S)\<lparr>srv_env := srv_env (silent f S)\<rparr> = silent f S" if "q \<noteq> []" "length q \<le> 9" for q
    using that by (auto simp: arrives_def silent_def srv_upd_env_def sys_read_def)
  have "concat ps \<noteq> []" using assms(3,4) by (cases ps) auto
  then have "length p < 9" using assms(5) by (cases "concat ps") auto
  then have "accepted P f (arrives f p S) = Some (push_pending f p (silent f S))"
    using rd [of p] assms(2) by (simp add: accepted_def Let_def)
  moreover have "accepted P f (arrives f (p @ concat ps) S) = finish_handshake P f (p @ concat ps) (silent f S)"
    using rd [of "p @ concat ps"] assms(2,5) by (simp add: accepted_def Let_def)
  ultimately show ?thesis using greeting_pieces_run [OF assms(1,3-5), of P] by simp
qed

theorem greeting_any_cut_witness:
  "Option.bind (accepted demo_setup 8 (arrives 8 [1, 0, 0, 0] demo_server)) (greeting_pieces demo_setup 8 [[0, 0], [0, 0, 2]])
     = finish_handshake demo_setup 8 [1, 0, 0, 0, 0, 0, 0, 0, 2]
         (srv_kernel (add_fd_handler 8 HPending EPOLLIN) (silent 8 demo_server))"
proof -
  have "pending_index 8 (pending_handshakes demo_server) = None"
    by (simp add: demo_server_def demo_defs)
  from greeting_any_cut [OF this, of "[1, 0, 0, 0]" "[[0, 0], [0, 0, 2]]" demo_setup] show ?thesis by simp
qed


text \<open>
  C24: the greeting a client sends for its data connection \<open>out\<close> attaches the connection to the session it names:
  that session then reads data connection \<open>out\<close> from the descriptor, and no other session is touched.
\<close>

theorem greeting_attaches:
  assumes "map_of (sessions S) sid = Some (c, chain, s)" and "unat out < length (data_connections s)" and "0 \<le> f"
    and "pending_reconnect_targets s = []" and "taken_over s = []"
  shows "\<exists>S' s'. finish_handshake P f (u64_bytes sid @ [out]) S = Some S'
     \<and> map_of (sessions S') = (map_of (sessions S))(sid \<mapsto> (c, chain, s'))
     \<and> dc_fd (data_connections s' ! unat out) = f
     \<and> Option.bind (fd_to_handler (kern (srv_env S')) f) in_cb = Some (HOf sid (HDataIn (unat out)))"
proof -
  let ?s = "add_data_connection out f (lend sid S s)"
  have a: "reader ?s f = Some (HDataIn (unat out))" "dc_fd (data_connections ?s ! unat out) = f"
    using add_data_connection_attaches [of out "lend sid S s" f] assms(2-4) by simp_all
  then have "reader (?s\<lparr>taken_over := []\<rparr>) f = Some (HDataIn (unat out))" by (simp add: reader_def)
  then have "Option.bind (fd_to_handler (kern (srv_env (take_back sid (c, chain, ?s\<lparr>taken_over := []\<rparr>) S))) f) in_cb
      = Some (HOf sid (HDataIn (unat out)))"
    using take_back_reader [of sid "(c, chain, ?s\<lparr>taken_over := []\<rparr>)" S f] by simp
  then show ?thesis
    using greeting_finishes [OF assms, of P] a
    by (intro exI [of _ "take_back sid (c, chain, ?s\<lparr>taken_over := []\<rparr>) S"] exI [of _ "?s\<lparr>taken_over := []\<rparr>"])
      (simp add: take_back_def Let_def)
qed

definition two_conn_server :: "unit Server" where
  "two_conn_server = (server_new ''pw'' 30000 env_new)\<lparr>sessions := [(77, ctl_new, None,
     (session_new 4 ''pw'' 30000 77 env_new)\<lparr>data_connections := [dc_new\<lparr>dc_fd := 4\<rparr>, dc_new], st := RUNNING\<rparr>)]\<rparr>"

theorem greeting_attaches_witness:
  "\<exists>S' s'. finish_handshake demo_setup 9 (u64_bytes 77 @ [1]) two_conn_server = Some S'
     \<and> map_of (sessions S') 77 = Some (ctl_new, None, s') \<and> dc_fd (data_connections s' ! 1) = 9"
proof -
  let ?s = "(session_new 4 ''pw'' 30000 77 env_new)\<lparr>data_connections := [dc_new\<lparr>dc_fd := 4\<rparr>, dc_new], st := RUNNING\<rparr>"
  have "map_of (sessions two_conn_server) 77 = Some (ctl_new, None, ?s)" by (simp add: two_conn_server_def)
  from greeting_attaches [OF this, of 1 9 demo_setup] show ?thesis by (auto simp: session_new_def)
qed

text \<open>
  C34: a client that leaves during the authentication leaves its session and its descriptor behind.  The end
  of the stream takes the callback out of the table and puts the session into \<open>g_paused_sessions\<close>; but as
  the session was not running it is not paused, so it can neither be taken over nor does it ever die, and the
  descriptor stays open.
\<close>

theorem early_leaver_leaks:
  assumes "map_of (sessions S) sid = Some (c, chain, s)" and "st s \<noteq> RUNNING" and "\<not> paused s" and "client_fd s = f"
    and "0 \<le> f" and "rd_answers (srv_env S) f = ReadEof # as" and "taken_over s = []"
  shows "\<exists>S' s'. server_call P (HOf sid HClient) f EPOLLIN S = Some S'
     \<and> map_of (sessions S') sid = Some (c, chain, s') \<and> client_fd s' = f
     \<and> fd_open (kern (srv_env S')) f = fd_open (kern (srv_env S)) f
     \<and> closed_fds (osys (srv_env S')) = closed_fds (osys (srv_env S))
     \<and> fd_to_handler (kern (srv_env S')) f = None \<and> \<not> resumable S' sid \<and> \<not> unreferenced sid S'"
proof -
  let ?s = "lend sid S s"
  let ?E = "(env ?s)\<lparr>rd_answers := (rd_answers (env ?s))(f := as)\<rparr>"
  let ?t = "(client_lost f (?s\<lparr>env := ?E\<rparr>))\<lparr>taken_over := []\<rparr>"
  have env: "rd_answers (env ?s) f = ReadEof # as" using assms(6) by (simp add: lend_def upd_kern_def)
  have keep: "client_fd ?s = f" "st ?s \<noteq> RUNNING" "\<not> paused ?s" "taken_over ?s = []"
    using assms(2-4,7) by (simp_all add: lend_def)
  have lost: "client_lost f (?s\<lparr>env := ?E\<rparr>) = (upd_kernel (del_fd f) (?s\<lparr>env := ?E\<rparr>))\<lparr>kept_alive := True\<rparr>"
    using keep by (simp add: client_lost_def on_disconnect_def sess_upd)
  have "session_call P' HClient f EPOLLIN (c, chain, ?s) = Some (c, chain, client_lost f (?s\<lparr>env := ?E\<rparr>))" for P'
    using keep(1) assms(5) env
    by (simp add: on_client_in_def) (subst client_loop.simps, simp add: sys_read_def in_session_def)
  then have "server_call P (HOf sid HClient) f EPOLLIN S = Some (take_back sid (c, chain, ?t) S)"
    using assms(1) keep(4) by (simp add: with_session_def lost sess_upd)
  moreover have "client_fd ?t = f" "\<not> paused ?t" "kept_alive ?t"
    unfolding lost using keep by (simp_all add: sess_upd)
  moreover have "fd_open (kern (env ?t)) f = fd_open (kern (srv_env S)) f"
      "closed_fds (osys (env ?t)) = closed_fds (osys (srv_env S))" "fd_to_handler (kern (env ?t)) f = None"
    unfolding lost by (simp_all add: sess_upd lend_def del_fd_def epoll_del_def map_table_def Let_def)
  ultimately show ?thesis
    by (intro exI [of _ "take_back sid (c, chain, ?t) S"] exI [of _ ?t])
      (simp add: take_back_def resumable_def unreferenced_def upd_kern_def map_table_def Let_def)
qed

definition early_server :: "unit Server" where
  "early_server = (server_new ''pw'' 30000 (env_new\<lparr>rd_answers := (\<lambda>_. [])(4 := [ReadEof])\<rparr>))
     \<lparr>sessions := [(77, ctl_new, None, session_new 4 ''pw'' 30000 77 env_new)]\<rparr>"

theorem early_leaver_leaks_witness:
  "\<exists>S'. server_call demo_setup (HOf 77 HClient) 4 EPOLLIN early_server = Some S'
     \<and> \<not> resumable S' 77 \<and> \<not> unreferenced 77 S' \<and> closed_fds (osys (srv_env S')) = []"
proof -
  have "map_of (sessions early_server) 77 = Some (ctl_new, None, session_new 4 ''pw'' 30000 77 env_new)"
    by (simp add: early_server_def)
  moreover have "rd_answers (srv_env early_server) 4 = [ReadEof]" "closed_fds (osys (srv_env early_server)) = []"
    by (simp_all add: early_server_def server_new_def env_new_def os_with_def)
  ultimately show ?thesis
    using early_leaver_leaks [of early_server 77 ctl_new None "session_new 4 ''pw'' 30000 77 env_new" 4 "[]" demo_setup]
    by (auto simp: session_new_def)
qed



end
