(* ===== verification/Client_Io.thy ===== *)
theory Client_Io
  imports Client_Messages
begin

unbundle bit_operations_syntax

text \<open>
  \<open>src/client/client.h\<close> and the output side of \<open>client.cpp\<close>: the state of the client, the packets it sends, its
  external and data-connection writers and the \<open>wire_write\<close> entry its chain calls.

  \<open>Client\<close> holds the members of the class, with \<open>c_\<close> before a name the session uses too; \<open>c_env\<close> is
  the kernel, the sockets and the clock.  The chain and the reordering buffer of \<open>deliver_control\<close> are kept beside
  it, as for the session.  \<open>chain_ref_\<close> and the address of a pending connection are written but never read
  (except in log messages) and left out; \<open>reconnect_pending\<close> of data connection \<open>i\<close> is
  \<open>reconnect_pending c i\<close>.  The answers of \<open>accept\<close>, of \<open>socket\<close>, \<open>bind\<close> and \<open>listen\<close> for the
  listener, of \<open>rand\<close> and of \<open>time\<close> are members.  The closures put into \<open>pending_io_\<close> and into the kernel's table
  are values of the two datatypes below.
\<close>

section \<open>State\<close>

datatype ClientState = CL_DISCONNECTED | CL_AWAIT_AUTH1_CHALLENGE | CL_AWAIT_AUTH1_OK | CL_AWAIT_AUTH2_OK
  | CL_AWAIT_MODULE_LIST_RES | CL_AWAIT_CHAIN_READY | CL_AWAIT_TRANSMIT_READY | CL_RUNNING

datatype client_handler =
    CServer                \<comment> \<open>the reader before authentication, \<open>start\<close>\<close>
  | CDataIn nat            \<comment> \<open>\<open>register_data_connection_reader\<close>\<close>
  | CDataOut nat           \<comment> \<open>\<open>register_data_conn_epollout\<close>\<close>
  | CListen                \<comment> \<open>\<open>start_listener\<close>\<close>
  | CExt byte              \<comment> \<open>\<open>handle_connect_ok\<close>\<close>
  | CExtOut byte           \<comment> \<open>\<open>register_external_epollout\<close>\<close>
  | CDrainOut byte         \<comment> \<open>the cleaning up of \<open>process_pending_io\<close>\<close>

datatype client_io = CioDisconnect byte | CioExtOut byte fd | CioPauseCheck byte | CioResumeCheck byte
  | CioDataOut nat | CioLog nat

record ExternalConn =
  x_fd :: fd
  x_writer :: WriteBuffer
  x_writer_paused :: bool
  x_local_writer_sent :: bool
  x_disconnecting :: bool
  x_overflow_paused :: bool
  x_chain_paused :: bool
  x_local_chain_sent :: bool
  x_shutting_down_wr :: bool
  x_epollin_removed :: bool

definition ext_new :: "fd \<Rightarrow> ExternalConn" where
  "ext_new f = \<lparr>x_fd = f, x_writer = wb_new, x_writer_paused = False, x_local_writer_sent = False,
     x_disconnecting = False, x_overflow_paused = False, x_chain_paused = False, x_local_chain_sent = False,
     x_shutting_down_wr = False, x_epollin_removed = False\<rparr>"

record PendingConn =
  pe_fd :: fd
  pe_req_id :: byte
  pe_created_at :: millis

abbreviation (input) MAX_PENDING_EXT :: nat where "MAX_PENDING_EXT \<equiv> 256"
abbreviation (input) PENDING_TIMEOUT_MS :: int where "PENDING_TIMEOUT_MS \<equiv> 5000"

record Client =
  c_password :: string
  c_listen_port :: u16
  c_target_addr :: string
  tcp_fd :: fd
  c_listen_fd :: fd
  c_recv_buf :: bytes
  c_session_id :: u64
  c_st :: ClientState
  c_challenge1 :: string
  client_challenge :: string
  setup_ok :: bool
  c_modules :: "ModuleSpec list"
  c_chain_config :: ChainConfig
  conns :: "(byte \<times> ExternalConn) list"
  pending_ext :: "PendingConn list"
  next_req_id :: byte
  c_bp1_since :: "millis option"
  c_dc_paused :: bool
  c_pending_io :: "client_io list"
  pending_disconnect_ids :: "byte list"
  pending_data_frames :: "(bytes \<times> int) list"
  c_data_connections :: "DataConnection list"
  reconnect_pending :: "nat \<Rightarrow> bool"
  c_total_extra :: int
  secondary_established :: bool
  c_control_rr :: int
  c_control_seq :: byte
  c_last_activity :: millis
  c_heartbeating :: bool
  c_heartbeat_ms :: int
  c_next_module_id :: int
  c_env :: "client_handler Env"
  c_accepts :: "acc_answer list"
  c_listen_answer :: "fd \<times> bool"
  c_rands :: "nat list"
  c_time :: u64

definition client_new ::
  "string \<Rightarrow> u16 \<Rightarrow> string \<Rightarrow> ModuleSpec list \<Rightarrow> int \<Rightarrow> client_handler Env \<Rightarrow> Client" where
  "client_new pw port target mods hb E = \<lparr>c_password = pw, c_listen_port = port, c_target_addr = target,
     tcp_fd = -1, c_listen_fd = -1, c_recv_buf = [], c_session_id = 0, c_st = CL_DISCONNECTED, c_challenge1 = [],
     client_challenge = [], setup_ok = False, c_modules = mods,
     c_chain_config = cfg_default\<lparr>cc_modules := mods\<rparr>, conns = [], pending_ext = [], next_req_id = 0,
     c_bp1_since = None, c_dc_paused = False, c_pending_io = [], pending_disconnect_ids = [],
     pending_data_frames = [], c_data_connections = [], reconnect_pending = (\<lambda>_. False), c_total_extra = 0,
     secondary_established = False, c_control_rr = 0, c_control_seq = 0, c_last_activity = clock E,
     c_heartbeating = False, c_heartbeat_ms = hb, c_next_module_id = 0, c_env = E, c_accepts = [],
     c_listen_answer = (-1, False), c_rands = [], c_time = 0\<rparr>"

definition c_upd_env :: "(client_handler Env \<Rightarrow> client_handler Env) \<Rightarrow> Client \<Rightarrow> Client" where
  "c_upd_env g c = c\<lparr>c_env := g (c_env c)\<rparr>"

definition c_kernel :: "(client_handler Kernel \<Rightarrow> client_handler Kernel) \<Rightarrow> Client \<Rightarrow> Client" where
  "c_kernel g c = c_upd_env (upd_kern g) c"

definition c_set_os :: "os \<Rightarrow> Client \<Rightarrow> Client" where
  "c_set_os w c = c_upd_env (\<lambda>E. E\<lparr>osys := w\<rparr>) c"

definition c_upd_dc :: "nat \<Rightarrow> (DataConnection \<Rightarrow> DataConnection) \<Rightarrow> Client \<Rightarrow> Client" where
  "c_upd_dc i g c = c\<lparr>c_data_connections := (c_data_connections c)[i := g (c_data_connections c ! i)]\<rparr>"

definition upd_ext :: "byte \<Rightarrow> (ExternalConn \<Rightarrow> ExternalConn) \<Rightarrow> Client \<Rightarrow> Client" where
  "upd_ext cid g c =
     (case map_of (conns c) cid of None \<Rightarrow> c | Some x \<Rightarrow> c\<lparr>conns := al_put cid (g x) (conns c)\<rparr>)"

text \<open>\<open>close(fd)\<close>, and \<open>del_fd\<close> with it.\<close>

definition c_close :: "fd \<Rightarrow> Client \<Rightarrow> Client" where
  "c_close f c = c_upd_env (env_close f) c"

definition c_drop_fd :: "fd \<Rightarrow> Client \<Rightarrow> Client" where
  "c_drop_fd f c = c_close f (c_kernel (del_fd f) c)"

text \<open>\<open>Kernel::request_stop()\<close>\<close>

definition c_stop :: "Client \<Rightarrow> Client" where
  "c_stop c = c_kernel request_stop c"

section \<open>Sending\<close>

definition client_send_packet :: "Packet \<Rightarrow> Client \<Rightarrow> Client" where
  "client_send_packet pkt c = c_set_os (snd (sys_write (tcp_fd c) (serialize pkt) (osys (c_env c)))) c"

definition client_register_data_out :: "nat \<Rightarrow> fd \<Rightarrow> Client \<Rightarrow> Client" where
  "client_register_data_out idx f c =
     (if length (c_data_connections c) \<le> idx then c
      else if registered (dc_writer (c_data_connections c ! idx)) then c
      else c_kernel (add_fd_handler f (CDataOut idx) EPOLLOUT)
             (c_upd_dc idx (\<lambda>dc. dc\<lparr>dc_writer := (dc_writer dc)\<lparr>registered := True\<rparr>\<rparr>) c))"

definition register_external_epollout :: "byte \<Rightarrow> fd \<Rightarrow> Client \<Rightarrow> Client" where
  "register_external_epollout cid f c =
     (case map_of (conns c) cid of
        None \<Rightarrow> c
      | Some x \<Rightarrow>
          if registered (x_writer x) then c
          else c_kernel (add_fd_handler f (CExtOut cid) EPOLLOUT)
                 (upd_ext cid (\<lambda>x. x\<lparr>x_writer := (x_writer x)\<lparr>registered := True\<rparr>\<rparr>) c))"

fun client_send_control_on :: "bytes \<Rightarrow> int \<Rightarrow> nat list \<Rightarrow> Client \<Rightarrow> Client" where
  "client_send_control_on framed start [] c = c"
| "client_send_control_on framed start (i # is) c =
     (let idx = rr_index start (length (c_data_connections c)) i; dc = c_data_connections c ! idx
      in if dc_fd dc < 0 then client_send_control_on framed start is c
         else let c = c_upd_dc idx (\<lambda>dc. dc\<lparr>dc_writer := write_priority framed (dc_writer dc)\<rparr>) c
              in if registered (dc_writer dc) then c else client_register_data_out idx (dc_fd dc) c)"

definition client_send_control :: "Packet \<Rightarrow> Client \<Rightarrow> Client" where
  "client_send_control pkt c =
     (let framed = control_frame (c_control_seq c) pkt;
          c = c\<lparr>c_control_seq := c_control_seq c + 1\<rparr>
      in if c_data_connections c = [] then c
         else let n = length (c_data_connections c);
                  start = c_rem (c_control_rr c) (int n);
                  c = c\<lparr>c_control_rr := int32 (c_control_rr c + 1)\<rparr>
              in client_send_control_on framed start [0..<n] c)"

definition client_send_writer_pause :: "byte \<Rightarrow> Client \<Rightarrow> Client" where
  "client_send_writer_pause cid c = client_send_control (make_msg MSG_WRITER_PAUSE [cid]) c"

definition client_send_writer_resume :: "byte \<Rightarrow> Client \<Rightarrow> Client" where
  "client_send_writer_resume cid c = client_send_control (make_msg MSG_WRITER_RESUME [cid]) c"

definition client_send_chain_pause :: "Client \<Rightarrow> Client" where
  "client_send_chain_pause c = client_send_control (make_msg MSG_CHAIN_PAUSE []) c"

definition client_send_chain_resume :: "Client \<Rightarrow> Client" where
  "client_send_chain_resume c = client_send_control (make_msg MSG_CHAIN_RESUME []) c"

definition client_dc_write :: "nat \<Rightarrow> bytes \<Rightarrow> Client \<Rightarrow> Client option" where
  "client_dc_write idx data c =
     (let dc = c_data_connections c ! idx in do {
        (_, b, w) \<leftarrow> wb_write (dc_fd dc) data (dc_writer dc) (osys (c_env c));
        Some (c_set_os w (c_upd_dc idx (\<lambda>dc. dc\<lparr>dc_writer := b\<rparr>) c))
      })"

definition client_dc_flush :: "nat \<Rightarrow> Client \<Rightarrow> (bool \<times> Client) option" where
  "client_dc_flush idx c =
     (let dc = c_data_connections c ! idx in do {
        (r, b, w) \<leftarrow> wb_flush (dc_fd dc) (dc_writer dc) (osys (c_env c));
        Some (r, c_set_os w (c_upd_dc idx (\<lambda>dc. dc\<lparr>dc_writer := b\<rparr>) c))
      })"

definition client_ensure_out :: "nat \<Rightarrow> Client \<Rightarrow> Client" where
  "client_ensure_out idx c =
     (let dc = c_data_connections c ! idx
      in if \<not> registered (dc_writer dc) \<and> wb_size (dc_writer dc) > 0
         then client_register_data_out idx (dc_fd dc) c else c)"

section \<open>External connections\<close>

definition ext_flush :: "byte \<Rightarrow> Client \<Rightarrow> (bool \<times> Client) option" where
  "ext_flush cid c =
     (case map_of (conns c) cid of
        None \<Rightarrow> Some (True, c)
      | Some x \<Rightarrow> do {
          (r, b, w) \<leftarrow> wb_flush (x_fd x) (x_writer x) (osys (c_env c));
          Some (r, c_set_os w (upd_ext cid (\<lambda>x. x\<lparr>x_writer := b\<rparr>) c))
        })"

text \<open>The connection leaves \<open>conns_\<close>; \<open>shutdown(fd, SHUT_RDWR)\<close> and \<open>close(fd)\<close>.\<close>

definition ext_shut :: "fd \<Rightarrow> Client \<Rightarrow> Client" where
  "ext_shut f c =
     (if 0 \<le> f
      then let c = c_kernel (del_fd f) c in c_close f (c_set_os (sys_shutdown_wr f (osys (c_env c))) c)
      else c)"

definition ext_erase :: "byte \<Rightarrow> Client \<Rightarrow> Client" where
  "ext_erase cid c = c\<lparr>conns := al_erase cid (conns c)\<rparr>"

definition on_external_disconnect :: "byte \<Rightarrow> Client \<Rightarrow> Client" where
  "on_external_disconnect cid c =
     (case map_of (conns c) cid of
        None \<Rightarrow> c
      | Some x \<Rightarrow>
          (let c = ext_erase cid c; c = (if 0 \<le> x_fd x then c_drop_fd (x_fd x) c else c)
           in client_send_control (make_msg MSG_DISCONNECT [cid]) c))"

definition finish_disconnect :: "byte \<Rightarrow> Client \<Rightarrow> Client option" where
  "finish_disconnect cid c =
     (case map_of (conns c) cid of
        None \<Rightarrow> Some c
      | Some x \<Rightarrow> do {
          (_, c) \<leftarrow> ext_flush cid c;
          case map_of (conns c) cid of
            None \<Rightarrow> Some c
          | Some y \<Rightarrow> Some (if wb_empty (x_writer y) then ext_shut (x_fd x) (ext_erase cid c) else c)
        })"

definition send_raw_to_external :: "byte \<Rightarrow> bytes \<Rightarrow> Client \<Rightarrow> Client option" where
  "send_raw_to_external cid data c =
     (case map_of (conns c) cid of
        None \<Rightarrow> Some c
      | Some x \<Rightarrow>
          if x_fd x < 0 then Some c
          else do {
            (ret, b, w) \<leftarrow> wb_write (x_fd x) data (x_writer x) (osys (c_env c));
            let need_epollout = (ret > 0 \<and> \<not> registered b);
            let should_pause = (ret > 0 \<and> \<not> x_local_writer_sent x);
            let sent = (x_local_writer_sent x \<or> should_pause);
            let should_resume = (wb_size b < low_water b \<and> sent);
            let c = c_set_os w (upd_ext cid (\<lambda>x. x\<lparr>x_writer := b, x_local_writer_sent := sent \<and> \<not> should_resume\<rparr>) c);
            let c = (if need_epollout then register_external_epollout cid (x_fd x) c else c);
            let c = (if should_pause then client_send_writer_pause cid c else c);
            Some (if should_resume then client_send_writer_resume cid c else c)
          })"

section \<open>\<open>wire_write\<close>\<close>

definition c_push_io :: "client_io list \<Rightarrow> Client \<Rightarrow> Client" where
  "c_push_io ps c = c\<lparr>c_pending_io := c_pending_io c @ ps\<rparr>"

definition client_wire_ext :: "bytes \<Rightarrow> Client \<Rightarrow> (int \<times> Client) option" where
  "client_wire_ext data c =
     (if length data < 1 then Some (0, c)
      else if data ! 0 = 255 then
        Some (0, if length data < 3 \<or> data ! 1 \<noteq> CHAIN_CTRL_DISCONNECT then c
                 else c_push_io [CioDisconnect (data ! 2)] c)
      else let cid = data ! 0 in
        case map_of (conns c) cid of
          None \<Rightarrow> Some (0, c)
        | Some x \<Rightarrow>
            if x_disconnecting x \<or> x_fd x < 0 then Some (0, c)
            else do {
              (ret, b, w) \<leftarrow> wb_write (x_fd x) (drop 1 data) (x_writer x) (osys (c_env c));
              let c = c_set_os w (upd_ext cid (\<lambda>x. x\<lparr>x_writer := b\<rparr>) c);
              let c = (if ret > 0 then c_push_io [CioExtOut cid (x_fd x), CioPauseCheck cid] c
                       else if ret = 0 then c_push_io [CioResumeCheck cid] c else c);
              Some (0, c_kernel wakeup c)
            })"

definition client_wire_data :: "int \<Rightarrow> bytes \<Rightarrow> Client \<Rightarrow> (int \<times> Client) option" where
  "client_wire_data dst data c =
     (if dst < 1 \<or> int (length (c_data_connections c)) < dst
         \<or> dc_fd (c_data_connections c ! nat (dst - 1)) < 0 then Some (0, c)
      else let idx = nat (dst - 1) in do {
        (ret, dc, w) \<leftarrow> dc_send data (clock (c_env c)) (c_data_connections c ! idx) (osys (c_env c));
        let c = c_set_os w (c_upd_dc idx (\<lambda>_. dc) c);
        Some (0, c_kernel wakeup (c_push_io (if ret > 0 then [CioDataOut idx, CioLog idx] else [CioLog idx]) c))
      })"

definition client_wire_write :: "int \<Rightarrow> bytes \<Rightarrow> Client \<Rightarrow> (int \<times> Client) option" where
  "client_wire_write dst data c = (if dst = 0 then client_wire_ext data c else client_wire_data dst data c)"

definition client_alloc_module_id :: "Client \<Rightarrow> int \<times> Client" where
  "client_alloc_module_id c = (c_next_module_id c, c\<lparr>c_next_module_id := c_next_module_id c + 1\<rparr>)"

definition client_kapi :: "Client KernelAPI" where
  "client_kapi = \<lparr>ka_alloc_module_id = client_alloc_module_id, ka_wire_write = client_wire_write\<rparr>"

text \<open>The bodies of the closures \<open>wire_write\<close> leaves behind for the event loop.\<close>

fun run_cio :: "client_io \<Rightarrow> Client \<Rightarrow> Client" where
  "run_cio (CioDisconnect cid) c =
     (if map_of (conns c) cid = None then c
      else (upd_ext cid (\<lambda>x. x\<lparr>x_disconnecting := True\<rparr>) c)
             \<lparr>pending_disconnect_ids := pending_disconnect_ids c @ [cid]\<rparr>)"
| "run_cio (CioExtOut cid f) c = register_external_epollout cid f c"
| "run_cio (CioPauseCheck cid) c =
     (case map_of (conns c) cid of
        None \<Rightarrow> c
      | Some x \<Rightarrow>
          if wb_size (x_writer x) > high_water (x_writer x) \<and> \<not> x_local_writer_sent x
          then client_send_writer_pause cid (upd_ext cid (\<lambda>x. x\<lparr>x_local_writer_sent := True\<rparr>) c) else c)"
| "run_cio (CioResumeCheck cid) c =
     (case map_of (conns c) cid of
        None \<Rightarrow> c
      | Some x \<Rightarrow>
          if wb_size (x_writer x) \<le> low_water (x_writer x) \<and> x_local_writer_sent x
          then client_send_writer_resume cid (upd_ext cid (\<lambda>x. x\<lparr>x_local_writer_sent := False\<rparr>) c) else c)"
| "run_cio (CioDataOut idx) c =
     (if idx < length (c_data_connections c) \<and> 0 \<le> dc_fd (c_data_connections c ! idx)
      then client_register_data_out idx (dc_fd (c_data_connections c ! idx)) c else c)"
| "run_cio (CioLog idx) c = c"

section \<open>Flushing callbacks\<close>

text \<open>The callback of \<open>register_data_conn_epollout\<close>; an index out of range ends it.\<close>

definition client_flush_round :: "nat \<Rightarrow> Client \<Rightarrow> Client option" where
  "client_flush_round idx c = do {
     (drained, c) \<leftarrow> client_dc_flush idx c;
     c \<leftarrow> (if drained then Some c else map_option snd (client_dc_flush idx c));
     let dc = c_data_connections c ! idx;
     Some (if wb_empty (dc_writer dc)
           then c_kernel (mod_fd_events (dc_fd dc) 0 EPOLLOUT)
                  (c_upd_dc idx (\<lambda>dc. dc\<lparr>dc_writer := (dc_writer dc)\<lparr>registered := False\<rparr>\<rparr>) c)
           else c)
   }"

definition client_data_out :: "nat \<Rightarrow> u32 \<Rightarrow> Client \<Rightarrow> Client option" where
  "client_data_out idx events c =
     (if length (c_data_connections c) \<le> idx then Some c
      else do {
        c \<leftarrow> (if events AND EPOLLOUT \<noteq> 0 then client_flush_round idx c else Some c);
        Some (if events AND (EPOLLERR OR EPOLLHUP) \<noteq> 0
              then c_upd_dc idx (\<lambda>dc. dc\<lparr>dc_writer := wb_clear (dc_writer dc)\<rparr>) c else c)
      })"

text \<open>The loop that flushes until the read offset stays where it is or the buffer is drained.\<close>

partial_function (option) ext_flush_loop :: "fd \<Rightarrow> WriteBuffer \<Rightarrow> os \<Rightarrow> (WriteBuffer \<times> os) option" where
  "ext_flush_loop f b w =
     Option.bind (wb_flush f b w)
       (\<lambda>(drained, b', w'). if read_offset b' = read_offset b \<or> drained then Some (b', w') else ext_flush_loop f b' w')"

declare ext_flush_loop.simps [code]

text \<open>The callback of \<open>register_external_epollout\<close>.\<close>

definition on_ext_out :: "byte \<Rightarrow> u32 \<Rightarrow> Client \<Rightarrow> Client option" where
  "on_ext_out cid events c =
     (if events AND (EPOLLERR OR EPOLLHUP) \<noteq> 0 then Some (ext_erase cid c)
      else if events AND EPOLLOUT = 0 then Some c
      else case map_of (conns c) cid of
        None \<Rightarrow> Some c
      | Some x \<Rightarrow> do {
          (b, w) \<leftarrow> ext_flush_loop (x_fd x) (x_writer x) (osys (c_env c));
          let c = c_set_os w (upd_ext cid (\<lambda>x. x\<lparr>x_writer := b\<rparr>) c);
          if \<not> wb_empty b then Some c
          else do {
            let c = upd_ext cid (\<lambda>x. x\<lparr>x_writer := (x_writer x)\<lparr>registered := False\<rparr>\<rparr>) c;
            let c = c_kernel (mod_fd_events (x_fd x) 0 EPOLLOUT) c;
            Some (if x_disconnecting x then ext_shut (x_fd x) (ext_erase cid c)
                  else if x_local_writer_sent x
                  then client_send_writer_resume cid (upd_ext cid (\<lambda>x. x\<lparr>x_local_writer_sent := False\<rparr>) c)
                  else c)
          }
        })"

end
