(* ===== verification/Client.thy ===== *)
theory Client
  imports Client_Io
begin

unbundle bit_operations_syntax

text \<open>
  \<open>src/client/client.cpp\<close>, the handlers: authentication, setting up the chain and the data connections, the
  listener and the external connections, and the control messages from the server.

  A handler works on the chain (absent before the authentication is complete) and the client; \<open>None\<close> is undefined
  behaviour, such as following the null chain pointer, or a call that never returns.  \<open>ClientSetup\<close> holds what the
  program gets from elsewhere: the registry of modules after \<open>ModuleBase::load\<close>, the iteration order the
  chain constructor meets, the answers of \<open>malloc\<close> and \<open>rand\<close> inside the chain, and OpenSSL's \<open>SHA256\<close>.
\<close>

record 'c ClientSetup =
  cs_bases :: "('c, Client) bases"
  cs_order :: "(nat \<times> int) list \<Rightarrow> (nat \<times> int) list"
  cs_oom :: "bool list"
  cs_rands :: "int list"
  cs_sha256 :: "bytes \<Rightarrow> bytes"

type_synonym 'c cworld = "('c, Client) owner"

definition in_client :: "(Client \<Rightarrow> Client) \<Rightarrow> 'c cworld \<Rightarrow> 'c cworld" where
  "in_client g w = (fst w, g (snd w))"

definition client_push :: "ptr \<Rightarrow> nat \<Rightarrow> int \<Rightarrow> int \<Rightarrow> 'c cworld \<Rightarrow> 'c cworld option" where
  "client_push p len src dir w =
     map_option snd (on_chain (\<lambda>w. map_option (\<lambda>w. ((), w)) (push_packet client_kapi p len src dir w)) w)"

section \<open>The listener\<close>

definition start_listener :: "Client \<Rightarrow> Client" where
  "start_listener c =
     (let (sock, okay) = c_listen_answer c
      in if sock < 0 then c\<lparr>c_listen_fd := sock\<rparr>
         else let c = c_kernel (fd_appears sock) c
         in if \<not> okay then (c_close sock c)\<lparr>c_listen_fd := -1\<rparr>
         else c_kernel (add_fd_handler sock CListen EPOLLIN) (c\<lparr>c_listen_fd := sock\<rparr>))"

definition on_listener_accept :: "fd \<Rightarrow> Client \<Rightarrow> Client" where
  "on_listener_accept cfd c =
     (if MAX_PENDING_EXT \<le> length (pending_ext c) then c_close cfd c
      else let req = next_req_id c
           in client_send_control (make_msg MSG_CONNECT_REQ (connect_req_payload req (c_target_addr c)))
                (c\<lparr>next_req_id := req + 1,
                   pending_ext := pending_ext c @ [\<lparr>pe_fd = cfd, pe_req_id = req, pe_created_at = clock (c_env c)\<rparr>]\<rparr>))"

fun listener_loop :: "acc_answer list \<Rightarrow> Client \<Rightarrow> Client" where
  "listener_loop [] c = c\<lparr>c_accepts := []\<rparr>"
| "listener_loop (AcceptAgain # as) c = c\<lparr>c_accepts := as\<rparr>"
| "listener_loop (AcceptEintr # as) c = listener_loop as c"
| "listener_loop (AcceptError # as) c = c\<lparr>c_accepts := as\<rparr>"
| "listener_loop (Accepted f # as) c =
     (if f < 0 \<or> fd_open (kern (c_env c)) f then listener_loop as c
      else listener_loop as (on_listener_accept f (c_kernel (fd_appears f) c)))"

definition on_client_listen :: "u32 \<Rightarrow> Client \<Rightarrow> Client" where
  "on_client_listen events c = (if events AND EPOLLIN = 0 then c else listener_loop (c_accepts c) c)"

section \<open>External connections\<close>

definition on_external_recv :: "byte \<Rightarrow> bytes \<Rightarrow> 'c cworld \<Rightarrow> 'c cworld option" where
  "on_external_recv cid data w =
     (if c_st (snd w) \<noteq> CL_RUNNING then Some w
      else do {
        (p, w) \<leftarrow> chain_alloc (1 + length data) w;
        case p of
          None \<Rightarrow> Some w
        | Some blob \<Rightarrow> do {
            w \<leftarrow> chain_store blob 0 (cid # data) w;
            client_push blob (1 + length data) 0 0 w
          }
      })"

text \<open>
  The read callback of an external connection.  Reading: nothing while the chain is paused; else one \<open>read\<close>
  behind the connection id; the end of the stream becomes a control packet for the chain.
\<close>

definition ext_eof :: "byte \<Rightarrow> 'c cworld \<Rightarrow> 'c cworld option" where
  "ext_eof cid w =
     (let w = in_client (upd_ext cid (\<lambda>x. x\<lparr>x_shutting_down_wr := True\<rparr>)) w
      in if fst w \<noteq> None then do {
           (p, w) \<leftarrow> chain_alloc 3 w;
           ctrl \<leftarrow> p;
           w \<leftarrow> chain_store ctrl 0 [255, CHAIN_CTRL_SHUTDOWN_WR, cid] w;
           client_push ctrl 3 0 0 w
         }
         else if c_data_connections (snd w) \<noteq> [] \<and> 0 \<le> dc_fd (c_data_connections (snd w) ! 0)
         then map_option (\<lambda>c. (fst w, client_ensure_out 0 c)) (client_dc_write 0 [2, WIRE_SHUTDOWN_WR, cid] (snd w))
         else Some w)"

definition ext_read :: "byte \<Rightarrow> fd \<Rightarrow> 'c cworld \<Rightarrow> (read_step \<times> 'c cworld) option" where
  "ext_read cid f w =
     (if bp_paused 0 w then Some (ReadReturn, w)
      else do {
        (p, w) \<leftarrow> chain_alloc MAX_PACKET_SIZE w;
        case p of
          None \<Rightarrow> Some (ReadReturn, w)
        | Some buf \<Rightarrow>
            (case sys_read f (MAX_PACKET_SIZE - 1) (c_env (snd w)) of
               (ReadData d, E) \<Rightarrow> do {
                 w \<leftarrow> chain_store buf 0 (cid # d) (in_client (\<lambda>c. c\<lparr>c_env := E\<rparr>) w);
                 map_option (\<lambda>w. (ReadStop, w)) (client_push buf (length d + 1) 0 0 w)
               }
             | (a, E) \<Rightarrow> do {
                 w \<leftarrow> chain_free buf (in_client (\<lambda>c. c\<lparr>c_env := E\<rparr>) w);
                 map_option (\<lambda>w. (ReadStop, w)) (if a = ReadEof then ext_eof cid w else Some w)
               })
      })"

definition ext_hangup :: "byte \<Rightarrow> Client \<Rightarrow> Client" where
  "ext_hangup cid c =
     (case map_of (conns c) cid of
        None \<Rightarrow> on_external_disconnect cid c
      | Some x \<Rightarrow>
          if x_shutting_down_wr x
          then ext_erase cid (if 0 \<le> x_fd x then c_drop_fd (x_fd x) c else c)
          else on_external_disconnect cid c)"

definition on_ext_in :: "byte \<Rightarrow> fd \<Rightarrow> u32 \<Rightarrow> 'c cworld \<Rightarrow> 'c cworld option" where
  "on_ext_in cid f events w = do {
     (r, w) \<leftarrow> (if events AND EPOLLIN \<noteq> 0 then ext_read cid f w else Some (ReadStop, w));
     Some (if r \<noteq> ReadReturn \<and> events AND (EPOLLERR OR EPOLLHUP) \<noteq> 0 then in_client (ext_hangup cid) w else w)
   }"

section \<open>Answers to connect requests\<close>

text \<open>The first pending connection with a request id.\<close>

fun find_req :: "byte \<Rightarrow> PendingConn list \<Rightarrow> nat option" where
  "find_req req [] = None"
| "find_req req (pc # pcs) = (if pe_req_id pc = req then Some 0 else map_option Suc (find_req req pcs))"

definition drop_nth :: "nat \<Rightarrow> 'a list \<Rightarrow> 'a list" where
  "drop_nth i xs = take i xs @ drop (Suc i) xs"

text \<open>\<open>emplace\<close> leaves a connection that is already there.\<close>

definition handle_connect_ok :: "Packet \<Rightarrow> Client \<Rightarrow> Client" where
  "handle_connect_ok pkt c =
     (case pkt_payload pkt of
        cid # req # _ \<Rightarrow>
          (case find_req req (pending_ext c) of
             None \<Rightarrow> client_send_control (make_msg MSG_DISCONNECT [cid]) c
           | Some i \<Rightarrow>
               (let cfd = pe_fd (pending_ext c ! i);
                    c = c\<lparr>pending_ext := drop_nth i (pending_ext c)\<rparr>;
                    c = (if map_of (conns c) cid = None then c\<lparr>conns := al_put cid (ext_new cfd) (conns c)\<rparr> else c)
                in c_kernel (add_fd_handler cfd (CExt cid) EPOLLIN) c))
      | _ \<Rightarrow> c)"

definition handle_connect_fail :: "Packet \<Rightarrow> Client \<Rightarrow> Client" where
  "handle_connect_fail pkt c =
     (case pkt_payload pkt of
        cid # req # _ \<Rightarrow>
          (case find_req req (pending_ext c) of
             None \<Rightarrow> c
           | Some i \<Rightarrow> (c_close (pe_fd (pending_ext c ! i)) c)\<lparr>pending_ext := drop_nth i (pending_ext c)\<rparr>)
      | _ \<Rightarrow> c)"

definition client_handle_disconnect :: "Packet \<Rightarrow> Client \<Rightarrow> Client" where
  "client_handle_disconnect pkt c =
     (case pkt_payload pkt of
        [] \<Rightarrow> c
      | cid # _ \<Rightarrow>
          if map_of (conns c) cid = None then c
          else (upd_ext cid (\<lambda>x. x\<lparr>x_disconnecting := True\<rparr>) c)
                 \<lparr>pending_disconnect_ids := pending_disconnect_ids c @ [cid]\<rparr>)"

section \<open>Pausing the external connections\<close>

definition for_conns ::
  "(ExternalConn \<Rightarrow> ExternalConn) \<Rightarrow> (ExternalConn \<Rightarrow> client_handler Kernel \<Rightarrow> client_handler Kernel)
   \<Rightarrow> Client \<Rightarrow> Client" where
  "for_conns g h c =
     c_kernel (fold (\<lambda>(cid, x). h (g x)) (conns c)) (c\<lparr>conns := map (apsnd g) (conns c)\<rparr>)"

definition ext_paused :: "ExternalConn \<Rightarrow> bool" where
  "ext_paused x \<longleftrightarrow> x_writer_paused x \<or> x_chain_paused x \<or> x_overflow_paused x"

definition ext_stop_reading :: "ExternalConn \<Rightarrow> client_handler Kernel \<Rightarrow> client_handler Kernel" where
  "ext_stop_reading x K = (if 0 \<le> x_fd x then mod_fd_events (x_fd x) 0 EPOLLIN K else K)"

definition ext_resume_reading :: "ExternalConn \<Rightarrow> client_handler Kernel \<Rightarrow> client_handler Kernel" where
  "ext_resume_reading x K =
     (if 0 \<le> x_fd x \<and> \<not> ext_paused x then mod_fd_events (x_fd x) EPOLLIN 0 K else K)"

definition handle_writer_pause :: "Packet \<Rightarrow> Client \<Rightarrow> Client" where
  "handle_writer_pause pkt c =
     (case pkt_payload pkt of
        [] \<Rightarrow> c
      | cid # _ \<Rightarrow>
          (case map_of (conns c) cid of
             None \<Rightarrow> c
           | Some x \<Rightarrow> c_kernel (ext_stop_reading x) (upd_ext cid (\<lambda>x. x\<lparr>x_writer_paused := True\<rparr>) c)))"

definition handle_writer_resume :: "Packet \<Rightarrow> Client \<Rightarrow> Client" where
  "handle_writer_resume pkt c =
     (case pkt_payload pkt of
        [] \<Rightarrow> c
      | cid # _ \<Rightarrow>
          (case map_of (conns c) cid of
             None \<Rightarrow> c
           | Some x \<Rightarrow> c_kernel (ext_resume_reading (x\<lparr>x_writer_paused := False\<rparr>))
                        (upd_ext cid (\<lambda>x. x\<lparr>x_writer_paused := False\<rparr>) c)))"

definition handle_chain_pause :: "Client \<Rightarrow> Client" where
  "handle_chain_pause c = for_conns (\<lambda>x. x\<lparr>x_chain_paused := True\<rparr>) ext_stop_reading c"

definition handle_chain_resume :: "Client \<Rightarrow> Client" where
  "handle_chain_resume c = for_conns (\<lambda>x. x\<lparr>x_chain_paused := False\<rparr>) ext_resume_reading c"

section \<open>Setting up the tunnel\<close>

definition client_register_reader :: "nat \<Rightarrow> Client \<Rightarrow> Client" where
  "client_register_reader idx c =
     (if length (c_data_connections c) \<le> idx then c
      else let f = dc_fd (c_data_connections c ! idx)
           in if f < 0 then c else c_kernel (add_fd_handler f (CDataIn idx) EPOLLIN) c)"

definition handle_auth1_challenge :: "'c ClientSetup \<Rightarrow> Packet \<Rightarrow> Client \<Rightarrow> Client" where
  "handle_auth1_challenge P pkt c =
     (let ch = string_of (pkt_payload pkt);
          answer = bytes_of (hex_sha256 (cs_sha256 P) (ch @ c_password c))
      in (client_send_packet (make_msg MSG_AUTH_RESPONSE (take 64 answer)) (c\<lparr>c_challenge1 := ch\<rparr>))\<lparr>c_st := CL_AWAIT_AUTH1_OK\<rparr>)"

definition client_fail :: "Client \<Rightarrow> Client" where
  "client_fail c = c_stop (c\<lparr>c_st := CL_DISCONNECTED\<rparr>)"

text \<open>\<open>std::to_string(rand()) + std::to_string(time(nullptr))\<close>\<close>

definition client_new_challenge :: "Client \<Rightarrow> string" where
  "client_new_challenge c = dec_string (case c_rands c of [] \<Rightarrow> 0 | r # _ \<Rightarrow> r) @ dec_string (unat (c_time c))"

definition handle_auth1_ok :: "Packet \<Rightarrow> Client \<Rightarrow> Client" where
  "handle_auth1_ok pkt c =
     (let p = pkt_payload pkt
      in if length p < 1 \<or> p ! 0 \<noteq> 1 then client_fail c
         else let c = (if 9 \<le> length p then c\<lparr>c_session_id := u64_of_bytes (drop 1 p)\<rparr> else c);
                  ch = client_new_challenge c
              in (client_send_packet (make_msg MSG_AUTH_CHALLENGE (bytes_of ch))
                    (c\<lparr>client_challenge := ch, c_rands := tl (c_rands c)\<rparr>))\<lparr>c_st := CL_AWAIT_AUTH2_OK\<rparr>)"

definition handle_module_list_res :: "Packet \<Rightarrow> Client \<Rightarrow> Client" where
  "handle_module_list_res pkt c =
     (case pkt_payload pkt of
        [] \<Rightarrow> c
      | b # _ \<Rightarrow>
          if b = 1
          then (client_send_control (make_msg MSG_CHAIN_CREATE (chain_create_payload (c_modules c))) c)
                 \<lparr>c_st := CL_AWAIT_CHAIN_READY\<rparr>
          else client_fail c)"

text \<open>The nine bytes that attach a data connection to a session.\<close>

definition greeting :: "u64 \<Rightarrow> nat \<Rightarrow> bytes" where
  "greeting sid i = u64_bytes sid @ [of_nat i]"

text \<open>Blocking connect and greeting; \<open>None\<close> when any of it fails.\<close>

definition dial :: "nat \<Rightarrow> Client \<Rightarrow> fd option \<times> Client" where
  "dial i c =
     (case sys_socket_connect (c_env c) of
        (None, E) \<Rightarrow> (None, c\<lparr>c_env := E\<rparr>)
      | (Some (f, a), E) \<Rightarrow>
          (let c = c\<lparr>c_env := E\<rparr>
           in if a \<noteq> ConnOk then (None, c_close f c)
              else let (r, w) = sys_write f (greeting (c_session_id c) i) (osys (c_env c)); c = c_set_os w c
                   in if r = WrOk 9 then (Some f, c) else (None, c_close f c)))"

fun open_secondaries :: "nat list \<Rightarrow> Client \<Rightarrow> Client" where
  "open_secondaries [] c = c"
| "open_secondaries (i # is) c =
     (case dial i c of
        (None, c) \<Rightarrow> open_secondaries is c
      | (Some f, c) \<Rightarrow>
          (let c = (if length (c_data_connections c) \<le> i
                    then c\<lparr>c_data_connections := vec_resize (i + 1) dc_new (c_data_connections c)\<rparr> else c)
           in open_secondaries is (client_register_reader i (c_upd_dc i (\<lambda>dc. dc\<lparr>dc_fd := f\<rparr>) c))))"

definition open_secondary_connections :: "Client \<Rightarrow> Client" where
  "open_secondary_connections c =
     (if secondary_established c then c
      else open_secondaries [1..<Suc (nat (c_total_extra c))] (c\<lparr>secondary_established := True\<rparr>))"

definition now_running :: "Client \<Rightarrow> Client" where
  "now_running c = c\<lparr>c_st := CL_RUNNING, setup_ok := True\<rparr>"

definition maybe_listen :: "Client \<Rightarrow> Client" where
  "maybe_listen c = (if c_listen_port c > 0 then start_listener c else c)"

definition handle_chain_ready :: "'c cworld \<Rightarrow> 'c cworld" where
  "handle_chain_ready w =
     (if c_st (snd w) \<noteq> CL_AWAIT_CHAIN_READY then w
      else let te = (case fst w of None \<Rightarrow> 0 | Some ch \<Rightarrow> total_extra_outputs ch);
               w = in_client (\<lambda>c. c\<lparr>c_total_extra := te\<rparr>) w
           in if te > 0
              then in_client (\<lambda>c. open_secondary_connections (c\<lparr>c_st := CL_AWAIT_TRANSMIT_READY\<rparr>)) w
              else in_client (\<lambda>c. maybe_listen (now_running c)) w)"

text \<open>The frames that arrived too early go into the chain.\<close>

fun push_early :: "(bytes \<times> int) list \<Rightarrow> 'c cworld \<Rightarrow> 'c cworld option" where
  "push_early [] w = Some w"
| "push_early ((buf, src) # rest) w = do {
     (p, w) \<leftarrow> chain_alloc (length buf) w;
     w \<leftarrow> (case p of
              None \<Rightarrow> Some w
            | Some blob \<Rightarrow> do {
                w \<leftarrow> chain_store blob 0 buf w;
                client_push blob (length buf) src 1 w
              });
     push_early rest w
   }"

definition handle_transmit_ready :: "'c cworld \<Rightarrow> 'c cworld option" where
  "handle_transmit_ready w =
     (if c_st (snd w) \<noteq> CL_AWAIT_TRANSMIT_READY then Some w
      else do {
        w \<leftarrow> push_early (pending_data_frames (snd w)) (in_client now_running w);
        Some (in_client (\<lambda>c. maybe_listen (c\<lparr>pending_data_frames := []\<rparr>)) w)
      })"

definition client_apply_control :: "Packet \<Rightarrow> 'c cworld \<Rightarrow> 'c cworld option" where
  "client_apply_control pkt w =
     (let ty = pkt_type pkt
      in if ty = MSG_MODULE_LIST_RES then Some (in_client (handle_module_list_res pkt) w)
      else if ty = MSG_CONNECT_OK then Some (in_client (handle_connect_ok pkt) w)
      else if ty = MSG_CONNECT_FAIL then Some (in_client (handle_connect_fail pkt) w)
      else if ty = MSG_DISCONNECT then Some (in_client (client_handle_disconnect pkt) w)
      else if ty = MSG_WRITER_PAUSE then Some (in_client (handle_writer_pause pkt) w)
      else if ty = MSG_WRITER_RESUME then Some (in_client (handle_writer_resume pkt) w)
      else if ty = MSG_CHAIN_PAUSE then Some (in_client handle_chain_pause w)
      else if ty = MSG_CHAIN_RESUME then Some (in_client handle_chain_resume w)
      else if ty = MSG_CHAIN_READY then Some (handle_chain_ready w)
      else if ty = MSG_TRANSMIT_READY then handle_transmit_ready w
      else Some w)"

section \<open>Frames\<close>

definition client_dispatch :: "bytes \<Rightarrow> int \<Rightarrow> 'c cworld \<Rightarrow> 'c cworld option" where
  "client_dispatch payload src w =
     (if length payload < 1 then Some w
      else if c_st (snd w) \<noteq> CL_RUNNING
      then Some (in_client (\<lambda>c. c\<lparr>pending_data_frames := pending_data_frames c @ [(payload, src)]\<rparr>) w)
      else do {
        (p, w) \<leftarrow> chain_alloc (1 + length payload) w;
        case p of
          None \<Rightarrow> Some w
        | Some blob \<Rightarrow> do {
            w \<leftarrow> chain_store blob 0 payload w;
            client_push blob (length payload) src 1 w
          }
      })"

text \<open>\<open>process_wire_buffer\<close>: the frames that arrived together with the last authentication message.\<close>

definition client_buffer_frame :: "bytes \<Rightarrow> 'c cworld \<Rightarrow> 'c cworld option" where
  "client_buffer_frame body w =
     (let ty = hd body
      in if ty = WIRE_CONTROL then
           (if length body < 2 then Some w
            else case try_parse (drop 2 body) of
                   NoPacket \<Rightarrow> Some w
                 | ParseOutOfRange \<Rightarrow> None
                 | Parsed _ pkt \<Rightarrow> client_apply_control pkt w)
      else if ty = WIRE_DATA then client_dispatch (tl body) 1 w
      else Some w)"

fun client_buffer_frames :: "bytes list \<Rightarrow> 'c cworld \<Rightarrow> 'c cworld option" where
  "client_buffer_frames [] w = Some w"
| "client_buffer_frames (b # bs) w = Option.bind (client_buffer_frame b w) (client_buffer_frames bs)"

definition client_process_wire_buffer :: "bytes \<Rightarrow> 'c cworld \<Rightarrow> 'c cworld option" where
  "client_process_wire_buffer data w =
     client_buffer_frames (fst (decode_all (length data) next_frame data)) w"

section \<open>The end of the authentication\<close>

text \<open>The identifiers of the configured modules; \<open>None\<close> when one of them is not loaded.\<close>

fun module_mids :: "('c, 'k) bases \<Rightarrow> ModuleSpec list \<Rightarrow> string list option" where
  "module_mids B [] = Some []"
| "module_mids B (m # ms) =
     (case B (ms_name m) of
        None \<Rightarrow> None
      | Some b \<Rightarrow> map_option (\<lambda>mids. mb_mid b # mids) (module_mids B ms))"

definition request_modules :: "'c ClientSetup \<Rightarrow> Client \<Rightarrow> Client" where
  "request_modules P c =
     (case module_mids (cs_bases P) (c_modules c) of
        None \<Rightarrow> client_fail c
      | Some mids \<Rightarrow>
          (client_send_control (make_msg MSG_MODULE_LIST_REQ (module_list_payload mids)) c)
            \<lparr>c_st := CL_AWAIT_MODULE_LIST_RES\<rparr>)"

text \<open>The first data connection is the socket the authentication went over.\<close>

definition primary_connection :: "Client \<Rightarrow> Client" where
  "primary_connection c =
     (let c = client_send_packet (make_msg MSG_AUTH_OK [1]) c;
          c = c\<lparr>c_data_connections := vec_resize 1 dc_new (c_data_connections c)\<rparr>
      in client_register_reader 0 (c_upd_dc 0 (\<lambda>dc. dc\<lparr>dc_fd := tcp_fd c\<rparr>) c))"

definition client_auth2_challenge :: "'c ClientSetup \<Rightarrow> Packet \<Rightarrow> 'c cworld \<Rightarrow> 'c cworld option" where
  "client_auth2_challenge P pkt w =
     (let c = snd w
      in if string_of (pkt_payload pkt) \<noteq> hex_sha256 (cs_sha256 P) (client_challenge c @ c_password c)
         then Some (in_client client_fail w)
         else do {
           (ch, c) \<leftarrow> chain_new (cs_bases P) client_kapi (cs_order P) (clock (c_env c)) (c_chain_config c)
                        (chain_empty\<lparr>oom := cs_oom P, rands := cs_rands P\<rparr>, c);
           if total_extra_outputs ch > MAX_WIRE_CONNECTIONS then Some (Some ch, client_fail c)
           else do {
             let w = (Some (set_pause_callback 1 (set_pause_callback 0 ch)), primary_connection c);
             w \<leftarrow> (if c_recv_buf (snd w) = [] then Some w
                    else map_option (in_client (\<lambda>c. c\<lparr>c_recv_buf := []\<rparr>))
                           (client_process_wire_buffer (c_recv_buf (snd w)) w));
             Some (in_client (request_modules P) w)
           }
         })"

section \<open>\<open>on_server_data\<close>\<close>

definition client_message :: "'c ClientSetup \<Rightarrow> Packet \<Rightarrow> 'c cworld \<Rightarrow> 'c cworld option" where
  "client_message P pkt w =
     (let ty = pkt_type pkt; s = c_st (snd w); run = (\<lambda>g. Some (if s = CL_RUNNING then in_client g w else w))
      in if ty = MSG_AUTH_CHALLENGE
           then Some (if s = CL_AWAIT_AUTH1_CHALLENGE then in_client (handle_auth1_challenge P pkt) w else w)
      else if ty = MSG_AUTH_OK
           then Some (if s = CL_AWAIT_AUTH1_OK then in_client (handle_auth1_ok pkt) w else w)
      else if ty = MSG_AUTH_RESPONSE
           then (if s = CL_AWAIT_AUTH2_OK then client_auth2_challenge P pkt w else Some w)
      else if ty = MSG_CONNECT_OK
           then Some (if s = CL_AWAIT_CHAIN_READY \<or> s = CL_RUNNING then in_client (handle_connect_ok pkt) w else w)
      else if ty = MSG_CONNECT_FAIL
           then Some (if s = CL_AWAIT_CHAIN_READY \<or> s = CL_RUNNING then in_client (handle_connect_fail pkt) w else w)
      else if ty = MSG_DISCONNECT
           then Some (if s \<noteq> CL_DISCONNECTED then in_client (client_handle_disconnect pkt) w else w)
      else if ty = MSG_WRITER_PAUSE then run (handle_writer_pause pkt)
      else if ty = MSG_WRITER_RESUME then run (handle_writer_resume pkt)
      else if ty = MSG_CHAIN_PAUSE then run handle_chain_pause
      else if ty = MSG_CHAIN_RESUME then run handle_chain_resume
      else Some w)"

partial_function (option) server_data_loop :: "'c ClientSetup \<Rightarrow> 'c cworld \<Rightarrow> 'c cworld option" where
  "server_data_loop U w =
     (case try_parse (c_recv_buf (snd w)) of
        NoPacket \<Rightarrow> Some w
      | ParseOutOfRange \<Rightarrow> None
      | Parsed n pkt \<Rightarrow>
          Option.bind (client_message U pkt (in_client (\<lambda>c. c\<lparr>c_recv_buf := drop n (c_recv_buf c)\<rparr>) w))
            (\<lambda>w. if fst w = None then server_data_loop U w else Some w))"

declare server_data_loop.simps [code]

definition on_server_data :: "'c ClientSetup \<Rightarrow> bytes \<Rightarrow> 'c cworld \<Rightarrow> 'c cworld option" where
  "on_server_data P data w = server_data_loop P (in_client (\<lambda>c. c\<lparr>c_recv_buf := c_recv_buf c @ data\<rparr>) w)"

text \<open>The callback of \<open>start\<close>.\<close>

definition on_server_in :: "'c ClientSetup \<Rightarrow> fd \<Rightarrow> u32 \<Rightarrow> 'c cworld \<Rightarrow> 'c cworld option" where
  "on_server_in P f events w =
     (if events AND EPOLLIN = 0 then Some w
      else case sys_read f 4096 (c_env (snd w)) of
        (ReadData d, E) \<Rightarrow> on_server_data P d (in_client (\<lambda>c. c\<lparr>c_env := E\<rparr>) w)
      | (ReadAgain, E) \<Rightarrow> Some (in_client (\<lambda>c. c\<lparr>c_env := E\<rparr>) w)
      | (_, E) \<Rightarrow> Some (in_client (\<lambda>c. client_fail (c\<lparr>c_env := E\<rparr>)) w))"

end
