(* ===== verification/Client_Loop.thy ===== *)
theory Client_Loop
  imports Client
begin

unbundle bit_operations_syntax

text \<open>
  \<open>src/client/client.cpp\<close>, the entry points: the frames of a data connection, the work of every tick
  (\<open>check_heartbeat\<close>, \<open>process_pending_io\<close>), \<open>start\<close> and \<open>stop\<close>.
\<close>

section \<open>Reading a data connection\<close>

type_synonym 'c kworld = "ControlRecv \<times> 'c cworld"

definition c_upd_conn :: "nat \<Rightarrow> (DataConnection \<Rightarrow> DataConnection) \<Rightarrow> 'c kworld \<Rightarrow> 'c kworld" where
  "c_upd_conn idx g d = (fst d, in_client (c_upd_dc idx g) (snd d))"

definition c_conn_at :: "nat \<Rightarrow> 'c kworld \<Rightarrow> DataConnection" where
  "c_conn_at idx d = c_data_connections (snd (snd d)) ! idx"

definition client_recv_heartbeat :: "nat \<Rightarrow> byte \<Rightarrow> 'c kworld \<Rightarrow> 'c kworld option" where
  "client_recv_heartbeat idx ty d =
     (if ty = WIRE_HEARTBEAT_PING
      then map_option (\<lambda>c. (fst d, fst (snd d), client_ensure_out idx c))
             (client_dc_write idx [1, WIRE_HEARTBEAT_PONG] (snd (snd d)))
      else Some d)"

definition recv_shutdown_ack :: "byte \<Rightarrow> Client \<Rightarrow> Client" where
  "recv_shutdown_ack cid c =
     (case map_of (conns c) cid of
        None \<Rightarrow> c
      | Some x \<Rightarrow>
          (let c = upd_ext cid (\<lambda>x. x\<lparr>x_shutting_down_wr := True\<rparr>) c
           in if \<not> wb_empty (x_writer x) \<and> \<not> registered (x_writer x)
              then register_external_epollout cid (x_fd x) c else c))"

text \<open>
  As for the session, the length of a control frame without a number wraps around, which is taken as undefined.
\<close>

definition client_recv_control :: "bytes \<Rightarrow> 'c kworld \<Rightarrow> 'c kworld option" where
  "client_recv_control body d =
     (if length body < 2 then None
      else case try_parse (drop 2 body) of
             NoPacket \<Rightarrow> Some d
           | ParseOutOfRange \<Rightarrow> None
           | Parsed _ pkt \<Rightarrow> deliver_control client_apply_control (body ! 1) pkt (fst d) (snd d))"

definition client_recv_data :: "nat \<Rightarrow> bytes \<Rightarrow> 'c kworld \<Rightarrow> 'c kworld option" where
  "client_recv_data idx body d =
     (let seq = le16 (body ! 1) (body ! 2); (okay, dc) = dc_accept seq (c_conn_at idx d);
          d = c_upd_conn idx (\<lambda>_. dc) d
      in do {
        w \<leftarrow> (if okay then client_dispatch (drop 3 body) (int idx + 1) (snd d) else Some (snd d));
        Some (fst d, in_client (\<lambda>c. client_ensure_out idx (c_upd_dc idx (dc_send_ack seq) c)) w)
      })"

text \<open>
  One round of the frame loop: \<open>None\<close> when a byte outside the buffer is read, else whether the loop goes on.
  The acknowledgement branch may read bytes behind the frame: \<open>rest\<close> is what the buffer holds from the
  frame's type byte on.
\<close>

definition client_data_step :: "nat \<Rightarrow> 'c kworld \<Rightarrow> (bool \<times> 'c kworld) option" where
  "client_data_step idx d =
     (let dc = c_conn_at idx d; ptr = drop (dc_read_offset dc) (read_buf dc)
      in case scan_frame ptr of
           FrameStop \<Rightarrow> Some (False, d)
         | FrameOverflow \<Rightarrow> Some (False, c_upd_conn idx clear_buffer d)
         | FrameAt pos val \<Rightarrow>
             (let body = take val (drop pos ptr); rest = drop pos ptr; ty = hd body;
                  skip = map_option (\<lambda>d. (True, c_upd_conn idx (skip_bytes (pos + val)) d))
              in if ty = WIRE_HEARTBEAT_PING \<or> ty = WIRE_HEARTBEAT_PONG then skip (client_recv_heartbeat idx ty d)
              else if ty = WIRE_SHUTDOWN_WR_ACK then
                (if val < 2 then Some (False, c_upd_conn idx clear_buffer d)
                 else skip (Some (fst d, in_client (recv_shutdown_ack (body ! 1)) (snd d))))
              else if ty = WIRE_SHUTDOWN_WR then skip (Some d)
              else if ty = WIRE_CONTROL then skip (client_recv_control body d)
              else if ty = WIRE_DATA_ACK then
                (if length rest < 3 then None
                 else skip (Some (c_upd_conn idx (dc_ack (le16 (rest ! 1) (rest ! 2))) d)))
              else if ty > WIRE_DATA_ACK
              then Some (False, (fst d, in_client c_stop (snd (c_upd_conn idx clear_buffer d))))
              else if val < 3 then skip (Some d)
              else skip (client_recv_data idx body d)))"

partial_function (option) client_data_loop :: "nat \<Rightarrow> 'c kworld \<Rightarrow> 'c kworld option" where
  "client_data_loop idx d =
     Option.bind (client_data_step idx d) (\<lambda>(go_on, d). if go_on then client_data_loop idx d else Some d)"

declare client_data_loop.simps [code]

text \<open>
  The reading part of the callback.  The buffer is made longer by \<open>MAX_PACKET_SIZE\<close> zeros before the \<open>read\<close>, and
  cut back only when the \<open>read\<close> returned something.
\<close>

definition client_conn_read :: "nat \<Rightarrow> 'c kworld \<Rightarrow> 'c kworld option" where
  "client_conn_read idx d =
     (let dc = c_conn_at idx d
      in case sys_read (dc_fd dc) MAX_PACKET_SIZE (c_env (snd (snd d))) of
           (ReadData bs, E) \<Rightarrow>
             map_option (c_upd_conn idx trim_buffer)
               (client_data_loop idx
                  (fst d, in_client (\<lambda>c. c_upd_dc idx (\<lambda>dc. dc\<lparr>read_buf := read_buf dc @ bs\<rparr>)
                     (c\<lparr>c_env := E, c_last_activity := clock E, c_heartbeating := False\<rparr>)) (snd d)))
         | (_, E) \<Rightarrow>
             Some (c_upd_conn idx (\<lambda>dc. dc\<lparr>read_buf := read_buf dc @ replicate MAX_PACKET_SIZE 0\<rparr>)
                     (fst d, in_client (\<lambda>c. c\<lparr>c_env := E\<rparr>) (snd d))))"

definition client_conn_hangup :: "nat \<Rightarrow> Client \<Rightarrow> Client" where
  "client_conn_hangup idx c =
     (if idx = 0 then c_stop c
      else let c = c_upd_dc idx (\<lambda>dc. dc\<lparr>dc_fd := -1\<rparr>) (c_drop_fd (dc_fd (c_data_connections c ! idx)) c)
           in c\<lparr>reconnect_pending := (reconnect_pending c)(idx := True)\<rparr>)"

definition client_data_in :: "nat \<Rightarrow> u32 \<Rightarrow> 'c kworld \<Rightarrow> 'c kworld option" where
  "client_data_in idx events d =
     (if length (c_data_connections (snd (snd d))) \<le> idx then None
      else do {
        d \<leftarrow> (if events AND EPOLLIN \<noteq> 0 then client_conn_read idx d else Some d);
        Some (if events AND (EPOLLERR OR EPOLLHUP) \<noteq> 0
              then (fst d, in_client (client_conn_hangup idx) (snd d)) else d)
      })"

section \<open>The tick\<close>

text \<open>Connect requests that have not been answered in time are taken back.\<close>

fun expire_requests :: "PendingConn list \<Rightarrow> Client \<Rightarrow> Client" where
  "expire_requests [] c = c\<lparr>pending_ext := []\<rparr>"
| "expire_requests (pc # pcs) c =
     (if clock (c_env c) - pe_created_at pc > PENDING_TIMEOUT_MS
      then expire_requests pcs (c_close (pe_fd pc) (client_send_control (make_msg MSG_CONNECT_CANCEL [pe_req_id pc]) c))
      else c\<lparr>pending_ext := pc # pcs\<rparr>)"

definition client_buffered :: "Client \<Rightarrow> u64" where
  "client_buffered c = fold (\<lambda>dc n. n + wb_size (dc_writer dc)) (c_data_connections c) 0"

definition client_overflow_gate :: "Client \<Rightarrow> Client" where
  "client_overflow_gate c =
     (let n = client_buffered c
      in if 1048576 < n then
           (if c_dc_paused c then c
            else for_conns (\<lambda>x. x\<lparr>x_overflow_paused := True\<rparr>) ext_stop_reading (c\<lparr>c_dc_paused := True\<rparr>))
         else if n < 262144 \<and> c_dc_paused c
         then for_conns (\<lambda>x. x\<lparr>x_overflow_paused := False\<rparr>) ext_resume_reading (c\<lparr>c_dc_paused := False\<rparr>)
         else c)"

text \<open>The frames that have not been acknowledged are written again, all of them.\<close>

fun resend_frames :: "fd \<Rightarrow> millis \<Rightarrow> PendingFrame list \<Rightarrow> WriteBuffer \<Rightarrow> os
   \<Rightarrow> (PendingFrame list \<times> WriteBuffer \<times> os) option" where
  "resend_frames f now [] b w = Some ([], b, w)"
| "resend_frames f now (pf # pfs) b w = do {
     (_, b, w) \<leftarrow> wb_write f (pf_frame pf) b w;
     (pfs, b, w) \<leftarrow> resend_frames f now pfs b w;
     Some (pf\<lparr>sent_at := now\<rparr> # pfs, b, w)
   }"

definition set_pending_flag :: "nat \<Rightarrow> bool \<Rightarrow> Client \<Rightarrow> Client" where
  "set_pending_flag i v c = c\<lparr>reconnect_pending := (reconnect_pending c)(i := v)\<rparr>"

definition redial :: "nat \<Rightarrow> Client \<Rightarrow> Client option" where
  "redial i c =
     (case dial i (set_pending_flag i False c) of
        (None, c) \<Rightarrow> Some (set_pending_flag i True c)
      | (Some f, c) \<Rightarrow> do {
          let c = c_upd_dc i (\<lambda>dc. dc\<lparr>dc_fd := f, dc_writer := wb_clear (dc_writer dc)\<rparr>) c;
          let c = client_register_reader i c;
          let dc = c_data_connections c ! i;
          (pfs, b, w) \<leftarrow> resend_frames f (clock (c_env c)) (unacked dc) (dc_writer dc) (osys (c_env c));
          let c = c_set_os w (c_upd_dc i (\<lambda>dc. dc\<lparr>unacked := pfs, dc_writer := b\<rparr>) c);
          Some (if wb_size b > 0 then client_register_data_out i f c else c)
        })"

fun redial_all :: "nat list \<Rightarrow> Client \<Rightarrow> Client option" where
  "redial_all [] c = Some c"
| "redial_all (i # is) c = Option.bind (if reconnect_pending c i then redial i c else Some c) (redial_all is)"

fun client_retransmit_all :: "nat list \<Rightarrow> Client \<Rightarrow> Client option" where
  "client_retransmit_all [] c = Some c"
| "client_retransmit_all (i # is) c =
     (let dc = c_data_connections c ! i
      in if dc_fd dc < 0 then client_retransmit_all is c
         else Option.bind (dc_retransmit (clock (c_env c)) dc (osys (c_env c)))
                (\<lambda>(dc, w). client_retransmit_all is (c_set_os w (c_upd_dc i (\<lambda>_. dc) c))))"

definition client_pause_debounce :: "bool \<Rightarrow> Client \<Rightarrow> Client" where
  "client_pause_debounce bp1 c =
     (let now = clock (c_env c); local_sent = list_ex (\<lambda>(_, x). x_local_chain_sent x) (conns c);
          mark = (\<lambda>b c. c\<lparr>conns := map (apsnd (\<lambda>x. x\<lparr>x_local_chain_sent := b\<rparr>)) (conns c)\<rparr>)
      in if bp1 then
           (let since = (case c_bp1_since c of None \<Rightarrow> now | Some t \<Rightarrow> t); c = c\<lparr>c_bp1_since := Some since\<rparr>
            in if \<not> local_sent \<and> now - since \<ge> 50 then client_send_chain_pause (mark True c) else c)
         else
           (let c = c\<lparr>c_bp1_since := None\<rparr>
            in if local_sent then client_send_chain_resume (mark False c) else c))"

definition ext_gate_flag :: "bool \<Rightarrow> ExternalConn \<Rightarrow> ExternalConn" where
  "ext_gate_flag bp0 x = (if x_fd x < 0 then x else x\<lparr>x_epollin_removed := ext_paused x \<or> bp0\<rparr>)"

definition ext_gate_reading :: "bool \<Rightarrow> ExternalConn \<Rightarrow> client_handler Kernel \<Rightarrow> client_handler Kernel" where
  "ext_gate_reading bp0 x K =
     (if x_fd x < 0 then K
      else if ext_paused x \<or> bp0
      then (if x_epollin_removed x then K else mod_fd_events (x_fd x) 0 EPOLLIN K)
      else (if x_epollin_removed x then mod_fd_events (x_fd x) EPOLLIN 0 K else K))"

definition client_gate :: "bool \<Rightarrow> Client \<Rightarrow> Client" where
  "client_gate bp0 c =
     c_kernel (fold (\<lambda>(cid, x). ext_gate_reading bp0 x) (conns c))
       (c\<lparr>conns := map (apsnd (ext_gate_flag bp0)) (conns c)\<rparr>)"

text \<open>
  The cleaning up of disconnected connections: \<open>kept\<close> are the ids that stay in the list because their
  writer is not empty yet.
\<close>

fun clean_up :: "byte list \<Rightarrow> byte list \<Rightarrow> Client \<Rightarrow> Client option" where
  "clean_up kept [] c = Some (c\<lparr>pending_disconnect_ids := rev kept\<rparr>)"
| "clean_up kept (cid # cids) c =
     (case map_of (conns c) cid of
        None \<Rightarrow> clean_up kept cids c
      | Some x \<Rightarrow> do {
          (b, w) \<leftarrow> map_option snd (wb_flush (x_fd x) (x_writer x) (osys (c_env c)));
          let c = c_set_os w (upd_ext cid (\<lambda>x. x\<lparr>x_writer := b\<rparr>) c);
          if wb_empty b then clean_up kept cids (ext_shut (x_fd x) (ext_erase cid c))
          else clean_up (cid # kept) cids
                 (if registered b then c
                  else c_kernel (add_fd_handler (x_fd x) (CDrainOut cid) EPOLLOUT)
                         (upd_ext cid (\<lambda>x. x\<lparr>x_writer := (x_writer x)\<lparr>registered := True\<rparr>\<rparr>) c))
        })"

definition on_drain_out :: "byte \<Rightarrow> u32 \<Rightarrow> Client \<Rightarrow> Client option" where
  "on_drain_out cid events c =
     (if events AND EPOLLOUT \<noteq> 0 \<and> map_of (conns c) cid = None then Some c
      else do {
        c \<leftarrow> (case (if events AND EPOLLOUT \<noteq> 0 then map_of (conns c) cid else None) of
                 None \<Rightarrow> Some c
               | Some x \<Rightarrow> do {
                   (b, w) \<leftarrow> map_option snd (wb_flush (x_fd x) (x_writer x) (osys (c_env c)));
                   let c = c_set_os w (upd_ext cid (\<lambda>x. x\<lparr>x_writer := b\<rparr>) c);
                   Some (if wb_empty b
                         then c_kernel (mod_fd_events (x_fd x) 0 EPOLLOUT)
                                (upd_ext cid (\<lambda>x. x\<lparr>x_writer := (x_writer x)\<lparr>registered := False\<rparr>\<rparr>) c)
                         else c)
                 });
        Some (if events AND (EPOLLERR OR EPOLLHUP) \<noteq> 0 then ext_erase cid c else c)
      })"

definition client_process_pending_io :: "'c cworld \<Rightarrow> 'c cworld option" where
  "client_process_pending_io w = do {
     let c = client_overflow_gate (expire_requests (pending_ext (snd w)) (snd w));
     c \<leftarrow> redial_all [1..<length (c_data_connections c)] c;
     c \<leftarrow> client_retransmit_all [0..<length (c_data_connections c)] c;
     let c = fold run_cio (c_pending_io c) (c\<lparr>c_pending_io := []\<rparr>);
     let w = (fst w, c);
     let bp0 = bp_paused 0 w;
     let bp1 = bp_paused 1 w;
     let c = client_gate bp0 (client_pause_debounce bp1 c);
     if pending_disconnect_ids c \<noteq> [] \<and> chain_quiet w
     then map_option (\<lambda>c. (fst w, c)) (clean_up [] (pending_disconnect_ids c) c)
     else Some (fst w, c)
   }"

section \<open>Heartbeats\<close>

fun client_ping_all :: "nat list \<Rightarrow> Client \<Rightarrow> Client option" where
  "client_ping_all [] c = Some c"
| "client_ping_all (i # is) c =
     (if dc_fd (c_data_connections c ! i) < 0 then client_ping_all is c
      else Option.bind (client_dc_write i [1, WIRE_HEARTBEAT_PING] c)
             (\<lambda>c. client_ping_all is (client_ensure_out i c)))"

definition client_check_heartbeat :: "'c ClientSetup \<Rightarrow> 'c cworld \<Rightarrow> 'c cworld option" where
  "client_check_heartbeat P w =
     (let c = snd w; idle = clock (c_env c) - c_last_activity c; hb = c_heartbeat_ms c
      in if c_st c \<noteq> CL_RUNNING then Some w
         else if idle > hb * 2 then Some (in_client c_stop w)
         else do {
           c \<leftarrow> (if idle > hb \<and> \<not> c_heartbeating c
                  then client_ping_all [0..<length (c_data_connections c)] (c\<lparr>c_heartbeating := True\<rparr>) else Some c);
           case fst w of
             None \<Rightarrow> Some (None, c)
           | Some ch \<Rightarrow> map_option (\<lambda>(ch, c). (Some ch, c))
               (check_module_heartbeats (cs_bases P) client_kapi hb (clock (c_env c)) (ch, c))
         })"

text \<open>The tick callback; it is set when the authentication is complete, that is, when there is a chain.\<close>

definition client_tick :: "'c ClientSetup \<Rightarrow> 'c kworld \<Rightarrow> 'c kworld option" where
  "client_tick P d =
     (if fst (snd d) = None then Some d
      else map_option (\<lambda>w. (fst d, w))
             (Option.bind (client_check_heartbeat P (snd d)) client_process_pending_io))"

section \<open>Callbacks, start and stop\<close>

fun client_call :: "'c ClientSetup \<Rightarrow> client_handler \<Rightarrow> fd \<Rightarrow> u32 \<Rightarrow> 'c kworld \<Rightarrow> 'c kworld option" where
  "client_call P CServer f e d = map_option (\<lambda>w. (fst d, w)) (on_server_in P f e (snd d))"
| "client_call P (CDataIn idx) f e d = client_data_in idx e d"
| "client_call P (CDataOut idx) f e d =
     map_option (\<lambda>c. (fst d, fst (snd d), c)) (client_data_out idx e (snd (snd d)))"
| "client_call P CListen f e d = Some (fst d, in_client (on_client_listen e) (snd d))"
| "client_call P (CExt cid) f e d = map_option (\<lambda>w. (fst d, w)) (on_ext_in cid f e (snd d))"
| "client_call P (CExtOut cid) f e d =
     map_option (\<lambda>c. (fst d, fst (snd d), c)) (on_ext_out cid e (snd (snd d)))"
| "client_call P (CDrainOut cid) f e d =
     map_option (\<lambda>c. (fst d, fst (snd d), c)) (on_drain_out cid e (snd (snd d)))"

text \<open>\<open>connect_to_server\<close>: \<open>socket\<close> and a blocking \<open>connect\<close>.\<close>

definition connect_to_server :: "Client \<Rightarrow> bool \<times> Client" where
  "connect_to_server c =
     (case sys_socket_connect (c_env c) of
        (None, E) \<Rightarrow> (False, c\<lparr>c_env := E, tcp_fd := -1\<rparr>)
      | (Some (f, a), E) \<Rightarrow>
          if a = ConnOk then (True, c\<lparr>c_env := E, tcp_fd := f\<rparr>)
          else (False, (c_close f (c\<lparr>c_env := E\<rparr>))\<lparr>tcp_fd := -1\<rparr>))"

text \<open>\<open>Client::start\<close> up to the event loop, and the loop.\<close>

definition client_open :: "Client \<Rightarrow> bool \<times> Client" where
  "client_open c =
     (let (okay, c) = connect_to_server c
      in if \<not> okay then (False, c)
         else (True, c_kernel (add_fd_handler (tcp_fd c) CServer EPOLLIN) (c\<lparr>c_st := CL_AWAIT_AUTH1_CHALLENGE\<rparr>)))"

definition client_loop_run :: "'c ClientSetup \<Rightarrow> wait_answer list \<Rightarrow> 'c kworld \<Rightarrow> (bool \<times> 'c kworld) option" where
  "client_loop_run P answers d =
     kernel_start (\<lambda>d. kern (c_env (snd (snd d)))) (\<lambda>K d. (fst d, in_client (c_kernel (\<lambda>_. K)) (snd d)))
       (client_call P) (client_tick P) answers d"

definition stop_listener :: "Client \<Rightarrow> Client" where
  "stop_listener c =
     (let c = (if 0 \<le> c_listen_fd c then (c_close (c_listen_fd c) c)\<lparr>c_listen_fd := -1\<rparr> else c)
      in (fold (\<lambda>(cid, x). ext_shut (x_fd x)) (conns c) c)\<lparr>conns := []\<rparr>)"

text \<open>\<open>Client::stop\<close>, after which the chain has been cancelled and drained (\<open>chain_destroy\<close>).\<close>

definition client_stop :: "Client \<Rightarrow> Client" where
  "client_stop c =
     (let c = stop_listener c;
          c = (fold (\<lambda>dc c. if 0 \<le> dc_fd dc then c_drop_fd (dc_fd dc) c else c) (tl (c_data_connections c)) c)
                \<lparr>c_data_connections := []\<rparr>;
          c = c_kernel kernel_stop c
      in if 0 \<le> tcp_fd c then (c_close (tcp_fd c) c)\<lparr>tcp_fd := -1\<rparr> else c)"

text \<open>A setting for examples: no modules, and a digest that copies its input.\<close>

definition demo_client_setup :: "unit ClientSetup" where
  "demo_client_setup = \<lparr>cs_bases = (\<lambda>_. None), cs_order = (\<lambda>x. x), cs_oom = [], cs_rands = [],
     cs_sha256 = su_sha256 demo_setup\<rparr>"

end
