(* ===== verification/Ends_Alike.thy ===== *)
theory Ends_Alike
  imports Client_Loop
begin

unbundle bit_operations_syntax

text \<open>
  The client and the session have each their own copy of the code that works on the data connections.  Here both
  copies are run side by side: from states that agree on the data connections, the counters, the sockets and
  the kernel (up to the names of the callbacks) every operation leads to states that agree again.
\<close>

section \<open>The relation\<close>

definition alike_entry :: "'h FdState \<Rightarrow> 'g FdState \<Rightarrow> bool" where
  "alike_entry a b \<longleftrightarrow> fd_events a = fd_events b \<and> (in_cb a = None \<longleftrightarrow> in_cb b = None)
     \<and> (out_cb a = None \<longleftrightarrow> out_cb b = None)"

definition alike_kernel :: "'h Kernel \<Rightarrow> 'g Kernel \<Rightarrow> bool" where
  "alike_kernel K L \<longleftrightarrow> (\<forall>f. rel_option alike_entry (fd_to_handler K f) (fd_to_handler L f))
     \<and> fd_open K = fd_open L \<and> epoll_set K = epoll_set L"

definition ends_alike :: "Client \<Rightarrow> Session \<Rightarrow> bool" where
  "ends_alike c s \<longleftrightarrow> c_data_connections c = data_connections s \<and> c_control_seq c = control_seq s
     \<and> c_control_rr c = control_rr_counter s \<and> osys (c_env c) = osys (env s)
     \<and> clock (c_env c) = clock (env s) \<and> alike_kernel (kern (c_env c)) (kern (env s))"

lemma alike_add:
  assumes "alike_kernel K L"
  shows "alike_kernel (add_fd_handler f h e K) (add_fd_handler f g e L)"
proof -
  let ?a = "case fd_to_handler K f of Some s \<Rightarrow> s | None \<Rightarrow> fd_state_empty"
  let ?b = "case fd_to_handler L f of Some s \<Rightarrow> s | None \<Rightarrow> fd_state_empty"
  have rel: "rel_option alike_entry (fd_to_handler K x) (fd_to_handler L x)" for x
    using assms by (simp add: alike_kernel_def)
  have ab: "alike_entry ?a ?b"
    using rel [of f] by (cases "fd_to_handler K f"; cases "fd_to_handler L f")
      (simp_all add: alike_entry_def fd_state_empty_def)
  then have ev: "fd_events ?a = fd_events ?b" by (simp add: alike_entry_def)
  have same: "fd_open K = fd_open L" "epoll_set K = epoll_set L" using assms by (simp_all add: alike_kernel_def)
  have "fd_open (add_fd_handler f h e K) = fd_open (add_fd_handler f g e L)"
    using same by (simp add: add_fd_handler_def epoll_add_def epoll_mod_def Let_def)
  moreover have "epoll_set (add_fd_handler f h e K) = epoll_set (add_fd_handler f g e L)"
    using same ev by (simp add: add_fd_handler_def epoll_add_def epoll_mod_def Let_def)
  moreover have "rel_option alike_entry (fd_to_handler (add_fd_handler f h e K) x) (fd_to_handler (add_fd_handler f g e L) x)" for x
    using rel [of x] ab by (auto simp: add_fd_handler_table alike_entry_def Let_def)
  ultimately show ?thesis by (simp add: alike_kernel_def)
qed

lemma alike_mod:
  assumes "alike_kernel K L"
  shows "alike_kernel (mod_fd_events f a r K) (mod_fd_events f a r L)"
proof -
  have rel: "rel_option alike_entry (fd_to_handler K x) (fd_to_handler L x)" for x
    using assms by (simp add: alike_kernel_def)
  show ?thesis
  proof (cases "fd_to_handler K f")
    case None
    then have "fd_to_handler L f = None" using rel [of f] by (cases "fd_to_handler L f") simp_all
    then show ?thesis using None assms by (simp add: mod_fd_events_def)
  next
    case (Some x)
    then obtain y where y: "fd_to_handler L f = Some y" "alike_entry x y"
      using rel [of f] by (cases "fd_to_handler L f") simp_all
    then show ?thesis
      using Some assms
      by (auto simp: mod_fd_events_def alike_kernel_def alike_entry_def epoll_del_def epoll_add_def epoll_mod_def Let_def)
  qed
qed

lemma alike_del: "alike_kernel K L \<Longrightarrow> alike_kernel (del_fd f K) (del_fd f L)"
  by (simp add: alike_kernel_def del_fd_def epoll_del_def Let_def)

lemma alike_wakeup:
  "alike_kernel K L \<Longrightarrow> alike_kernel (wakeup K) L" "alike_kernel K L \<Longrightarrow> alike_kernel K (wakeup L)"
  by (simp_all add: alike_kernel_def wakeup_def)

section \<open>One operation\<close>

named_theorems alike_intros

lemmas ends_defs = ends_alike_def c_kernel_def c_upd_env_def c_upd_dc_def c_set_os_def upd_kernel_def upd_env_def
  upd_dc_def set_os_def upd_kern_def

lemma alike_upd_dc [alike_intros]: "ends_alike c s \<Longrightarrow> ends_alike (c_upd_dc i g c) (upd_dc i g s)"
  by (simp add: ends_defs)

lemma alike_set_os [alike_intros]: "ends_alike c s \<Longrightarrow> ends_alike (c_set_os w c) (set_os w s)"
  by (simp add: ends_defs)

lemma alike_kernels [alike_intros]:
  "ends_alike c s \<Longrightarrow> (\<And>K L. alike_kernel K L \<Longrightarrow> alike_kernel (g K) (h L)) \<Longrightarrow> ends_alike (c_kernel g c) (upd_kernel h s)"
  by (simp add: ends_defs)

lemma alike_register [alike_intros]:
  assumes "ends_alike c s"
  shows "ends_alike (client_register_data_out i f c) (register_data_conn_epollout i f s)"
  using assms by (auto simp: client_register_data_out_def register_data_conn_epollout_def ends_alike_def [of c s]
      intro!: alike_intros alike_add)

lemma alike_control_on:
  "ends_alike c s \<Longrightarrow> ends_alike (client_send_control_on b n is c) (send_control_on b n is s)"
proof (induction "is" arbitrary: c s)
  case (Cons i "is")
  have eq: "c_data_connections c = data_connections s" using Cons.prems by (simp add: ends_alike_def)
  show ?case using Cons eq by (auto simp: Let_def intro!: alike_intros)
qed simp

lemma alike_send_control [alike_intros]:
  assumes "ends_alike c s"
  shows "ends_alike (client_send_control p c) (send_control p s)"
proof -
  have eq: "c_data_connections c = data_connections s" "c_control_seq c = control_seq s" "c_control_rr c = control_rr_counter s"
    using assms by (simp_all add: ends_alike_def)
  have "ends_alike (c\<lparr>c_control_seq := a, c_control_rr := b\<rparr>) (s\<lparr>control_seq := a, control_rr_counter := b\<rparr>)"
    "ends_alike (c\<lparr>c_control_seq := a\<rparr>) (s\<lparr>control_seq := a\<rparr>)" for a b
    using assms by (simp_all add: ends_alike_def)
  then show ?thesis
    using eq by (simp add: client_send_control_def send_control_def Let_def alike_control_on)
qed

abbreviation alike_results :: "Client option \<Rightarrow> Session option \<Rightarrow> bool" where
  "alike_results \<equiv> rel_option ends_alike"

lemma alike_dc_write [alike_intros]:
  assumes "ends_alike c s"
  shows "alike_results (client_dc_write i data c) (dc_write i data s)"
proof -
  have eq: "c_data_connections c = data_connections s" "osys (c_env c) = osys (env s)"
    using assms by (simp_all add: ends_alike_def)
  show ?thesis
    using assms unfolding client_dc_write_def dc_write_def Let_def eq
    by (cases "wb_write (dc_fd (data_connections s ! i)) data (dc_writer (data_connections s ! i)) (osys (env s))")
      (auto intro!: alike_set_os alike_upd_dc)
qed

lemma alike_dc_flush:
  assumes "ends_alike c s"
  shows "rel_option (rel_prod (=) ends_alike) (client_dc_flush i c) (dc_flush i s)"
proof -
  have eq: "c_data_connections c = data_connections s" "osys (c_env c) = osys (env s)"
    using assms by (simp_all add: ends_alike_def)
  show ?thesis
    using assms unfolding client_dc_flush_def dc_flush_def Let_def eq
    by (cases "wb_flush (dc_fd (data_connections s ! i)) (dc_writer (data_connections s ! i)) (osys (env s))")
      (auto intro!: alike_set_os alike_upd_dc)
qed

lemma alike_ensure_out [alike_intros]:
  assumes "ends_alike c s"
  shows "ends_alike (client_ensure_out i c) (dc_ensure_epollout i s)"
proof -
  have "c_data_connections c = data_connections s" using assms by (simp add: ends_alike_def)
  then show ?thesis using assms by (simp add: client_ensure_out_def dc_ensure_epollout_def Let_def alike_intros)
qed

lemma alike_ping_all:
  "ends_alike c s \<Longrightarrow> alike_results (client_ping_all is c) (ping_all is s)"
proof (induction "is" arbitrary: c s)
  case (Cons i "is")
  have eq: "c_data_connections c = data_connections s" using Cons.prems by (simp add: ends_alike_def)
  show ?case
  proof (cases "dc_write i [1, WIRE_HEARTBEAT_PING] s")
    case None
    then have "client_dc_write i [1, WIRE_HEARTBEAT_PING] c = None"
      using alike_dc_write [OF Cons.prems, of i "[1, WIRE_HEARTBEAT_PING]"] by simp
    then show ?thesis using Cons eq None by simp
  next
    case (Some s1)
    then obtain c1 where "client_dc_write i [1, WIRE_HEARTBEAT_PING] c = Some c1" "ends_alike c1 s1"
      using alike_dc_write [OF Cons.prems, of i "[1, WIRE_HEARTBEAT_PING]"] by (auto simp: option_rel_Some2)
    then show ?thesis using Cons eq Some by (simp add: alike_intros)
  qed
qed simp

lemma alike_retransmit_all:
  "ends_alike c s \<Longrightarrow> alike_results (client_retransmit_all is c) (retransmit_all is s)"
proof (induction "is" arbitrary: c s)
  case (Cons i "is")
  have eq: "c_data_connections c = data_connections s" "osys (c_env c) = osys (env s)" "clock (c_env c) = clock (env s)"
    using Cons.prems by (simp_all add: ends_alike_def)
  show ?case
    using Cons eq
    by (cases "dc_retransmit (clock (env s)) (data_connections s ! i) (osys (env s))")
      (auto simp: Let_def intro!: Cons.IH alike_intros)
qed simp

lemma alike_bind:
  "rel_option R a b \<Longrightarrow> (\<And>x y. R x y \<Longrightarrow> rel_option Q (g x) (h y)) \<Longrightarrow> rel_option Q (Option.bind a g) (Option.bind b h)"
  by (cases a; cases b) simp_all

lemma alike_flushed:
  assumes "ends_alike c s"
  shows "ends_alike
      (if wb_empty (dc_writer (c_data_connections c ! i))
       then c_kernel (mod_fd_events (dc_fd (c_data_connections c ! i)) 0 EPOLLOUT)
              (c_upd_dc i (\<lambda>dc. dc\<lparr>dc_writer := (dc_writer dc)\<lparr>registered := False\<rparr>\<rparr>) c) else c)
      (if wb_empty (dc_writer (data_connections s ! i))
       then upd_kernel (mod_fd_events (dc_fd (data_connections s ! i)) 0 EPOLLOUT)
              (upd_dc i (\<lambda>dc. dc\<lparr>dc_writer := (dc_writer dc)\<lparr>registered := False\<rparr>\<rparr>) s) else s)"
  using assms by (auto simp: ends_alike_def [of c s] intro!: alike_kernels alike_upd_dc alike_mod)

lemma alike_flush_round:
  assumes "ends_alike c s"
  shows "alike_results (client_flush_round i c) (flush_round i s)"
proof -
  have twice: "alike_results (if r then Some a else map_option snd (client_dc_flush i a))
      (if r then Some b else map_option snd (dc_flush i b))" if "ends_alike a b" for a b r
    using alike_dc_flush [OF that, of i] that by (cases "client_dc_flush i a"; cases "dc_flush i b") auto
  show ?thesis
    unfolding client_flush_round_def flush_round_def Let_def
  proof (rule alike_bind [OF alike_dc_flush [OF assms]])
    fix x :: "bool \<times> Client" and y :: "bool \<times> Session"
    assume "rel_prod (=) ends_alike x y"
    then obtain r a b where xy: "x = (r, a)" "y = (r, b)" and ab: "ends_alike a b" by (cases x; cases y) auto
    show "alike_results
        (case x of (dr, c) \<Rightarrow> do {
           c \<leftarrow> (if dr then Some c else map_option snd (client_dc_flush i c));
           Some (if wb_empty (dc_writer (c_data_connections c ! i))
                 then c_kernel (mod_fd_events (dc_fd (c_data_connections c ! i)) 0 EPOLLOUT)
                        (c_upd_dc i (\<lambda>dc. dc\<lparr>dc_writer := (dc_writer dc)\<lparr>registered := False\<rparr>\<rparr>) c) else c)})
        (case y of (dr, s) \<Rightarrow> do {
           s \<leftarrow> (if dr then Some s else map_option snd (dc_flush i s));
           Some (if wb_empty (dc_writer (data_connections s ! i))
                 then upd_kernel (mod_fd_events (dc_fd (data_connections s ! i)) 0 EPOLLOUT)
                        (upd_dc i (\<lambda>dc. dc\<lparr>dc_writer := (dc_writer dc)\<lparr>registered := False\<rparr>\<rparr>) s) else s)})"
      unfolding xy prod.case by (rule alike_bind [OF twice [OF ab]]) (simp only: option.rel_inject(2) alike_flushed)
  qed
qed

lemma dc_flush_length: "dc_flush i b = Some (r, y) \<Longrightarrow> length (data_connections y) = length (data_connections b)"
  by (auto simp: dc_flush_def Let_def set_os_def upd_env_def upd_dc_def split: bind_splits)

lemma flush_round_length: "flush_round i b = Some y \<Longrightarrow> length (data_connections y) = length (data_connections b)"
  by (auto simp: flush_round_def Let_def upd_kernel_def upd_env_def upd_dc_def dest!: dc_flush_length
      split: bind_splits if_splits)

lemma alike_data_out:
  assumes "ends_alike c s"
  shows "alike_results (client_data_out i e c) (on_data_out i f e s)"
proof (cases "length (data_connections s) \<le> i")
  case True
  then show ?thesis using assms by (simp add: client_data_out_def on_data_out_def ends_alike_def)
next
  case False
  let ?a = "if e AND EPOLLOUT \<noteq> 0 then client_flush_round i c else Some c"
  let ?b = "if e AND EPOLLOUT \<noteq> 0 \<and> i < length (data_connections s) then flush_round i s else Some s"
  have len: "c_data_connections c = data_connections s" using assms by (simp add: ends_alike_def)
  have rel: "alike_results ?a ?b" using False assms alike_flush_round [OF assms, of i] by simp
  have out: "i < length (data_connections y)" if "?b = Some y" for y
    using that False flush_round_length by (auto split: if_splits)
  show ?thesis
  proof (cases ?b)
    case None
    then have "?a = None" using rel by (cases ?a) simp_all
    then show ?thesis using None False len unfolding client_data_out_def on_data_out_def by simp
  next
    case (Some y)
    then obtain x where x: "?a = Some x" "ends_alike x y" using rel by (cases ?a) simp_all
    have c: "client_data_out i e c = Some (if e AND (EPOLLERR OR EPOLLHUP) \<noteq> 0
        then c_upd_dc i (\<lambda>dc. dc\<lparr>dc_writer := wb_clear (dc_writer dc)\<rparr>) x else x)"
      unfolding client_data_out_def x(1) using False len by simp
    have s: "on_data_out i f e s = Some (if e AND (EPOLLERR OR EPOLLHUP) \<noteq> 0
        then upd_dc i (\<lambda>dc. dc\<lparr>dc_writer := wb_clear (dc_writer dc)\<rparr>) y else y)"
      unfolding on_data_out_def Some using out [OF Some] by simp
    show ?thesis unfolding c s using alike_upd_dc [OF x(2)] x(2) by simp
  qed
qed

lemma alike_payload:
  assumes "ends_alike c s"
  shows "alike_results (map_option snd (client_wire_write (int i + 1) data c)) (map_option snd (wire_write (int i + 1) data s))"
proof -
  have eq: "c_data_connections c = data_connections s" "osys (c_env c) = osys (env s)" "clock (c_env c) = clock (env s)"
    using assms by (simp_all add: ends_alike_def)
  have io: "ends_alike (c_kernel wakeup (c_push_io ps a)) (if q then push_pio x b else if r then push_pio y b else b)"
    if "ends_alike a b" for ps a b q r x y
    using that by (simp add: ends_defs c_push_io_def push_pio_def alike_wakeup)
  show ?thesis
  proof (cases "int (length (data_connections s)) < int i + 1 \<or> dc_fd (data_connections s ! i) < 0")
    case True
    then show ?thesis
      using assms eq by (auto simp: client_wire_write_def wire_write_def client_wire_data_def wire_write_data_def)
  next
    case False
    show ?thesis
    proof (cases "dc_send data (clock (env s)) (data_connections s ! i) (osys (env s))")
      case None
      then show ?thesis
        using False eq by (simp add: client_wire_write_def wire_write_def client_wire_data_def wire_write_data_def)
    next
      case (Some r)
      obtain ret dc w where r: "r = (ret, dc, w)" by (cases r)
      have "ends_alike (c_set_os w (c_upd_dc i (\<lambda>_. dc) c)) (set_os w (upd_dc i (\<lambda>_. dc) s))"
        using assms by (intro alike_set_os alike_upd_dc)
      from io [OF this, of "if ret > 0 then [CioDataOut i, CioLog i] else [CioLog i]" "ret > 0"
          "PioDataOut i (dc_fd (data_connections s ! i))" "ret < 0" "PioDataFail i"]
      show ?thesis
        using False eq Some r
        by (simp add: client_wire_write_def wire_write_def client_wire_data_def wire_write_data_def Let_def)
    qed
  qed
qed

section \<open>Runs\<close>

text \<open>
  The operations on data connections that both ends have: a control message, heartbeats, the retransmission,
  a write event, a payload from the chain, an acknowledgement and a data frame from the other end.
\<close>

datatype wire_op = WControl Packet | WPing | WRetransmit | WFlush nat u32 | WPayload nat bytes | WAck nat u16 | WData nat u16

fun client_wire_op :: "wire_op \<Rightarrow> Client \<Rightarrow> Client option" where
  "client_wire_op (WControl p) c = Some (client_send_control p c)"
| "client_wire_op WPing c = client_ping_all [0..<length (c_data_connections c)] c"
| "client_wire_op WRetransmit c = client_retransmit_all [0..<length (c_data_connections c)] c"
| "client_wire_op (WFlush i e) c = client_data_out i e c"
| "client_wire_op (WPayload i d) c = map_option snd (client_wire_write (int i + 1) d c)"
| "client_wire_op (WAck i q) c = Some (c_upd_dc i (dc_ack q) c)"
| "client_wire_op (WData i q) c = Some (client_ensure_out i (c_upd_dc i (\<lambda>dc. dc_send_ack q (snd (dc_accept q dc))) c))"

fun session_wire_op :: "wire_op \<Rightarrow> Session \<Rightarrow> Session option" where
  "session_wire_op (WControl p) s = Some (send_control p s)"
| "session_wire_op WPing s = ping_all [0..<length (data_connections s)] s"
| "session_wire_op WRetransmit s = retransmit_all [0..<length (data_connections s)] s"
| "session_wire_op (WFlush i e) s = on_data_out i (dc_fd (data_connections s ! i)) e s"
| "session_wire_op (WPayload i d) s = map_option snd (wire_write (int i + 1) d s)"
| "session_wire_op (WAck i q) s = Some (upd_dc i (dc_ack q) s)"
| "session_wire_op (WData i q) s = Some (dc_ensure_epollout i (upd_dc i (\<lambda>dc. dc_send_ack q (snd (dc_accept q dc))) s))"

fun run_ops :: "('o \<Rightarrow> 's \<Rightarrow> 's option) \<Rightarrow> 'o list \<Rightarrow> 's \<Rightarrow> 's option" where
  "run_ops step [] s = Some s"
| "run_ops step (a # as) s = Option.bind (step a s) (run_ops step as)"

lemma alike_step:
  assumes "ends_alike c s"
  shows "alike_results (client_wire_op a c) (session_wire_op a s)"
proof -
  have len: "length (c_data_connections c) = length (data_connections s)" using assms by (simp add: ends_alike_def)
  show ?thesis
  proof (cases a)
    case (WData i q)
    then show ?thesis
      using alike_ensure_out [OF alike_upd_dc [OF assms], of i i "\<lambda>dc. dc_send_ack q (snd (dc_accept q dc))"] by simp
  qed (use assms len in \<open>simp_all add: alike_send_control alike_ping_all alike_retransmit_all alike_data_out alike_payload
      alike_upd_dc\<close>)
qed



end
