(* ===== verification/Client_Auth.thy ===== *)
theory Client_Auth
  imports Client_Loop Session_Auth
begin

unbundle bit_operations_syntax

text \<open>
  The authentication as the client sees it: it does not start its tunnel for a server that does not prove that
  it knows the password.
\<close>

section \<open>What a client can meet before it is authenticated\<close>

text \<open>\<open>Sent\<close>: bytes from the server; \<open>Gone\<close>: the end of the stream or an error.\<close>

datatype server_input = Sent bytes | Gone

fun client_step :: "'c ClientSetup \<Rightarrow> server_input \<Rightarrow> 'c cworld \<Rightarrow> 'c cworld option" where
  "client_step P (Sent data) w = on_server_data P data w"
| "client_step P Gone w = Some (in_client client_fail w)"

fun client_steps :: "'c ClientSetup \<Rightarrow> server_input list \<Rightarrow> 'c cworld \<Rightarrow> 'c cworld option" where
  "client_steps P [] w = Some w"
| "client_steps P (a # as) w = Option.bind (client_step P a w) (client_steps P as)"

fun server_bytes :: "server_input list \<Rightarrow> bytes" where
  "server_bytes [] = []"
| "server_bytes (Sent data # as) = data @ server_bytes as"
| "server_bytes (Gone # as) = server_bytes as"

section \<open>The invariant\<close>

definition client_idle :: "'c cworld \<Rightarrow> bool" where
  "client_idle w \<longleftrightarrow> fst w = None \<and> c_data_connections (snd w) = [] \<and> conns (snd w) = []"

definition server_answer :: "'c ClientSetup \<Rightarrow> string \<Rightarrow> string \<Rightarrow> bytes" where
  "server_answer P ch pw = bytes_of (hex_sha256 (cs_sha256 P) (ch @ pw))"

definition client_waiting :: "string \<Rightarrow> string \<Rightarrow> bytes \<Rightarrow> 'c cworld \<Rightarrow> bool" where
  "client_waiting ch pw stream w \<longleftrightarrow> client_idle w \<and> c_password (snd w) = pw
     \<and> (c_st (snd w) = CL_DISCONNECTED
        \<or> c_st (snd w) \<in> {CL_AWAIT_AUTH1_CHALLENGE, CL_AWAIT_AUTH1_OK} \<and> client_new_challenge (snd w) = ch
        \<or> c_st (snd w) = CL_AWAIT_AUTH2_OK \<and> client_challenge (snd w) = ch)
     \<and> (\<exists>a. stream = a @ c_recv_buf (snd w))"

definition client_guarded :: "'c ClientSetup \<Rightarrow> string \<Rightarrow> string \<Rightarrow> bytes \<Rightarrow> 'c cworld \<Rightarrow> bool" where
  "client_guarded P ch pw stream w \<longleftrightarrow>
     contains (server_answer P ch pw) stream \<or> client_waiting ch pw stream w"

lemmas client_frame = client_send_packet_def c_set_os_def c_upd_env_def client_fail_def c_stop_def c_kernel_def
  in_client_def client_idle_def

lemma client_message_guarded:
  assumes "client_message P pkt w = Some w'" and "client_waiting ch pw stream w" and "contains (pkt_payload pkt) stream"
  shows "client_guarded P ch pw stream w'"
proof -
  let ?c = "snd w"
  have idle: "client_idle w" using assms(2) by (simp add: client_waiting_def)
  have same: "client_guarded P ch pw stream w" using assms(2) by (simp add: client_guarded_def)
  have fail: "client_guarded P ch pw stream (in_client client_fail w)"
    using assms(2) by (auto simp: client_guarded_def client_waiting_def client_frame)
  have a1: "client_guarded P ch pw stream (in_client (handle_auth1_challenge P pkt) w)"
    if "c_st ?c = CL_AWAIT_AUTH1_CHALLENGE"
    using assms(2) that
    by (auto simp: client_guarded_def client_waiting_def handle_auth1_challenge_def client_new_challenge_def client_frame Let_def)
  have a2: "client_guarded P ch pw stream (in_client (handle_auth1_ok pkt) w)" if "c_st ?c = CL_AWAIT_AUTH1_OK"
    using assms(2) that fail
    by (auto simp: client_guarded_def client_waiting_def handle_auth1_ok_def client_new_challenge_def client_frame Let_def)
  have a3: "client_guarded P ch pw stream w'"
    if "c_st ?c = CL_AWAIT_AUTH2_OK" "client_auth2_challenge P pkt w = Some w'"
  proof (cases "string_of (pkt_payload pkt) = hex_sha256 (cs_sha256 P) (ch @ pw)")
    case True
    then have "pkt_payload pkt = server_answer P ch pw"
      unfolding server_answer_def by (metis bytes_of_string_of)
    then show ?thesis using assms(3) by (simp add: client_guarded_def)
  next
    case False
    moreover have "client_challenge ?c = ch" "c_password ?c = pw" using assms(2) that(1) by (auto simp: client_waiting_def)
    ultimately show ?thesis using that(2) fail by (simp add: client_auth2_challenge_def)
  qed
  have dis: "in_client (client_handle_disconnect pkt) w = w"
    using idle by (cases w) (simp add: in_client_def client_idle_def client_handle_disconnect_def split: list.splits)
  have "c_st ?c \<noteq> CL_RUNNING" "c_st ?c \<noteq> CL_AWAIT_CHAIN_READY" using assms(2) by (auto simp: client_waiting_def)
  then show ?thesis
    using assms(1) same a1 a2 a3 dis by (auto simp: client_message_def Let_def split: if_splits)
qed

lemma client_take_off:
  assumes "client_waiting ch pw stream w"
  shows "client_waiting ch pw stream (in_client (\<lambda>c. c\<lparr>c_recv_buf := drop n (c_recv_buf c)\<rparr>) w)"
proof -
  obtain a where "stream = a @ c_recv_buf (snd w)" using assms by (auto simp: client_waiting_def)
  then have "stream = (a @ take n (c_recv_buf (snd w))) @ drop n (c_recv_buf (snd w))" by simp
  then have "\<exists>a. stream = a @ drop n (c_recv_buf (snd w))" by (rule exI)
  then show ?thesis
    using assms by (auto simp: client_waiting_def in_client_def client_idle_def client_new_challenge_def)
qed

lemma server_data_loop_guarded:
  assumes "server_data_loop P w = Some w'"
  shows "client_waiting ch pw stream w \<longrightarrow> client_guarded P ch pw stream w'"
proof (rule server_data_loop.raw_induct [where P = "\<lambda>P w w'. client_waiting ch pw stream w \<longrightarrow>
    client_guarded P ch pw stream w'", OF _ assms], intro impI)
  fix loop P w w'
  assume IH: "\<And>P w w'. loop P w = Some w' \<Longrightarrow> client_waiting ch pw stream w \<longrightarrow> client_guarded P ch pw stream w'"
    and run: "(case try_parse (c_recv_buf (snd w)) of NoPacket \<Rightarrow> Some w | ParseOutOfRange \<Rightarrow> None
        | Parsed n pkt \<Rightarrow> client_message P pkt (in_client (\<lambda>c. c\<lparr>c_recv_buf := drop n (c_recv_buf c)\<rparr>) w) \<bind>
            (\<lambda>w. if fst w = None then loop P w else Some w)) = Some w'"
    and wait: "client_waiting ch pw stream w"
  show "client_guarded P ch pw stream w'"
  proof (cases "try_parse (c_recv_buf (snd w))")
    case NoPacket
    then show ?thesis using run wait by (simp add: client_guarded_def)
  next
    case (Parsed n pkt)
    let ?w = "in_client (\<lambda>c. c\<lparr>c_recv_buf := drop n (c_recv_buf c)\<rparr>) w"
    from run Parsed obtain w1 where w1: "client_message P pkt ?w = Some w1"
      and rest: "(if fst w1 = None then loop P w1 else Some w1) = Some w'"
      by (auto split: bind_splits)
    obtain a where a: "stream = a @ c_recv_buf (snd w)" using wait by (auto simp: client_waiting_def)
    then have part: "contains (pkt_payload pkt) stream"
      using parsed_payload_part [OF Parsed] by (simp add: contains_append2)
    from client_message_guarded [OF w1 client_take_off [OF wait] part] have "client_guarded P ch pw stream w1" .
    then show ?thesis
      using rest IH [of P w1 w'] by (auto simp: client_guarded_def split: if_splits)
  qed (use run in simp)
qed

lemma client_step_guarded:
  assumes "client_step P a w = Some w'" and "client_guarded P ch pw stream w"
  shows "client_guarded P ch pw (stream @ server_bytes [a]) w'"
proof (cases "contains (server_answer P ch pw) stream")
  case True
  then show ?thesis by (simp add: client_guarded_def contains_append1)
next
  case False
  then have wait: "client_waiting ch pw stream w" using assms(2) by (simp add: client_guarded_def)
  show ?thesis
  proof (cases a)
    case (Sent data)
    let ?w = "in_client (\<lambda>c. c\<lparr>c_recv_buf := c_recv_buf c @ data\<rparr>) w"
    have "client_waiting ch pw (stream @ data) ?w"
      using wait by (auto simp: client_waiting_def in_client_def client_idle_def client_new_challenge_def)
    moreover have "server_data_loop P ?w = Some w'" using assms(1) Sent by (simp add: on_server_data_def)
    ultimately show ?thesis using server_data_loop_guarded [of P ?w w' ch pw "stream @ data"] Sent by simp
  next
    case Gone
    then show ?thesis
      using assms(1) wait by (auto simp: client_guarded_def client_waiting_def client_frame)
  qed
qed

lemma client_steps_guarded:
  "client_steps P ops w = Some w' \<Longrightarrow> client_guarded P ch pw stream w \<Longrightarrow> client_guarded P ch pw (stream @ server_bytes ops) w'"
proof (induction ops arbitrary: w stream)
  case (Cons a ops)
  then obtain w1 where w1: "client_step P a w = Some w1" "client_steps P ops w1 = Some w'"
    by (auto split: bind_splits)
  have "server_bytes (a # ops) = server_bytes [a] @ server_bytes ops" by (cases a) simp_all
  with Cons.IH [OF w1(2) client_step_guarded [OF w1(1) Cons.prems(2)]] show ?case by simp
qed simp

section \<open>Properties\<close>

text \<open>
  C5: whatever a server sends, in whatever pieces: unless the bytes it sent contain the right answer to the client's
  own challenge, the client has no chain and no data connection, serves no external connection, and is still waiting
  for the authentication or disconnected.
\<close>

theorem client_needs_server_proof:
  assumes "client_steps P ops (None, c) = Some w" and "c_st c = CL_AWAIT_AUTH1_CHALLENGE"
    and "c_data_connections c = []" and "conns c = []" and "c_recv_buf c = []"
  shows "(\<exists>a b. server_bytes ops = a @ bytes_of (hex_sha256 (cs_sha256 P) (client_new_challenge c @ c_password c)) @ b)
    \<or> fst w = None \<and> c_data_connections (snd w) = [] \<and> conns (snd w) = []
      \<and> c_st (snd w) \<in> {CL_AWAIT_AUTH1_CHALLENGE, CL_AWAIT_AUTH1_OK, CL_AWAIT_AUTH2_OK, CL_DISCONNECTED}"
proof -
  have "client_guarded P (client_new_challenge c) (c_password c) [] (None, c)"
    using assms(2-5) by (simp add: client_guarded_def client_waiting_def client_idle_def)
  from client_steps_guarded [OF assms(1) this] show ?thesis
    by (auto simp: client_guarded_def contains_def client_waiting_def client_idle_def server_answer_def)
qed

definition demo_client :: Client where
  "demo_client = (client_new ''pw'' 0 ''t:1'' [] 30000 (env_new\<lparr>osys := os_with [Wrote 1000, Wrote 1000, Wrote 1000]\<rparr>))
     \<lparr>c_st := CL_AWAIT_AUTH1_CHALLENGE, tcp_fd := 6, c_rands := [5]\<rparr>"

theorem client_needs_server_proof_witness:
  "\<exists>w. client_steps demo_client_setup [Sent (serialize (make_msg MSG_AUTH_CHALLENGE [55])),
         Sent (serialize (make_msg MSG_AUTH_OK [1])), Sent (serialize (make_msg MSG_AUTH_RESPONSE [49]))] (None, demo_client) = Some w
     \<and> fst w = None \<and> c_data_connections (snd w) = [] \<and> conns (snd w) = []
     \<and> c_st (snd w) \<in> {CL_AWAIT_AUTH1_CHALLENGE, CL_AWAIT_AUTH1_OK, CL_AWAIT_AUTH2_OK, CL_DISCONNECTED}"
proof -
  let ?ops = "[Sent (serialize (make_msg MSG_AUTH_CHALLENGE [55])),
         Sent (serialize (make_msg MSG_AUTH_OK [1])), Sent (serialize (make_msg MSG_AUTH_RESPONSE [49]))]"
  let ?ans = "bytes_of (hex_sha256 (cs_sha256 demo_client_setup) (client_new_challenge demo_client @ c_password demo_client))"
  have "\<not> Option.is_none (client_steps demo_client_setup ?ops (None, demo_client))" by code_simp
  then obtain w where w: "client_steps demo_client_setup ?ops (None, demo_client) = Some w" by (auto simp: Option.is_none_def)
  have "length (hex_sha256 (cs_sha256 demo_client_setup) (client_new_challenge demo_client @ c_password demo_client)) = 64"
    by code_simp
  moreover have "length (server_bytes ?ops) < 64" by code_simp
  ultimately have "length (server_bytes ?ops) \<noteq> length (a @ ?ans @ b)" for a b by simp
  then have "\<not> (\<exists>a b. server_bytes ?ops = a @ ?ans @ b)" by metis
  moreover have "c_st demo_client = CL_AWAIT_AUTH1_CHALLENGE" "c_data_connections demo_client = []" "conns demo_client = []"
      "c_recv_buf demo_client = []" by (simp_all add: demo_client_def client_new_def)
  ultimately show ?thesis using client_needs_server_proof [OF w] w by blast
qed

end
