(* ===== verification/Client_Props.thy ===== *)
theory Client_Props
  imports Client_Loop Write_Buffer
begin

unbundle bit_operations_syntax

text \<open>
  Properties of the client on its own: what a new connection to the server carries when an old one is replaced, and what
  the end of a data connection does to it.
\<close>

section \<open>Sending again\<close>

lemma no_error_io_ext: "io_ext f w out w' \<Longrightarrow> no_error w \<Longrightarrow> no_error w'"
  by (auto simp: io_ext_def no_error_def)

lemma resend_frames_spec:
  assumes "wb_inv b" and "prio_pending b = []" and "no_error w" and "\<forall>pf\<in>set pfs. pf_frame pf \<noteq> []"
  shows "\<exists>pfs' b' w'. resend_frames f now pfs b w = Some (pfs', b', w') \<and> wb_inv b' \<and> prio_pending b' = [] \<and> no_error w'
    \<and> registered b' = registered b \<and> fd_stream f w' @ data_pending b' = fd_stream f w @ data_pending b @ concat (map pf_frame pfs)
    \<and> pfs' = map (\<lambda>pf. pf\<lparr>sent_at := now\<rparr>) pfs"
  using assms
proof (induction pfs arbitrary: b w)
  case (Cons pf pfs)
  obtain ret b1 w1 where w1: "wb_write f (pf_frame pf) b w = Some (ret, b1, w1)" "written f (pf_frame pf) b w ret b1 w1"
    using wb_write_spec [OF Cons.prems(1), of "pf_frame pf" f w] Cons.prems(4) by auto
  obtain out d p where out: "io_ext f w out w1" "out \<in> shuffles d p" "[] = p @ prio_pending b1"
      "data_pending b @ pf_frame pf = d @ data_pending b1" "wb_inv b1" "registered b1 = registered b"
    using w1(2) Cons.prems(2,3) by (auto simp: written_def split: if_splits)
  then have p: "out = d" "prio_pending b1 = []" by auto
  have stream: "fd_stream f w1 = fd_stream f w @ d" using out(1) p(1) by (simp add: io_ext_def)
  obtain b' w' where "resend_frames f now pfs b1 w1 = Some (map (\<lambda>pf. pf\<lparr>sent_at := now\<rparr>) pfs, b', w')" "wb_inv b'"
      "prio_pending b' = []" "no_error w'" "registered b' = registered b1"
      "fd_stream f w' @ data_pending b' = fd_stream f w1 @ data_pending b1 @ concat (map pf_frame pfs)"
    using Cons.IH [OF out(5) p(2) no_error_io_ext [OF out(1) Cons.prems(3)]] Cons.prems(4) by auto
  then show ?case using w1(1) stream out(4,6) by simp
qed simp

lemma dialled:
  assumes "dial i c = (Some f, c')"
  obtains w as where "c' = c\<lparr>c_env := (c_env c)\<lparr>sock_answers := as, kern := fd_appears f (kern (c_env c)), osys := w\<rparr>\<rparr>"
    "fd_stream f w = fd_stream f (osys (c_env c)) @ greeting (c_session_id c) i" "0 \<le> f"
    "no_error (osys (c_env c)) \<Longrightarrow> no_error w"
proof -
  obtain as where as: "sys_socket_connect (c_env c) = (Some (f, ConnOk), upd_kern (fd_appears f) ((c_env c)\<lparr>sock_answers := as\<rparr>))"
      "0 \<le> f"
    and w: "fst (sys_write f (greeting (c_session_id c) i) (osys (c_env c))) = WrOk 9"
      "c' = c\<lparr>c_env := (c_env c)\<lparr>sock_answers := as, kern := fd_appears f (kern (c_env c)),
        osys := snd (sys_write f (greeting (c_session_id c) i) (osys (c_env c)))\<rparr>\<rparr>"
    using assms
    by (auto simp: dial_def sys_socket_connect_def c_set_os_def c_upd_env_def upd_kern_def Let_def split_beta
        split: list.splits option.splits if_splits prod.splits)
  have len: "length (greeting (c_session_id c) i) = 9" by (simp add: greeting_def u64_bytes_def)
  let ?g = "greeting (c_session_id c) i"
  obtain n rest where ans: "wr_answers (osys (c_env c)) = Wrote n # rest" "max 1 (min n 9) = 9"
    using w(1) len by (cases "?g = []") (auto simp: sys_write_def Let_def split: list.splits wr_answer.splits)
  have sw: "snd (sys_write f ?g (osys (c_env c))) = (osys (c_env c))\<lparr>wr_answers := rest, sent := sent (osys (c_env c)) @ [(f, ?g)]\<rparr>"
    using ans len by (cases "?g = []") (auto simp: sys_write_def Let_def)
  show thesis
    by (rule that [OF w(2)]) (use as(2) ans(1) in \<open>simp_all add: sw fd_stream_def no_error_def\<close>)
qed

text \<open>A client after a successful \<open>dial\<close>, with the reader on the new descriptor.\<close>

lemma redial_result:
  assumes "dial i (set_pending_flag i False c) = (Some f, c1)" and "i < length (c_data_connections c)"
    and "no_error (osys (c_env c))" and "\<forall>pf\<in>set (unacked (c_data_connections c ! i)). pf_frame pf \<noteq> []"
  obtains c' b w K where "redial i c = Some c'" "osys (c_env c') = w"
    "c_data_connections c' = (c_data_connections c)[i := (c_data_connections c ! i)
       \<lparr>dc_fd := f, unacked := map (\<lambda>pf. pf\<lparr>sent_at := clock (c_env c)\<rparr>) (unacked (c_data_connections c ! i)), dc_writer := b\<rparr>]"
    "prio_pending b = []" "fd_stream f w @ data_pending b = fd_stream f (osys (c_env c)) @ greeting (c_session_id c) i
       @ concat (map pf_frame (unacked (c_data_connections c ! i)))"
    "registered (dc_writer (c_data_connections c ! i)) \<Longrightarrow>
       kern (c_env c') = add_fd_handler f (CDataIn i) EPOLLIN (fd_appears f (kern (c_env c)))"
proof -
  let ?dc = "c_data_connections c ! i"
  let ?b = "wb_clear (dc_writer ?dc)"
  have flag: "c_env (set_pending_flag i False c) = c_env c" "c_session_id (set_pending_flag i False c) = c_session_id c"
    by (simp_all add: set_pending_flag_def)
  obtain w as where d: "c1 = (set_pending_flag i False c)\<lparr>c_env := (c_env c)\<lparr>sock_answers := as, kern := fd_appears f (kern (c_env c)), osys := w\<rparr>\<rparr>"
      "fd_stream f w = fd_stream f (osys (c_env c)) @ greeting (c_session_id c) i" "0 \<le> f" "no_error w"
    using dialled [OF assms(1), unfolded flag] assms(3) by metis
  have inv: "wb_inv ?b" "prio_pending ?b = []" "data_pending ?b = []"
    by (rule wb_inv_clear) (simp_all add: wb_clear_def prio_pending_def data_pending_def)
  obtain pfs b' w' where r0: "resend_frames f (clock (c_env c)) (unacked ?dc) ?b w = Some (pfs, b', w')" "prio_pending b' = []"
      "registered b' = registered ?b"
      "fd_stream f w' @ data_pending b' = fd_stream f w @ data_pending ?b @ concat (map pf_frame (unacked ?dc))"
      "pfs = map (\<lambda>pf. pf\<lparr>sent_at := clock (c_env c)\<rparr>) (unacked ?dc)"
    using resend_frames_spec [OF inv(1,2) d(4) assms(4), of f "clock (c_env c)"] by blast
  have r: "resend_frames f (clock (c_env c)) (unacked ?dc) ?b w
        = Some (map (\<lambda>pf. pf\<lparr>sent_at := clock (c_env c)\<rparr>) (unacked ?dc), b', w')" "prio_pending b' = []"
      "fd_stream f w' @ data_pending b' = fd_stream f w @ concat (map pf_frame (unacked ?dc))" "registered b' = registered ?b"
    using r0(1-4) inv(3) unfolding r0(5) by simp_all
  let ?dc' = "?dc\<lparr>dc_fd := f, unacked := map (\<lambda>pf. pf\<lparr>sent_at := clock (c_env c)\<rparr>) (unacked ?dc), dc_writer := b'\<rparr>"
  let ?K = "add_fd_handler f (CDataIn i) EPOLLIN (fd_appears f (kern (c_env c)))"
  let ?c2 = "(set_pending_flag i False c)\<lparr>c_data_connections := (c_data_connections c)[i := ?dc'],
      c_env := (c_env c)\<lparr>sock_answers := as, kern := ?K, osys := w'\<rparr>\<rparr>"
  have red: "redial i c = Some (if wb_size b' > 0 then client_register_data_out i f ?c2 else ?c2)"
    using assms(1,2) d(1,3) r(1)
    by (simp add: redial_def set_pending_flag_def c_upd_dc_def client_register_reader_def c_kernel_def c_upd_env_def upd_kern_def
        c_set_os_def Let_def)
  have reg: "registered ?b = registered (dc_writer ?dc)" by (simp add: wb_clear_def)
  show thesis
  proof (cases "wb_size b' > 0 \<and> \<not> registered b'")
    case True
    let ?c3 = "?c2\<lparr>c_data_connections := (c_data_connections c)[i := ?dc'\<lparr>dc_writer := b'\<lparr>registered := True\<rparr>\<rparr>],
      c_env := (c_env ?c2)\<lparr>kern := add_fd_handler f (CDataOut i) EPOLLOUT ?K\<rparr>\<rparr>"
    have "redial i c = Some ?c3"
      using red True assms(2)
      by (simp add: client_register_data_out_def c_upd_dc_def c_kernel_def c_upd_env_def upd_kern_def)
    then show thesis
      by (rule that [where b = "b'\<lparr>registered := True\<rparr>"])
        (use r d(2) True reg in \<open>simp_all add: prio_pending_def data_pending_def\<close>)
  next
    case False
    have "redial i c = Some ?c2" using red False assms(2) by (auto simp: client_register_data_out_def)
    then show thesis by (rule that [where b = b']) (use r d(2) in simp_all)
  qed
qed


section \<open>Properties\<close>

text \<open>
  C19: when the client replaces a broken data connection, the new socket carries the nine bytes of greeting for this session
  and connection and then every frame the server has not acknowledged, in their order; what the socket does not take at
  once is in the connection's buffer, behind it and with nothing in between.  The same frames stay remembered, and the
  control messages that were waiting in the old buffer are gone.
\<close>

theorem redial_resends_unacked:
  assumes "fst (dial i (set_pending_flag i False c)) = Some f" and "i < length (c_data_connections c)"
    and "no_error (osys (c_env c))" and "\<forall>pf\<in>set (unacked (c_data_connections c ! i)). pf_frame pf \<noteq> []"
  shows "\<exists>c' dc. redial i c = Some c' \<and> c_data_connections c' ! i = dc \<and> dc_fd dc = f
    \<and> fd_stream f (osys (c_env c')) @ data_pending (dc_writer dc)
        = fd_stream f (osys (c_env c)) @ greeting (c_session_id c) i @ concat (map pf_frame (unacked (c_data_connections c ! i)))
    \<and> map pf_frame (unacked dc) = map pf_frame (unacked (c_data_connections c ! i)) \<and> prio_pending (dc_writer dc) = []"
proof -
  obtain c1 where "dial i (set_pending_flag i False c) = (Some f, c1)" using assms(1) by (metis prod.collapse)
  from redial_result [OF this assms(2-4)] obtain c' b w where
    "redial i c = Some c'" "osys (c_env c') = w"
    "c_data_connections c' = (c_data_connections c)[i := (c_data_connections c ! i)
       \<lparr>dc_fd := f, unacked := map (\<lambda>pf. pf\<lparr>sent_at := clock (c_env c)\<rparr>) (unacked (c_data_connections c ! i)), dc_writer := b\<rparr>]"
    "prio_pending b = []" "fd_stream f w @ data_pending b = fd_stream f (osys (c_env c)) @ greeting (c_session_id c) i
       @ concat (map pf_frame (unacked (c_data_connections c ! i)))" by blast
  then show ?thesis using assms(2) by (simp add: comp_def)
qed

definition broken_client :: "wr_answer list \<Rightarrow> Client" where
  "broken_client answers = (client_new ''pw'' 0 ''t:1'' [] 30000
      (env_new\<lparr>osys := os_with answers, sock_answers := [Some (8, ConnOk)]\<rparr>))
     \<lparr>c_st := CL_RUNNING, c_session_id := 77, c_data_connections := [dc_new\<lparr>dc_fd := 6\<rparr>,
        dc_new\<lparr>dc_writer := wb_new\<lparr>registered := True\<rparr>,
          unacked := [\<lparr>pf_seq = 3, pf_frame = data_frame 3 [1, 2], sent_at = 0\<rparr>]\<rparr>],
      reconnect_pending := (\<lambda>i. i = 1)\<rparr>"

lemma broken_client_dials:
  assumes "answers = Wrote 100 # rest"
  shows "\<exists>c1. dial 1 (set_pending_flag 1 False (broken_client answers)) = (Some 8, c1)"
  using assms
  by (simp add: dial_def broken_client_def client_new_def set_pending_flag_def sys_socket_connect_def env_new_def
      fd_appears_def upd_kern_def kernel_new_def sys_write_def greeting_def u64_bytes_def os_with_def Let_def)

theorem redial_resends_unacked_witness:
  "\<exists>c' dc. redial 1 (broken_client [Wrote 100, Wrote 2]) = Some c' \<and> c_data_connections c' ! 1 = dc \<and> dc_fd dc = 8
    \<and> fd_stream 8 (osys (c_env c')) @ data_pending (dc_writer dc) = greeting 77 1 @ data_frame 3 [1, 2]"
proof -
  let ?c = "broken_client [Wrote 100, Wrote 2]"
  have "fst (dial 1 (set_pending_flag 1 False ?c)) = Some 8" using broken_client_dials [of _ "[Wrote 2]"] by fastforce
  moreover have "1 < length (c_data_connections ?c)" by (simp add: broken_client_def)
  moreover have "no_error (osys (c_env ?c))" by (simp add: broken_client_def client_new_def no_error_def os_with_def)
  moreover have "\<forall>pf\<in>set (unacked (c_data_connections ?c ! 1)). pf_frame pf \<noteq> []"
    by (simp add: broken_client_def data_frame_def)
  ultimately have "\<exists>c' dc. redial 1 ?c = Some c' \<and> c_data_connections c' ! 1 = dc \<and> dc_fd dc = 8
    \<and> fd_stream 8 (osys (c_env c')) @ data_pending (dc_writer dc)
        = fd_stream 8 (osys (c_env ?c)) @ greeting (c_session_id ?c) 1 @ concat (map pf_frame (unacked (c_data_connections ?c ! 1)))
    \<and> map pf_frame (unacked dc) = map pf_frame (unacked (c_data_connections ?c ! 1)) \<and> prio_pending (dc_writer dc) = []"
    by (rule redial_resends_unacked)
  moreover have "fd_stream 8 (osys (c_env ?c)) = []" "c_session_id ?c = 77"
      "concat (map pf_frame (unacked (c_data_connections ?c ! 1))) = data_frame 3 [1, 2]"
    by (simp_all add: broken_client_def client_new_def os_with_def fd_stream_def)
  ultimately show ?thesis by auto
qed

text \<open>
  When the connection that broke was waiting to be written, the new one is not: the cleared buffer keeps its mark
  \<open>registered\<close>, so the new descriptor is watched for input only and nothing in the event loop writes out the rest.
\<close>

theorem redial_leaves_unwatched:
  assumes "fst (dial i (set_pending_flag i False c)) = Some f" and "i < length (c_data_connections c)"
    and "no_error (osys (c_env c))" and "\<forall>pf\<in>set (unacked (c_data_connections c ! i)). pf_frame pf \<noteq> []"
    and "registered (dc_writer (c_data_connections c ! i))" and "fd_to_handler (kern (c_env c)) f = None"
  shows "\<exists>c' x. redial i c = Some c' \<and> fd_to_handler (kern (c_env c')) f = Some x \<and> in_cb x = Some (CDataIn i) \<and> out_cb x = None"
proof -
  obtain c1 where "dial i (set_pending_flag i False c) = (Some f, c1)" using assms(1) by (metis prod.collapse)
  from redial_result [OF this assms(2-4)] obtain c' where c': "redial i c = Some c'"
    "kern (c_env c') = add_fd_handler f (CDataIn i) EPOLLIN (fd_appears f (kern (c_env c)))" using assms(5) by blast
  have "\<exists>x. fd_to_handler (add_fd_handler f h EPOLLIN (fd_appears f K)) f = Some x \<and> in_cb x = Some h \<and> out_cb x = None"
    if "fd_to_handler K f = None" for h :: client_handler and K
    using that by (auto simp: add_fd_handler_def fd_appears_def fd_state_empty_def epoll_add_def epoll_mod_def Let_def
        split: prod.splits option.splits ctl_error.splits)
  from this [OF assms(6), of "CDataIn i"] c' show ?thesis by auto
qed

theorem redial_leaves_unwatched_witness:
  "\<exists>c' x. redial 1 (broken_client [Wrote 100]) = Some c' \<and> fd_to_handler (kern (c_env c')) 8 = Some x
    \<and> in_cb x = Some (CDataIn 1) \<and> out_cb x = None"
proof (rule redial_leaves_unwatched)
  show "fst (dial 1 (set_pending_flag 1 False (broken_client [Wrote 100]))) = Some 8"
    using broken_client_dials [of _ "[]"] by fastforce
  show "\<forall>pf\<in>set (unacked (c_data_connections (broken_client [Wrote 100]) ! 1)). pf_frame pf \<noteq> []"
    by (simp add: broken_client_def data_frame_def)
qed (simp_all add: broken_client_def client_new_def no_error_def os_with_def env_new_def kernel_new_def)

fun read_events :: "nat \<Rightarrow> nat \<Rightarrow> 'c kworld \<Rightarrow> 'c kworld option" where
  "read_events 0 idx d = Some d"
| "read_events (Suc n) idx d = Option.bind (client_data_in idx EPOLLIN d) (read_events n idx)"

lemma read_event_eof:
  assumes "idx < length (c_data_connections c)"
    and "rd_answers (c_env c) (dc_fd (c_data_connections c ! idx)) = ReadEof # as"
  shows "client_data_in idx EPOLLIN (r, ch, c) = Some (r, ch, c
    \<lparr>c_env := (c_env c)\<lparr>rd_answers := (rd_answers (c_env c))(dc_fd (c_data_connections c ! idx) := as)\<rparr>,
     c_data_connections := (c_data_connections c)[idx := (c_data_connections c ! idx)
       \<lparr>read_buf := read_buf (c_data_connections c ! idx) @ replicate MAX_PACKET_SIZE 0\<rparr>]\<rparr>)"
  using assms
  by (simp add: client_data_in_def client_conn_read_def c_conn_at_def c_upd_conn_def in_client_def c_upd_dc_def sys_read_def Let_def)



end
