(* ===== verification/Tunnel.thy ===== *)
theory Tunnel
  imports Client_Auth Server_Props
begin

unbundle bit_operations_syntax

text \<open>
  Client and server together: the two ends of \<open>src/client\<close> and \<open>src/server\<close> run against each other, each
  reading what the other one has written.
\<close>

section \<open>A dialogue\<close>

text \<open>What a call has added to the stream of a descriptor.\<close>

definition new_output :: "fd \<Rightarrow> os \<Rightarrow> os \<Rightarrow> bytes" where
  "new_output f w w' = drop (length (fd_stream f w)) (fd_stream f w')"

definition client_turn :: "'c ClientSetup \<Rightarrow> bytes \<Rightarrow> 'c cworld \<Rightarrow> (bytes \<times> 'c cworld) option" where
  "client_turn P data w =
     map_option (\<lambda>w'. (new_output (tcp_fd (snd w)) (osys (c_env (snd w))) (osys (c_env (snd w'))), w'))
       (on_server_data P data w)"

definition session_turn :: "'c Setup \<Rightarrow> bytes \<Rightarrow> 'c sworld \<Rightarrow> (bytes \<times> 'c sworld) option" where
  "session_turn Q data v =
     map_option (\<lambda>v'. (new_output (client_fd (snd v)) (osys (env (snd v))) (osys (env (snd v'))), v'))
       (on_data Q data v)"

fun dialogue :: "'c ClientSetup \<Rightarrow> 'd Setup \<Rightarrow> nat \<Rightarrow> bytes \<Rightarrow> 'c cworld \<Rightarrow> 'd sworld
   \<Rightarrow> (bytes \<times> 'c cworld \<times> 'd sworld) option" where
  "dialogue P Q 0 b w v = Some (b, w, v)"
| "dialogue P Q (Suc n) b w v = do {
     (out, w) \<leftarrow> client_turn P b w;
     (back, v) \<leftarrow> session_turn Q out v;
     dialogue P Q n back w v
   }"

section \<open>Sockets that take what they are given\<close>

definition roomy :: "nat \<Rightarrow> os \<Rightarrow> bool" where
  "roomy k w \<longleftrightarrow> k \<le> length (wr_answers w) \<and> list_all (\<lambda>a. \<exists>n. a = Wrote n \<and> 2 ^ 33 \<le> n) (take k (wr_answers w))"

lemma roomy_write:
  assumes "roomy (Suc k) w" and "data \<noteq> []" and "length data < 2 ^ 33"
  shows "roomy k (snd (sys_write f data w))" and "new_output f w (snd (sys_write f data w)) = data"
proof -
  obtain n as where a: "wr_answers w = Wrote n # as" "2 ^ 33 \<le> n"
      "k \<le> length as" "list_all (\<lambda>a. \<exists>n. a = Wrote n \<and> 2 ^ 33 \<le> n) (take k as)"
    using assms(1) by (cases "wr_answers w") (auto simp: roomy_def)
  have "max 1 (min n (length data)) = length data"
    using a(2) assms(2,3) by (cases data) auto
  then have "sys_write f data w = (WrOk (length data), w\<lparr>wr_answers := as, sent := sent w @ [(f, data)]\<rparr>)"
    using a(1) assms(2) by (simp add: sys_write_def Let_def)
  then show "roomy k (snd (sys_write f data w))" "new_output f w (snd (sys_write f data w)) = data"
    using a(3,4) by (simp_all add: roomy_def new_output_def fd_stream_def)
qed

lemma new_output_none [simp]: "new_output f w w = []"
  by (simp add: new_output_def)

lemma serialize_sizes:
  assumes "length (pkt_payload p) < 2 ^ 32"
  shows "serialize p \<noteq> []" and "length (serialize p) < 2 ^ 33"
  using assms write_varint_length10 [of "ucast (pkt_type p)"] write_varint_length10 [of "of_nat (length (pkt_payload p))"]
  by (auto simp: serialize_eq)

section \<open>One message\<close>

lemma server_data_loop_empty: "c_recv_buf (snd w) = [] \<Longrightarrow> server_data_loop P w = Some w"
  by (subst server_data_loop.simps) simp

lemma on_server_data_message:
  assumes "c_recv_buf (snd w) = []" and "packet_ok p" and "client_message P p w = Some w'" and "c_recv_buf (snd w') = []"
  shows "on_server_data P (serialize p) w = Some w'"
proof -
  have ser: "try_parse (serialize p) = Parsed (length (serialize p)) p"
    using try_parse_serialize [OF assms(2), of "[]"] length_serialize_bound [OF assms(2)] by simp
  have "in_client (\<lambda>c. c\<lparr>c_recv_buf := drop (length (serialize p)) (c_recv_buf c)\<rparr>)
      (in_client (\<lambda>c. c\<lparr>c_recv_buf := c_recv_buf c @ serialize p\<rparr>) w) = w"
    using assms(1) by (cases w) (simp add: in_client_def)
  then have "server_data_loop P (in_client (\<lambda>c. c\<lparr>c_recv_buf := c_recv_buf c @ serialize p\<rparr>) w) = Some w'"
    using ser assms(1,3,4) server_data_loop_empty [of w' P]
    by (subst server_data_loop.simps) (simp add: in_client_def)
  then show ?thesis by (simp add: on_server_data_def)
qed

text \<open>One turn of either end: a message in, a message out.\<close>

lemma client_turn_message:
  assumes "c_recv_buf (snd w) = []" and "packet_ok p" and "client_message P p w = Some w'" and "c_recv_buf (snd w') = []"
    and "osys (c_env (snd w')) = snd (sys_write (tcp_fd (snd w)) (serialize q) (osys (c_env (snd w))))"
    and "packet_ok q" and "roomy (Suc k) (osys (c_env (snd w)))"
  shows "client_turn P (serialize p) w = Some (serialize q, w')" and "roomy k (osys (c_env (snd w')))"
  using on_server_data_message [OF assms(1-4)] assms(5) serialize_sizes [of q] assms(6)
    roomy_write [OF assms(7), of "serialize q" "tcp_fd (snd w)"]
  by (simp_all add: client_turn_def packet_ok_def)

lemma session_turn_message:
  assumes "before_auth_done (st (snd v))" and "recv_buf (snd v) = []" and "packet_ok p"
    and "auth_message Q p v = Some v'" and "recv_buf (snd v') = []"
    and "osys (env (snd v')) = snd (sys_write (client_fd (snd v)) (serialize q) (osys (env (snd v))))"
    and "packet_ok q" and "roomy (Suc k) (osys (env (snd v)))"
  shows "session_turn Q (serialize p) v = Some (serialize q, v')" and "roomy k (osys (env (snd v')))"
  using on_data_message [OF assms(1-5)] assms(6) serialize_sizes [of q] assms(7)
    roomy_write [OF assms(8), of "serialize q" "client_fd (snd v)"]
  by (simp_all add: session_turn_def packet_ok_def)

section \<open>The authentication\<close>

text \<open>The chain of the configured modules can be built, and building it touches nothing of the client but the counter of
  module ids.\<close>

definition client_chain_builds :: "'c ClientSetup \<Rightarrow> Client \<Rightarrow> 'c Chain \<Rightarrow> bool" where
  "client_chain_builds P c ch \<longleftrightarrow>
     (\<forall>k. c_next_module_id k = c_next_module_id c \<longrightarrow> c_chain_config k = c_chain_config c \<longrightarrow> clock (c_env k) = clock (c_env c) \<longrightarrow>
        (\<exists>m. chain_new (cs_bases P) client_kapi (cs_order P) (clock (c_env k)) (c_chain_config k)
               (chain_empty\<lparr>oom := cs_oom P, rands := cs_rands P\<rparr>, k) = Some (ch, k\<lparr>c_next_module_id := m\<rparr>)))"

definition fresh_client :: "Client \<Rightarrow> bool" where
  "fresh_client c \<longleftrightarrow> c_st c = CL_AWAIT_AUTH1_CHALLENGE \<and> c_recv_buf c = [] \<and> c_data_connections c = []
     \<and> 0 \<le> tcp_fd c \<and> c_control_seq c = 0 \<and> c_control_rr c = 0"

lemma length_u64_bytes [simp]: "length (u64_bytes v) = 8"
  by (simp add: u64_bytes_def)

lemma hex_of_length [simp]: "length (hex_of bs) = 2 * length bs"
  by (induction bs) (simp_all add: hex_of_def)

lemma client_answers_challenge:
  assumes "fresh_client c" and "\<forall>x. length (cs_sha256 P x) = 32" and "length ch < 2 ^ 32" and "roomy (Suc k) (osys (c_env c))"
  obtains w where "client_turn P (serialize (make_msg MSG_AUTH_CHALLENGE (bytes_of ch))) (None, c)
      = Some (serialize (make_msg MSG_AUTH_RESPONSE (bytes_of (hex_sha256 (cs_sha256 P) (ch @ c_password c)))), (None, c
          \<lparr>c_challenge1 := ch, c_st := CL_AWAIT_AUTH1_OK, c_env := (c_env c)\<lparr>osys := w\<rparr>\<rparr>))" "roomy k w"
proof -
  let ?a = "bytes_of (hex_sha256 (cs_sha256 P) (ch @ c_password c))"
  let ?p = "make_msg MSG_AUTH_CHALLENGE (bytes_of ch)"
  let ?q = "make_msg MSG_AUTH_RESPONSE ?a"
  let ?os = "snd (sys_write (tcp_fd c) (serialize ?q) (osys (c_env c)))"
  let ?c = "c\<lparr>c_challenge1 := ch, c_st := CL_AWAIT_AUTH1_OK, c_env := (c_env c)\<lparr>osys := ?os\<rparr>\<rparr>"
  have len: "length ?a = 64" using assms(2) by (simp add: hex_sha256_def)
  have m: "client_message P ?p (None, c) = Some (None, ?c)"
    using assms(1) len
    by (simp add: client_message_def fresh_client_def make_msg_def in_client_def handle_auth1_challenge_def client_send_packet_def
        c_set_os_def c_upd_env_def Let_def)
  have ok: "packet_ok ?p" "packet_ok ?q" using assms(3) len by (simp_all add: packet_ok_def make_msg_def)
  have buf: "c_recv_buf c = []" using assms(1) by (simp add: fresh_client_def)
  have t: "client_turn P (serialize ?p) (None, c) = Some (serialize ?q, (None, ?c))" "roomy k (osys (c_env ?c))"
    using client_turn_message [of "(None, c)" ?p P "(None, ?c)" ?q k] m ok assms(4) buf by simp_all
  show thesis by (rule that [of ?os]) (use t in simp_all)
qed

lemma session_accepts_answer:
  assumes "st s = AWAIT_AUTH1_CHALLENGE_RESP" and "recv_buf s = []" and "\<forall>x. length (su_sha256 Q x) = 32"
    and "roomy (Suc k) (osys (env s))"
  obtains w where "session_turn Q (serialize (make_msg MSG_AUTH_RESPONSE
        (bytes_of (hex_sha256 (su_sha256 Q) (challenge1 s @ password s))))) (None, s)
      = Some (serialize (make_msg MSG_AUTH_OK (1 # u64_bytes (session_id s))),
          (None, s\<lparr>st := AWAIT_AUTH1_OK, env := (env s)\<lparr>osys := w\<rparr>\<rparr>))" "roomy k w"
proof -
  let ?a = "bytes_of (hex_sha256 (su_sha256 Q) (challenge1 s @ password s))"
  let ?p = "make_msg MSG_AUTH_RESPONSE ?a"
  let ?q = "make_msg MSG_AUTH_OK (1 # u64_bytes (session_id s))"
  let ?os = "snd (sys_write (client_fd s) (serialize ?q) (osys (env s)))"
  let ?s = "s\<lparr>st := AWAIT_AUTH1_OK, env := (env s)\<lparr>osys := ?os\<rparr>\<rparr>"
  have "length ?a = 64" using assms(3) by (simp add: hex_sha256_def)
  then have ok: "packet_ok ?p" "packet_ok ?q" by (simp_all add: packet_ok_def make_msg_def)
  have m: "auth_message Q ?p (None, s) = Some (None, ?s)"
    using assms(1)
    by (simp add: auth_message_def make_msg_def in_session_def handle_auth_challenge_response_def send_packet_def set_os_def
        upd_env_def Let_def)
  have t: "session_turn Q (serialize ?p) (None, s) = Some (serialize ?q, (None, ?s))" "roomy k (osys (env ?s))"
    using session_turn_message [of "(None, s)" ?p Q "(None, ?s)" ?q k] m ok assms(1,2,4)
    by (simp_all add: before_auth_done_def)
  show thesis by (rule that [of ?os]) (use t in simp_all)
qed

lemma client_sends_challenge:
  assumes "c_st c = CL_AWAIT_AUTH1_OK" and "c_recv_buf c = []" and "length (client_new_challenge c) < 2 ^ 32"
    and "roomy (Suc k) (osys (c_env c))"
  obtains w where "client_turn P (serialize (make_msg MSG_AUTH_OK (1 # u64_bytes sid))) (None, c)
      = Some (serialize (make_msg MSG_AUTH_CHALLENGE (bytes_of (client_new_challenge c))), (None, c
          \<lparr>c_session_id := sid, client_challenge := client_new_challenge c, c_rands := tl (c_rands c),
           c_st := CL_AWAIT_AUTH2_OK, c_env := (c_env c)\<lparr>osys := w\<rparr>\<rparr>))" "roomy k w"
proof -
  let ?ch = "client_new_challenge c"
  let ?p = "make_msg MSG_AUTH_OK (1 # u64_bytes sid)"
  let ?q = "make_msg MSG_AUTH_CHALLENGE (bytes_of ?ch)"
  let ?os = "snd (sys_write (tcp_fd c) (serialize ?q) (osys (c_env c)))"
  let ?c = "c\<lparr>c_session_id := sid, client_challenge := ?ch, c_rands := tl (c_rands c), c_st := CL_AWAIT_AUTH2_OK,
     c_env := (c_env c)\<lparr>osys := ?os\<rparr>\<rparr>"
  have ch: "client_new_challenge (c\<lparr>c_session_id := sid\<rparr>) = ?ch" by (simp add: client_new_challenge_def)
  have sid: "u64_of_bytes (u64_bytes sid) = sid" using u64_of_bytes_bytes [of sid "[]"] by simp
  have m: "client_message P ?p (None, c) = Some (None, ?c)"
    using assms(1)
    by (simp add: client_message_def make_msg_def in_client_def handle_auth1_ok_def client_send_packet_def c_set_os_def c_upd_env_def
        ch sid Let_def)
  have ok: "packet_ok ?p" "packet_ok ?q" using assms(3) by (simp_all add: packet_ok_def make_msg_def)
  have t: "client_turn P (serialize ?p) (None, c) = Some (serialize ?q, (None, ?c))" "roomy k (osys (c_env ?c))"
    using client_turn_message [of "(None, c)" ?p P "(None, ?c)" ?q k] m ok assms(2,4) by simp_all
  show thesis by (rule that [of ?os]) (use t in simp_all)
qed

lemma session_answers_challenge:
  assumes "st s = AWAIT_AUTH1_OK" and "recv_buf s = []" and "\<forall>x. length (su_sha256 Q x) = 32" and "length ch < 2 ^ 32"
    and "roomy (Suc k) (osys (env s))"
  obtains w where "session_turn Q (serialize (make_msg MSG_AUTH_CHALLENGE (bytes_of ch))) (None, s)
      = Some (serialize (make_msg MSG_AUTH_RESPONSE (bytes_of (hex_sha256 (su_sha256 Q) (ch @ password s)))),
          (None, s\<lparr>st := AWAIT_AUTH2_RESPONSE, env := (env s)\<lparr>osys := w\<rparr>\<rparr>))" "roomy k w"
proof -
  let ?a = "bytes_of (hex_sha256 (su_sha256 Q) (ch @ password s))"
  let ?p = "make_msg MSG_AUTH_CHALLENGE (bytes_of ch)"
  let ?q = "make_msg MSG_AUTH_RESPONSE ?a"
  let ?os = "snd (sys_write (client_fd s) (serialize ?q) (osys (env s)))"
  let ?s = "s\<lparr>st := AWAIT_AUTH2_RESPONSE, env := (env s)\<lparr>osys := ?os\<rparr>\<rparr>"
  have "length ?a = 64" using assms(3) by (simp add: hex_sha256_def)
  then have ok: "packet_ok ?p" "packet_ok ?q" using assms(4) by (simp_all add: packet_ok_def make_msg_def)
  have m: "auth_message Q ?p (None, s) = Some (None, ?s)"
    using assms(1)
    by (simp add: auth_message_def make_msg_def in_session_def handle_auth2_challenge_def send_packet_def set_os_def upd_env_def Let_def)
  have t: "session_turn Q (serialize ?p) (None, s) = Some (serialize ?q, (None, ?s))" "roomy k (osys (env ?s))"
    using session_turn_message [of "(None, s)" ?p Q "(None, ?s)" ?q k] m ok assms(1,2,5)
    by (simp_all add: before_auth_done_def)
  show thesis by (rule that [of ?os]) (use t in simp_all)
qed

section \<open>Control messages on a single connection\<close>

text \<open>A writer that holds nothing but control messages.\<close>

definition queued :: "bytes list \<Rightarrow> WriteBuffer" where
  "queued ms = wb_new\<lparr>priority_chunks := ms, total_size := of_nat (length (concat ms)), registered := True\<rparr>"

lemma write_queued: "write_priority m (queued ms) = queued (ms @ [m])" "(write_priority m wb_new)\<lparr>registered := True\<rparr> = queued [m]"
  by (simp_all add: write_priority_def queued_def wb_new_def add.commute)

lemma registered_queued [simp]: "registered (queued ms)" "\<not> registered wb_new"
  by (simp_all add: queued_def wb_new_def)

lemma rr_single [simp]: "rr_index x (Suc 0) i = 0"
  by (simp add: rr_index_def)

text \<open>Sending on the only connection: \<open>next_writer\<close> is its writer afterwards.\<close>

definition next_writer :: "bytes \<Rightarrow> WriteBuffer \<Rightarrow> WriteBuffer" where
  "next_writer m b = (write_priority m b)\<lparr>registered := True\<rparr>"

lemma next_writer_queued [simp]: "next_writer m wb_new = queued [m]" "next_writer m (queued ms) = queued (ms @ [m])"
  by (simp_all add: next_writer_def write_queued)

lemma send_control_single:
  assumes "data_connections s = [dc]" and "0 \<le> dc_fd dc"
  obtains K r where "send_control p s = s\<lparr>data_connections :=
      [dc\<lparr>dc_writer := next_writer (control_frame (control_seq s) p) (dc_writer dc)\<rparr>],
      control_seq := control_seq s + 1, control_rr_counter := r, env := (env s)\<lparr>kern := K\<rparr>\<rparr>"
proof (cases "registered (dc_writer dc)")
  case True
  then have w: "write_priority m (dc_writer dc) = next_writer m (dc_writer dc)" for m
    by (simp add: next_writer_def write_priority_def)
  show thesis
    by (rule that [of "kern (env s)" "int32 (control_rr_counter s + 1)"])
      (use assms True w in \<open>simp add: send_control_def upd_dc_def Let_def\<close>)
next
  case False
  let ?m = "control_frame (control_seq s) p"
  show thesis
    by (rule that [of "add_fd_handler (dc_fd dc) (HDataOut 0) EPOLLOUT (kern (env s))" "int32 (control_rr_counter s + 1)"])
      (use assms False in \<open>simp add: send_control_def upd_dc_def register_data_conn_epollout_def upd_kernel_def upd_env_def
        upd_kern_def write_priority_def next_writer_def Let_def\<close>)
qed

lemma client_send_control_single:
  assumes "c_data_connections c = [dc]" and "0 \<le> dc_fd dc"
  obtains K r where "client_send_control p c = c\<lparr>c_data_connections :=
      [dc\<lparr>dc_writer := next_writer (control_frame (c_control_seq c) p) (dc_writer dc)\<rparr>],
      c_control_seq := c_control_seq c + 1, c_control_rr := r, c_env := (c_env c)\<lparr>kern := K\<rparr>\<rparr>"
proof (cases "registered (dc_writer dc)")
  case True
  then have w: "write_priority m (dc_writer dc) = next_writer m (dc_writer dc)" for m
    by (simp add: next_writer_def write_priority_def)
  show thesis
    by (rule that [of "kern (c_env c)" "int32 (c_control_rr c + 1)"])
      (use assms True w in \<open>simp add: client_send_control_def c_upd_dc_def Let_def\<close>)
next
  case False
  let ?m = "control_frame (c_control_seq c) p"
  show thesis
    by (rule that [of "add_fd_handler (dc_fd dc) (CDataOut 0) EPOLLOUT (kern (c_env c))" "int32 (c_control_rr c + 1)"])
      (use assms False in \<open>simp add: client_send_control_def c_upd_dc_def client_register_data_out_def c_kernel_def c_upd_env_def
        upd_kern_def write_priority_def next_writer_def Let_def\<close>)
qed

section \<open>The end of the authentication\<close>

lemma client_completes:
  assumes "c_st c = CL_AWAIT_AUTH2_OK" and "c_recv_buf c = []" and "c_data_connections c = []" and "0 \<le> tcp_fd c"
    and "\<forall>x. length (cs_sha256 P x) = 32" and "roomy (Suc k) (osys (c_env c))"
    and "client_chain_builds P c ch" and "total_extra_outputs ch \<le> MAX_WIRE_CONNECTIONS"
    and "module_mids (cs_bases P) (c_modules c) = Some mids"
  obtains K r m w where "client_turn P (serialize (make_msg MSG_AUTH_RESPONSE
        (bytes_of (hex_sha256 (cs_sha256 P) (client_challenge c @ c_password c))))) (None, c)
      = Some (serialize (make_msg MSG_AUTH_OK [1]), (Some (set_pause_callback 1 (set_pause_callback 0 ch)), c
          \<lparr>c_next_module_id := m, c_control_seq := c_control_seq c + 1, c_control_rr := r, c_st := CL_AWAIT_MODULE_LIST_RES,
           c_data_connections := [dc_new\<lparr>dc_fd := tcp_fd c, dc_writer := queued [control_frame (c_control_seq c)
              (make_msg MSG_MODULE_LIST_REQ (module_list_payload mids))]\<rparr>],
           c_env := (c_env c)\<lparr>kern := K, osys := w\<rparr>\<rparr>))" "roomy k w"
proof -
  let ?a = "bytes_of (hex_sha256 (cs_sha256 P) (client_challenge c @ c_password c))"
  let ?p = "make_msg MSG_AUTH_RESPONSE ?a"
  let ?q = "make_msg MSG_AUTH_OK [1]"
  let ?os = "snd (sys_write (tcp_fd c) (serialize ?q) (osys (c_env c)))"
  let ?ch = "set_pause_callback 1 (set_pause_callback 0 ch)"
  let ?req = "make_msg MSG_MODULE_LIST_REQ (module_list_payload mids)"
  obtain m where new: "chain_new (cs_bases P) client_kapi (cs_order P) (clock (c_env c)) (c_chain_config c)
      (chain_empty\<lparr>oom := cs_oom P, rands := cs_rands P\<rparr>, c) = Some (ch, c\<lparr>c_next_module_id := m\<rparr>)"
    using assms(7) by (auto simp: client_chain_builds_def)
  define c1 where "c1 = c\<lparr>c_next_module_id := m, c_data_connections := [dc_new\<lparr>dc_fd := tcp_fd c\<rparr>],
    c_env := (c_env c)\<lparr>osys := ?os, kern := add_fd_handler (tcp_fd c) (CDataIn 0) EPOLLIN (kern (c_env c))\<rparr>\<rparr>"
  have prim: "primary_connection (c\<lparr>c_next_module_id := m\<rparr>) = c1"
    using assms(3,4)
    by (simp add: primary_connection_def c1_def client_send_packet_def c_set_os_def c_upd_env_def c_upd_dc_def vec_resize_def
        client_register_reader_def c_kernel_def upd_kern_def Let_def)
  obtain K r where send: "client_send_control ?req c1 = c1\<lparr>c_data_connections :=
      [dc_new\<lparr>dc_fd := tcp_fd c, dc_writer := queued [control_frame (c_control_seq c) ?req]\<rparr>],
      c_control_seq := c_control_seq c + 1, c_control_rr := r, c_env := (c_env c1)\<lparr>kern := K\<rparr>\<rparr>"
    by (rule client_send_control_single [of c1 "dc_new\<lparr>dc_fd := tcp_fd c\<rparr>" ?req])
      (use assms(4) in \<open>simp_all add: c1_def dc_new_def\<close>)
  define c2 where "c2 = (client_send_control ?req c1)\<lparr>c_st := CL_AWAIT_MODULE_LIST_RES\<rparr>"
  have "request_modules P c1 = c2"
    using assms(9) by (simp add: request_modules_def c2_def c1_def)
  then have "client_auth2_challenge P ?p (None, c) = Some (Some ?ch, c2)"
    using new prim assms(2,8) by (simp add: client_auth2_challenge_def make_msg_def in_client_def c1_def)
  then have msg: "client_message P ?p (None, c) = Some (Some ?ch, c2)"
    using assms(1) by (simp add: client_message_def make_msg_def)
  have len: "length ?a = 64" using assms(5) by (simp add: hex_sha256_def)
  have ok: "packet_ok ?p" "packet_ok ?q" using len by (simp_all add: packet_ok_def make_msg_def)
  have c2: "c2 = c\<lparr>c_next_module_id := m, c_control_seq := c_control_seq c + 1, c_control_rr := r,
      c_st := CL_AWAIT_MODULE_LIST_RES,
      c_data_connections := [dc_new\<lparr>dc_fd := tcp_fd c, dc_writer := queued [control_frame (c_control_seq c) ?req]\<rparr>],
      c_env := (c_env c)\<lparr>kern := K, osys := ?os\<rparr>\<rparr>"
    unfolding c2_def send by (simp add: c1_def)
  have "c_recv_buf c2 = []" "osys (c_env c2) = ?os" using assms(2) by (simp_all add: c2)
  then have t: "client_turn P (serialize ?p) (None, c) = Some (serialize ?q, (Some ?ch, c2))" "roomy k (osys (c_env c2))"
    using client_turn_message [of "(None, c)" ?p P "(Some ?ch, c2)" ?q k] msg ok assms(2,6) by simp_all
  show thesis by (rule that [where K = K and r = r and m = m and w = ?os]) (use t c2 in simp_all)
qed

lemma session_completes:
  assumes "st s = AWAIT_AUTH2_RESPONSE" and "recv_buf s = []" and "data_connections s = []" and "0 \<le> client_fd s"
  obtains K where "session_turn Q (serialize (make_msg MSG_AUTH_OK [1])) (None, s)
      = Some ([], (None, s\<lparr>st := AWAIT_CHAIN_CREATE, data_connections := [dc_new\<lparr>dc_fd := client_fd s\<rparr>],
          env := (env s)\<lparr>kern := K\<rparr>\<rparr>))"
proof -
  let ?p = "make_msg MSG_AUTH_OK [1]"
  let ?K = "add_fd_handler (client_fd s) (HDataIn 0) EPOLLIN (kern (env s))"
  let ?s = "s\<lparr>st := AWAIT_CHAIN_CREATE, data_connections := [dc_new\<lparr>dc_fd := client_fd s\<rparr>], env := (env s)\<lparr>kern := ?K\<rparr>\<rparr>"
  have m: "auth_message Q ?p (None, s) = Some (None, ?s)"
    using assms
    by (simp add: auth_message_def make_msg_def handle_auth2_response_def in_session_def register_data_connection_reader_def
        upd_dc_def upd_kernel_def upd_env_def upd_kern_def vec_resize_def Let_def)
  have "on_data Q (serialize ?p) (None, s) = Some (None, ?s)"
    by (rule on_data_message [OF _ _ _ m]) (use assms in \<open>simp_all add: before_auth_done_def packet_ok_def make_msg_def\<close>)
  then show thesis by (intro that [of ?K]) (simp add: session_turn_def)
qed


lemma client_chain_builds_cong:
  assumes "client_chain_builds P c ch" and "c_next_module_id k = c_next_module_id c" and "c_chain_config k = c_chain_config c"
    and "clock (c_env k) = clock (c_env c)"
  shows "client_chain_builds P k ch"
  using assms by (simp add: client_chain_builds_def)

definition fresh_session :: "Session \<Rightarrow> bool" where
  "fresh_session s \<longleftrightarrow> st s = AWAIT_AUTH1_CHALLENGE_RESP \<and> recv_buf s = [] \<and> data_connections s = [] \<and> 0 \<le> client_fd s
     \<and> control_seq s = 0 \<and> pending_data_conns s = [] \<and> pending_reconnect_targets s = []"

text \<open>Both ends after the authentication: the request of the module list is queued at the client.\<close>

lemma auth_dialogue:
  assumes "fresh_client c" and "fresh_session s" and "c_password c = password s" and "cs_sha256 P = su_sha256 Q"
    and sha: "\<forall>x. length (su_sha256 Q x) = 32"
    and "length (challenge1 s) < 2 ^ 32" and "length (client_new_challenge c) < 2 ^ 32"
    and "roomy (Suc (Suc (Suc k))) (osys (c_env c))" and "roomy (Suc (Suc l)) (osys (env s))"
    and "client_chain_builds P c ch" and "total_extra_outputs ch \<le> MAX_WIRE_CONNECTIONS"
    and "module_mids (cs_bases P) (c_modules c) = Some mids"
  obtains K r m w K' w' where
    "dialogue P Q 3 (serialize (make_msg MSG_AUTH_CHALLENGE (bytes_of (challenge1 s)))) (None, c) (None, s)
     = Some ([], (Some (set_pause_callback 1 (set_pause_callback 0 ch)), c
         \<lparr>c_challenge1 := challenge1 s, c_session_id := session_id s, client_challenge := client_new_challenge c,
          c_rands := tl (c_rands c), c_next_module_id := m, c_control_seq := 1, c_control_rr := r,
          c_st := CL_AWAIT_MODULE_LIST_RES, c_data_connections := [dc_new\<lparr>dc_fd := tcp_fd c,
            dc_writer := queued [control_frame 0 (make_msg MSG_MODULE_LIST_REQ (module_list_payload mids))]\<rparr>],
          c_env := (c_env c)\<lparr>kern := K, osys := w\<rparr>\<rparr>),
         (None, s\<lparr>st := AWAIT_CHAIN_CREATE, data_connections := [dc_new\<lparr>dc_fd := client_fd s\<rparr>],
            env := (env s)\<lparr>kern := K', osys := w'\<rparr>\<rparr>))" "roomy k w" "roomy l w'"
proof -
  have sha': "\<forall>x. length (cs_sha256 P x) = 32" using sha assms(4) by simp
  have fc: "c_recv_buf c = []" "c_data_connections c = []" "0 \<le> tcp_fd c" "c_control_seq c = 0"
    using assms(1) by (simp_all add: fresh_client_def)
  have fs: "st s = AWAIT_AUTH1_CHALLENGE_RESP" "recv_buf s = []" "data_connections s = []" "0 \<le> client_fd s"
    using assms(2) by (simp_all add: fresh_session_def)
  obtain w1 where t1: "client_turn P (serialize (make_msg MSG_AUTH_CHALLENGE (bytes_of (challenge1 s)))) (None, c)
      = Some (serialize (make_msg MSG_AUTH_RESPONSE (bytes_of (hex_sha256 (su_sha256 Q) (challenge1 s @ password s)))), (None, c
          \<lparr>c_challenge1 := challenge1 s, c_st := CL_AWAIT_AUTH1_OK, c_env := (c_env c)\<lparr>osys := w1\<rparr>\<rparr>))" and r1: "roomy (Suc (Suc k)) w1"
    using client_answers_challenge [OF assms(1) sha' assms(6,8)] assms(3,4) by metis
  define c1 where "c1 = c\<lparr>c_challenge1 := challenge1 s, c_st := CL_AWAIT_AUTH1_OK, c_env := (c_env c)\<lparr>osys := w1\<rparr>\<rparr>"
  obtain v1 where u1: "session_turn Q (serialize (make_msg MSG_AUTH_RESPONSE
        (bytes_of (hex_sha256 (su_sha256 Q) (challenge1 s @ password s))))) (None, s)
      = Some (serialize (make_msg MSG_AUTH_OK (1 # u64_bytes (session_id s))),
          (None, s\<lparr>st := AWAIT_AUTH1_OK, env := (env s)\<lparr>osys := v1\<rparr>\<rparr>))" and q1: "roomy (Suc l) v1"
    using session_accepts_answer [OF fs(1,2) sha assms(9)] by metis
  define s1 where "s1 = s\<lparr>st := AWAIT_AUTH1_OK, env := (env s)\<lparr>osys := v1\<rparr>\<rparr>"
  have nc: "client_new_challenge c1 = client_new_challenge c" by (simp add: client_new_challenge_def c1_def)
  obtain w2 where t2: "client_turn P (serialize (make_msg MSG_AUTH_OK (1 # u64_bytes (session_id s)))) (None, c1)
      = Some (serialize (make_msg MSG_AUTH_CHALLENGE (bytes_of (client_new_challenge c))), (None, c1
          \<lparr>c_session_id := session_id s, client_challenge := client_new_challenge c, c_rands := tl (c_rands c1),
           c_st := CL_AWAIT_AUTH2_OK, c_env := (c_env c1)\<lparr>osys := w2\<rparr>\<rparr>))" and r2: "roomy (Suc k) w2"
    by (rule client_sends_challenge [of c1 "Suc k" P "session_id s"]) (use fc r1 assms(7) nc in \<open>simp_all add: c1_def\<close>)
  define c2 where "c2 = c1\<lparr>c_session_id := session_id s, client_challenge := client_new_challenge c, c_rands := tl (c_rands c1),
      c_st := CL_AWAIT_AUTH2_OK, c_env := (c_env c1)\<lparr>osys := w2\<rparr>\<rparr>"
  obtain v2 where u2: "session_turn Q (serialize (make_msg MSG_AUTH_CHALLENGE (bytes_of (client_new_challenge c)))) (None, s1)
      = Some (serialize (make_msg MSG_AUTH_RESPONSE (bytes_of (hex_sha256 (su_sha256 Q) (client_new_challenge c @ password s1)))),
          (None, s1\<lparr>st := AWAIT_AUTH2_RESPONSE, env := (env s1)\<lparr>osys := v2\<rparr>\<rparr>))" and q2: "roomy l v2"
    by (rule session_answers_challenge [OF _ _ sha assms(7), of s1 l]) (use fs q1 in \<open>simp_all add: s1_def\<close>)
  define s2 where "s2 = s1\<lparr>st := AWAIT_AUTH2_RESPONSE, env := (env s1)\<lparr>osys := v2\<rparr>\<rparr>"
  have pw: "hex_sha256 (su_sha256 Q) (client_new_challenge c @ password s1)
      = hex_sha256 (cs_sha256 P) (client_challenge c2 @ c_password c2)"
    using assms(3,4) by (simp add: c2_def c1_def s1_def)
  obtain K r m w where t3: "client_turn P (serialize (make_msg MSG_AUTH_RESPONSE
        (bytes_of (hex_sha256 (cs_sha256 P) (client_challenge c2 @ c_password c2))))) (None, c2)
      = Some (serialize (make_msg MSG_AUTH_OK [1]), (Some (set_pause_callback 1 (set_pause_callback 0 ch)), c2
          \<lparr>c_next_module_id := m, c_control_seq := c_control_seq c2 + 1, c_control_rr := r, c_st := CL_AWAIT_MODULE_LIST_RES,
           c_data_connections := [dc_new\<lparr>dc_fd := tcp_fd c2, dc_writer := queued [control_frame (c_control_seq c2)
              (make_msg MSG_MODULE_LIST_REQ (module_list_payload mids))]\<rparr>],
           c_env := (c_env c2)\<lparr>kern := K, osys := w\<rparr>\<rparr>))" and r3: "roomy k w"
  proof (rule client_completes [of c2 P k ch mids])
    show "client_chain_builds P c2 ch"
      by (rule client_chain_builds_cong [OF assms(10)]) (simp_all add: c2_def c1_def)
  qed (use fc sha' r2 assms(11,12) in \<open>simp_all add: c2_def c1_def\<close>)
  obtain K' where u3: "session_turn Q (serialize (make_msg MSG_AUTH_OK [1])) (None, s2)
      = Some ([], (None, s2\<lparr>st := AWAIT_CHAIN_CREATE, data_connections := [dc_new\<lparr>dc_fd := client_fd s2\<rparr>],
          env := (env s2)\<lparr>kern := K'\<rparr>\<rparr>))"
    by (rule session_completes [of s2 Q]) (use fs in \<open>simp_all add: s2_def s1_def\<close>)
  have e3: "dialogue P Q 3 b w v = Option.bind (client_turn P b w) (\<lambda>(out, w). Option.bind (session_turn Q out v)
      (\<lambda>(back, v). dialogue P Q 2 back w v))" for b w v using dialogue.simps(2) [of P Q 2 b w v] by simp
  have e2: "dialogue P Q 2 b w v = Option.bind (client_turn P b w) (\<lambda>(out, w). Option.bind (session_turn Q out v)
      (\<lambda>(back, v). dialogue P Q 1 back w v))" for b w v using dialogue.simps(2) [of P Q 1 b w v] by (simp only: Suc_1)
  have e1: "dialogue P Q 1 b w v = Option.bind (client_turn P b w) (\<lambda>(out, w). Option.bind (session_turn Q out v)
      (\<lambda>(back, v). dialogue P Q 0 back w v))" for b w v
    using dialogue.simps(2) [of P Q 0 b w v] by (simp only: One_nat_def)
  show thesis
    by (rule that [where K = K and r = r and m = m and w = w and K' = K' and w' = v2])
      (use r3 q2 in \<open>simp_all only: e3 e2 e1 t1 u1 c1_def [symmetric] s1_def [symmetric] t2 u2 c2_def [symmetric]
        s2_def [symmetric] pw t3 u3 bind.simps prod.case dialogue.simps(1)\<close>, use fc in \<open>simp_all add: c2_def c1_def s2_def s1_def\<close>)
qed

end
