(* ===== verification/Tunnel_Setup.thy ===== *)
theory Tunnel_Setup
  imports Tunnel
begin

unbundle bit_operations_syntax

text \<open>
  Control messages between the two event loops: writing out a queue of control frames, and reading them.
\<close>

section \<open>Flushing control messages\<close>

definition sendable :: "bytes list \<Rightarrow> bool" where
  "sendable ms \<longleftrightarrow> list_all (\<lambda>m. m \<noteq> [] \<and> length m < 2 ^ 33) ms"

lemma roomy_stream:
  assumes "roomy (Suc k) w" and "data \<noteq> []" and "length data < 2 ^ 33"
  obtains w' where "sys_write f data w = (WrOk (length data), w')" "roomy k w'" "fd_stream f w' = fd_stream f w @ data"
proof -
  obtain n as where a: "wr_answers w = Wrote n # as" "2 ^ 33 \<le> n"
      "k \<le> length as" "list_all (\<lambda>a. \<exists>n. a = Wrote n \<and> 2 ^ 33 \<le> n) (take k as)"
    using assms(1) by (cases "wr_answers w") (auto simp: roomy_def)
  have "max 1 (min n (length data)) = length data"
    using a(2) assms(2,3) by (cases data) auto
  then have "sys_write f data w = (WrOk (length data), w\<lparr>wr_answers := as, sent := sent w @ [(f, data)]\<rparr>)"
    using a(1) assms(2) by (simp add: sys_write_def Let_def)
  then show thesis by (rule that) (use a(3,4) in \<open>simp_all add: roomy_def fd_stream_def\<close>)
qed

lemma flush_queued:
  assumes "sendable ms" and "roomy (length ms + k) w"
  obtains w' where "wb_flush f (queued ms) w = Some (True, queued [], w')" "roomy k w'"
    "fd_stream f w' = fd_stream f w @ concat ms"
proof -
  have "\<exists>w'. flush_priority_unlocked f (queued ms) w = Some (True, queued [], w') \<and> roomy k w'
      \<and> fd_stream f w' = fd_stream f w @ concat ms"
    using assms
  proof (induction ms arbitrary: w)
    case Nil
    then show ?case by (subst flush_priority_unlocked.simps) (simp add: queued_def)
  next
    case (Cons m ms)
    then have m: "m \<noteq> []" "length m < 2 ^ 33" and ms: "sendable ms" by (simp_all add: sendable_def)
    obtain w1 where w1: "sys_write f m w = (WrOk (length m), w1)" "roomy (length ms + k) w1"
        "fd_stream f w1 = fd_stream f w @ m"
      by (rule roomy_stream [of "length ms + k" w m f]) (use Cons.prems(2) m in simp_all)
    have adv: "advance_priority (length m) (queued (m # ms)) = queued ms"
      by (simp add: advance_priority_def queued_def wb_new_def Let_def)
    obtain w' where "flush_priority_unlocked f (queued ms) w1 = Some (True, queued [], w')" "roomy k w'"
        "fd_stream f w' = fd_stream f w1 @ concat ms"
      using Cons.IH [OF ms w1(2)] by blast
    then show ?case
      using m w1 adv by (subst flush_priority_unlocked.simps) (simp add: queued_def wb_new_def)
  qed
  moreover have "wb_flush f (queued ms) w = flush_priority_unlocked f (queued ms) w"
    unfolding wb_flush_def by (subst flush_unlocked.simps) (simp add: queued_def wb_new_def)
  ultimately show thesis using that by auto
qed

lemma queued_Nil: "(queued [])\<lparr>registered := False\<rparr> = wb_new" "wb_empty (queued [])"
  by (simp_all add: queued_def wb_new_def wb_empty_def)

lemma session_flush_single:
  assumes "data_connections s = [dc]" and "dc_writer dc = queued ms" and "sendable ms"
    and "roomy (length ms + k) (osys (env s))"
  obtains K w where "on_data_out 0 f EPOLLOUT s = Some (s\<lparr>data_connections := [dc\<lparr>dc_writer := wb_new\<rparr>],
      env := (env s)\<lparr>kern := K, osys := w\<rparr>\<rparr>)" "roomy k w"
    "fd_stream (dc_fd dc) w = fd_stream (dc_fd dc) (osys (env s)) @ concat ms"
proof -
  obtain w where w: "wb_flush (dc_fd dc) (queued ms) (osys (env s)) = Some (True, queued [], w)" "roomy k w"
      "fd_stream (dc_fd dc) w = fd_stream (dc_fd dc) (osys (env s)) @ concat ms"
    by (rule flush_queued [OF assms(3,4)])
  show thesis
    by (rule that [where K = "mod_fd_events (dc_fd dc) 0 EPOLLOUT (kern (env s))" and w = w])
      (use assms(1,2) w in \<open>simp_all add: on_data_out_def flush_round_def dc_flush_def set_os_def upd_env_def upd_dc_def upd_kernel_def
        upd_kern_def queued_Nil Let_def\<close>)
qed

lemma client_flush_single:
  assumes "c_data_connections c = [dc]" and "dc_writer dc = queued ms" and "sendable ms"
    and "roomy (length ms + k) (osys (c_env c))"
  obtains K w where "client_data_out 0 EPOLLOUT c = Some (c\<lparr>c_data_connections := [dc\<lparr>dc_writer := wb_new\<rparr>],
      c_env := (c_env c)\<lparr>kern := K, osys := w\<rparr>\<rparr>)" "roomy k w"
    "fd_stream (dc_fd dc) w = fd_stream (dc_fd dc) (osys (c_env c)) @ concat ms"
proof -
  obtain w where w: "wb_flush (dc_fd dc) (queued ms) (osys (c_env c)) = Some (True, queued [], w)" "roomy k w"
      "fd_stream (dc_fd dc) w = fd_stream (dc_fd dc) (osys (c_env c)) @ concat ms"
    by (rule flush_queued [OF assms(3,4)])
  show thesis
    by (rule that [where K = "mod_fd_events (dc_fd dc) 0 EPOLLOUT (kern (c_env c))" and w = w])
      (use assms(1,2) w in \<open>simp_all add: client_data_out_def client_flush_round_def client_dc_flush_def c_set_os_def c_upd_env_def
        c_upd_dc_def c_kernel_def upd_kern_def queued_Nil Let_def\<close>)
qed

section \<open>Reading control frames\<close>

text \<open>A control frame at the read position: one round of the frame loop.\<close>

lemma scan_control:
  assumes "packet_ok p"
  shows "scan_frame (control_frame q p @ rest) = FrameAt (length (control_frame q p) - (2 + length (serialize p)))
      (2 + length (serialize p))"
    and "drop (length (control_frame q p) - (2 + length (serialize p))) (control_frame q p @ rest)
      = WIRE_CONTROL # q # serialize p @ rest"
    and "2 + length (serialize p) \<le> length (control_frame q p)"
proof -
  let ?b = "[WIRE_CONTROL, q] @ serialize p"
  let ?v = "write_varint [] (of_nat (length ?b)) :: bytes"
  have "frame_body_ok ?b" using serialize_sizes [of p] assms by (simp add: frame_body_ok_def packet_ok_def)
  from scan_make_varint_packet [OF this, of rest]
  show "scan_frame (control_frame q p @ rest) = FrameAt (length (control_frame q p) - (2 + length (serialize p)))
      (2 + length (serialize p))"
    unfolding control_frame_eq by (simp add: make_varint_packet_def)
  show "drop (length (control_frame q p) - (2 + length (serialize p))) (control_frame q p @ rest)
      = WIRE_CONTROL # q # serialize p @ rest"
    "2 + length (serialize p) \<le> length (control_frame q p)"
    unfolding control_frame_eq by (simp_all add: make_varint_packet_def)
qed

lemma try_parse_body:
  assumes "packet_ok p"
  shows "try_parse (serialize p) = Parsed (length (serialize p)) p"
  using try_parse_serialize [OF assms, of "[]"] length_serialize_bound [OF assms] by simp

lemma session_data_step_control:
  assumes "drop (dc_read_offset (conn_at i d)) (read_buf (conn_at i d)) = control_frame q p @ rest" and "packet_ok p"
    and "deliver_control (apply_control Q) q p (fst d) (snd d) = Some d'"
  shows "data_step Q i d = Some (True, upd_conn i (skip_bytes (length (control_frame q p))) d')"
proof -
  note sc = scan_control [OF assms(2), of q]
  obtain k where k: "length (control_frame q p) = k + (2 + length (serialize p))"
    using sc(3) le_Suc_ex by (metis add.commute)
  have tk: "take (2 + length (serialize p)) (WIRE_CONTROL # q # serialize p @ rest) = WIRE_CONTROL # q # serialize p" by simp
  show ?thesis
    unfolding data_step_def Let_def assms(1) sc(1) using sc(2) [of rest] sc(3) tk assms(3)
    by (simp add: recv_control_def try_parse_body [OF assms(2)] k)
qed

lemma client_data_step_control:
  assumes "drop (dc_read_offset (c_conn_at i d)) (read_buf (c_conn_at i d)) = control_frame q p @ rest" and "packet_ok p"
    and "deliver_control client_apply_control q p (fst d) (snd d) = Some d'"
  shows "client_data_step i d = Some (True, c_upd_conn i (skip_bytes (length (control_frame q p))) d')"
proof -
  note sc = scan_control [OF assms(2), of q]
  obtain k where k: "length (control_frame q p) = k + (2 + length (serialize p))"
    using sc(3) le_Suc_ex by (metis add.commute)
  have tk: "take (2 + length (serialize p)) (WIRE_CONTROL # q # serialize p @ rest) = WIRE_CONTROL # q # serialize p" by simp
  show ?thesis
    unfolding client_data_step_def Let_def assms(1) sc(1) using sc(2) [of rest] sc(3) tk assms(3)
    by (simp add: client_recv_control_def try_parse_body [OF assms(2)] k)
qed

lemma deliver_next:
  assumes "ap p s = Some s'" and "exp_control_seq c = q" and "pending_control c = (\<lambda>_. None)"
  shows "deliver_control ap q p c s = Some (c\<lparr>exp_control_seq := q + 1\<rparr>, s')"
  using assms by (simp add: deliver_control_def drain_control.simps)


definition at_end :: "DataConnection \<Rightarrow> bool" where
  "at_end dc \<longleftrightarrow> dc_read_offset dc = length (read_buf dc)"

lemma at_end_trim:
  assumes "read_buf dc' = read_buf dc @ bs" and "dc_read_offset dc' = dc_read_offset dc" and "at_end dc"
  shows "at_end (trim_buffer (skip_bytes (length bs) dc'))"
  using assms by (simp add: at_end_def trim_buffer_def skip_bytes_def)

lemma scan_frame_Nil: "scan_frame [] = FrameStop"
  by (simp add: scan_frame_def)

lemma session_loop_control:
  assumes "drop (dc_read_offset (conn_at i (r, w))) (read_buf (conn_at i (r, w))) = control_frame q p @ rest" and "packet_ok p"
    and "apply_control Q p w = Some w'" and "exp_control_seq r = q" and "pending_control r = (\<lambda>_. None)"
  shows "data_loop Q i (r, w) = data_loop Q i (upd_conn i (skip_bytes (length (control_frame q p))) (r\<lparr>exp_control_seq := q + 1\<rparr>, w'))"
  using session_data_step_control [OF assms(1,2), of Q] deliver_next [of "apply_control Q", OF assms(3-5)]
  by (subst data_loop.simps) simp

lemma session_loop_end:
  "drop (dc_read_offset (conn_at i d)) (read_buf (conn_at i d)) = [] \<Longrightarrow> data_loop Q i d = Some d"
  by (subst data_loop.simps) (simp add: data_step_def scan_frame_Nil)

lemma client_loop_control:
  assumes "drop (dc_read_offset (c_conn_at i (r, w))) (read_buf (c_conn_at i (r, w))) = control_frame q p @ rest" and "packet_ok p"
    and "client_apply_control p w = Some w'" and "exp_control_seq r = q" and "pending_control r = (\<lambda>_. None)"
  shows "client_data_loop i (r, w)
    = client_data_loop i (c_upd_conn i (skip_bytes (length (control_frame q p))) (r\<lparr>exp_control_seq := q + 1\<rparr>, w'))"
  using client_data_step_control [OF assms(1,2)] deliver_next [of client_apply_control, OF assms(3-5)]
  by (subst client_data_loop.simps) simp

lemma client_loop_end:
  "drop (dc_read_offset (c_conn_at i d)) (read_buf (c_conn_at i d)) = [] \<Longrightarrow> client_data_loop i d = Some d"
  by (subst client_data_loop.simps) (simp add: client_data_step_def scan_frame_Nil)

text \<open>A read event of the only connection that brings one control frame.\<close>

definition session_reading :: "bytes \<Rightarrow> Session \<Rightarrow> Session" where
  "session_reading bs s = s\<lparr>env := (env s)\<lparr>rd_answers := (rd_answers (env s))(dc_fd (data_connections s ! 0) := [])\<rparr>,
     last_wire_activity := clock (env s), heartbeating := False,
     data_connections := [(data_connections s ! 0)\<lparr>read_buf := read_buf (data_connections s ! 0) @ bs\<rparr>]\<rparr>"

definition client_reading :: "bytes \<Rightarrow> Client \<Rightarrow> Client" where
  "client_reading bs c = c\<lparr>c_env := (c_env c)\<lparr>rd_answers := (rd_answers (c_env c))(dc_fd (c_data_connections c ! 0) := [])\<rparr>,
     c_last_activity := clock (c_env c), c_heartbeating := False,
     c_data_connections := [(c_data_connections c ! 0)\<lparr>read_buf := read_buf (c_data_connections c ! 0) @ bs\<rparr>]\<rparr>"

lemma control_frame_nonempty: "control_frame q p \<noteq> []"
  by (simp add: control_frame_def make_varint_packet_def Let_def)

lemma session_event_read:
  assumes "data_connections s = [dc]" and "rd_answers (env s) (dc_fd dc) = [ReadData bs]"
    and "bs \<noteq> []" and "length bs \<le> MAX_PACKET_SIZE"
  shows "on_data_in Q 0 EPOLLIN (r, ch, s) = map_option (upd_conn 0 trim_buffer) (data_loop Q 0 (r, ch, session_reading bs s))"
  using assms
  by (simp add: on_data_in_def conn_at_def sys_read_def session_reading_def in_session_def upd_dc_def Let_def)

lemma client_event_read:
  assumes "c_data_connections c = [dc]" and "rd_answers (c_env c) (dc_fd dc) = [ReadData bs]"
    and "bs \<noteq> []" and "length bs \<le> MAX_PACKET_SIZE"
  shows "client_data_in 0 EPOLLIN (r, ch, c)
    = map_option (c_upd_conn 0 trim_buffer) (client_data_loop 0 (r, ch, client_reading bs c))"
  using assms
  by (cases "client_data_loop 0 (r, ch, client_reading bs c)")
    (simp_all add: client_data_in_def client_conn_read_def c_conn_at_def sys_read_def client_reading_def in_client_def c_upd_dc_def Let_def)

end
