(* ===== verification/Tunnel_Up.thy ===== *)
theory Tunnel_Up
  imports Tunnel_Setup Modules
begin

unbundle bit_operations_syntax

text \<open>
  The way from the authentication to a running tunnel, in two rounds of control frames between the event loops: the
  module list, then the chain and the notice that it is ready.
\<close>

section \<open>A resting connection\<close>

text \<open>
  The only data connection of either end between two events: all that has been read is handled, the control messages
  \<open>ms\<close> wait to be written, and the socket takes \<open>k\<close> more writes.  \<open>c_rest\<close> and \<open>s_rest\<close> are what the exchange of
  control messages leaves alone.
\<close>

definition resting :: "fd \<Rightarrow> bytes list \<Rightarrow> DataConnection \<Rightarrow> bool" where
  "resting f ms dc \<longleftrightarrow> dc_fd dc = f \<and> at_end dc \<and> dc_writer dc = (if ms = [] then wb_new else queued ms)"

definition c_link :: "byte \<Rightarrow> bytes list \<Rightarrow> nat \<Rightarrow> Client \<Rightarrow> bool" where
  "c_link q ms k c \<longleftrightarrow> (\<exists>dc. c_data_connections c = [dc] \<and> resting (tcp_fd c) ms dc) \<and> 0 \<le> tcp_fd c
     \<and> c_control_seq c = q \<and> rd_answers (c_env c) (tcp_fd c) = [] \<and> roomy k (osys (c_env c))"

definition s_link :: "byte \<Rightarrow> bytes list \<Rightarrow> nat \<Rightarrow> Session \<Rightarrow> bool" where
  "s_link q ms k s \<longleftrightarrow> (\<exists>dc. data_connections s = [dc] \<and> resting (client_fd s) ms dc) \<and> 0 \<le> client_fd s
     \<and> control_seq s = q \<and> rd_answers (env s) (client_fd s) = [] \<and> roomy k (osys (env s))"

definition c_rest :: "Client \<Rightarrow> ModuleSpec list \<times> fd \<times> u64 \<times> u16 \<times> (fd \<times> bool) \<times> PendingConn list \<times> (byte \<times> ExternalConn) list" where
  "c_rest c = (c_modules c, tcp_fd c, c_session_id c, c_listen_port c, c_listen_answer c, pending_ext c, conns c)"

definition s_rest ::
  "Session \<Rightarrow> fd \<times> u64 \<times> (byte \<times> fd) list \<times> (byte \<times> string) list \<times> ChainConfig \<times> int \<times> millis \<times> (byte \<times> TargetConn) list" where
  "s_rest s = (client_fd s, session_id s, pending_data_conns s, pending_reconnect_targets s, chain_config s,
     next_module_id s, clock (env s), targets s)"

lemma c_flush:
  assumes "c_link q ms (length ms + k) c" and "sendable ms" and "ms \<noteq> []"
  obtains c' where "client_data_out 0 EPOLLOUT c = Some c'" "c_link q [] k c'" "c_rest c' = c_rest c" "c_st c' = c_st c"
    "new_output (tcp_fd c) (osys (c_env c)) (osys (c_env c')) = concat ms"
proof -
  obtain dc where dc: "c_data_connections c = [dc]" "dc_writer dc = queued ms" "dc_fd dc = tcp_fd c" "at_end dc"
    using assms(1,3) by (auto simp: c_link_def resting_def)
  have room: "roomy (length ms + k) (osys (c_env c))" using assms(1) by (simp add: c_link_def)
  obtain K w where w: "client_data_out 0 EPOLLOUT c = Some (c\<lparr>c_data_connections := [dc\<lparr>dc_writer := wb_new\<rparr>],
      c_env := (c_env c)\<lparr>kern := K, osys := w\<rparr>\<rparr>)" "roomy k w"
    "fd_stream (dc_fd dc) w = fd_stream (dc_fd dc) (osys (c_env c)) @ concat ms"
    by (rule client_flush_single [OF dc(1,2) assms(2) room])
  show thesis
    by (rule that [OF w(1)]) (use assms(1) dc w in \<open>simp_all add: c_link_def c_rest_def resting_def at_end_def new_output_def\<close>)
qed

lemma s_flush:
  assumes "s_link q ms (length ms + k) s" and "sendable ms" and "ms \<noteq> []"
  obtains s' where "on_data_out 0 f EPOLLOUT s = Some s'" "s_link q [] k s'" "s_rest s' = s_rest s" "st s' = st s"
    "new_output (client_fd s) (osys (env s)) (osys (env s')) = concat ms"
proof -
  obtain dc where dc: "data_connections s = [dc]" "dc_writer dc = queued ms" "dc_fd dc = client_fd s" "at_end dc"
    using assms(1,3) by (auto simp: s_link_def resting_def)
  have room: "roomy (length ms + k) (osys (env s))" using assms(1) by (simp add: s_link_def)
  obtain K w where w: "on_data_out 0 f EPOLLOUT s = Some (s\<lparr>data_connections := [dc\<lparr>dc_writer := wb_new\<rparr>],
      env := (env s)\<lparr>kern := K, osys := w\<rparr>\<rparr>)" "roomy k w"
    "fd_stream (dc_fd dc) w = fd_stream (dc_fd dc) (osys (env s)) @ concat ms"
    by (rule session_flush_single [OF dc(1,2) assms(2) room])
  show thesis
    by (rule that [OF w(1)]) (use assms(1) dc w in \<open>simp_all add: s_link_def s_rest_def resting_def at_end_def new_output_def\<close>)
qed

section \<open>Arriving bytes\<close>

definition arrive :: "fd \<Rightarrow> bytes \<Rightarrow> 'h Env \<Rightarrow> 'h Env" where
  "arrive f bs E = E\<lparr>rd_answers := (rd_answers E)(f := rd_answers E f @ [ReadData bs])\<rparr>"

definition c_arrive :: "bytes \<Rightarrow> Client \<Rightarrow> Client" where
  "c_arrive bs c = c\<lparr>c_env := arrive (tcp_fd c) bs (c_env c)\<rparr>"

definition s_arrive :: "bytes \<Rightarrow> Session \<Rightarrow> Session" where
  "s_arrive bs s = s\<lparr>env := arrive (client_fd s) bs (env s)\<rparr>"

definition frame_fits :: "byte \<Rightarrow> Packet \<Rightarrow> bool" where
  "frame_fits q p \<longleftrightarrow> packet_ok p \<and> length (control_frame q p) \<le> MAX_PACKET_SIZE"

lemma session_takes_frame:
  assumes "s_link q [] k s" and "frame_fits e p" and "exp_control_seq r = e" and "pending_control r = (\<lambda>_. None)"
    and ap: "apply_control Q p (ch, session_reading (control_frame e p) (s_arrive (control_frame e p) s)) = Some (ch', s')"
    and dc': "data_connections s' = [dc']"
    and rd: "read_buf dc' = read_buf (data_connections s ! 0) @ control_frame e p"
      "dc_read_offset dc' = dc_read_offset (data_connections s ! 0)"
  shows "on_data_in Q 0 EPOLLIN (r, ch, s_arrive (control_frame e p) s)
    = Some (r\<lparr>exp_control_seq := e + 1\<rparr>, ch', s'\<lparr>data_connections := [trim_buffer (skip_bytes (length (control_frame e p)) dc')]\<rparr>)"
proof -
  let ?bs = "control_frame e p"
  obtain dc where dc: "data_connections s = [dc]" "resting (client_fd s) [] dc" and ans: "rd_answers (env s) (client_fd s) = []"
    using assms(1) by (auto simp: s_link_def)
  have off: "dc_read_offset dc = length (read_buf dc)" using dc(2) by (simp add: resting_def at_end_def)
  have "on_data_in Q 0 EPOLLIN (r, ch, s_arrive ?bs s)
      = map_option (upd_conn 0 trim_buffer) (data_loop Q 0 (r, ch, session_reading ?bs (s_arrive ?bs s)))"
    by (rule session_event_read [where dc = dc])
      (use dc ans assms(2) in \<open>simp_all add: s_arrive_def arrive_def resting_def control_frame_nonempty frame_fits_def\<close>)
  also have "data_loop Q 0 (r, ch, session_reading ?bs (s_arrive ?bs s))
      = data_loop Q 0 (upd_conn 0 (skip_bytes (length ?bs)) (r\<lparr>exp_control_seq := e + 1\<rparr>, ch', s'))"
    by (rule session_loop_control [OF _ _ ap assms(3,4), where rest = "[]"])
      (use dc off assms(2) in \<open>simp_all add: conn_at_def session_reading_def s_arrive_def frame_fits_def\<close>)
  also have "\<dots> = Some (upd_conn 0 (skip_bytes (length ?bs)) (r\<lparr>exp_control_seq := e + 1\<rparr>, ch', s'))"
    by (rule session_loop_end)
      (use dc' rd dc(1) off in \<open>simp add: conn_at_def upd_conn_def in_session_def upd_dc_def skip_bytes_def\<close>)
  finally show ?thesis using dc' by (simp add: upd_conn_def in_session_def upd_dc_def)
qed

lemma client_takes_frame:
  assumes "c_link q [] k c" and "frame_fits e p" and "exp_control_seq r = e" and "pending_control r = (\<lambda>_. None)"
    and ap: "client_apply_control p (ch, client_reading (control_frame e p) (c_arrive (control_frame e p) c)) = Some (ch', c')"
    and dc': "c_data_connections c' = [dc']"
    and rd: "read_buf dc' = read_buf (c_data_connections c ! 0) @ control_frame e p"
      "dc_read_offset dc' = dc_read_offset (c_data_connections c ! 0)"
  shows "client_data_in 0 EPOLLIN (r, ch, c_arrive (control_frame e p) c)
    = Some (r\<lparr>exp_control_seq := e + 1\<rparr>, ch', c'\<lparr>c_data_connections := [trim_buffer (skip_bytes (length (control_frame e p)) dc')]\<rparr>)"
proof -
  let ?bs = "control_frame e p"
  obtain dc where dc: "c_data_connections c = [dc]" "resting (tcp_fd c) [] dc" and ans: "rd_answers (c_env c) (tcp_fd c) = []"
    using assms(1) by (auto simp: c_link_def)
  have off: "dc_read_offset dc = length (read_buf dc)" using dc(2) by (simp add: resting_def at_end_def)
  have "client_data_in 0 EPOLLIN (r, ch, c_arrive ?bs c)
      = map_option (c_upd_conn 0 trim_buffer) (client_data_loop 0 (r, ch, client_reading ?bs (c_arrive ?bs c)))"
    by (rule client_event_read [where dc = dc])
      (use dc ans assms(2) in \<open>simp_all add: c_arrive_def arrive_def resting_def control_frame_nonempty frame_fits_def\<close>)
  also have "client_data_loop 0 (r, ch, client_reading ?bs (c_arrive ?bs c))
      = client_data_loop 0 (c_upd_conn 0 (skip_bytes (length ?bs)) (r\<lparr>exp_control_seq := e + 1\<rparr>, ch', c'))"
    by (rule client_loop_control [OF _ _ ap assms(3,4), where rest = "[]"])
      (use dc off assms(2) in \<open>simp_all add: c_conn_at_def client_reading_def c_arrive_def frame_fits_def\<close>)
  also have "\<dots> = Some (c_upd_conn 0 (skip_bytes (length ?bs)) (r\<lparr>exp_control_seq := e + 1\<rparr>, ch', c'))"
    by (rule client_loop_end)
      (use dc' rd dc(1) off in \<open>simp add: c_conn_at_def c_upd_conn_def in_client_def c_upd_dc_def skip_bytes_def\<close>)
  finally show ?thesis using dc' by (simp add: c_upd_conn_def in_client_def c_upd_dc_def)
qed


section \<open>The messages of the set-up\<close>

text \<open>The connection at the moment a handler runs.\<close>

lemma session_reading_link:
  assumes "s_link q [] k s"
  obtains dc where "data_connections s = [dc]" "resting (client_fd s) [] dc"
    "session_reading bs (s_arrive bs s) = s\<lparr>last_wire_activity := clock (env s), heartbeating := False,
       data_connections := [dc\<lparr>read_buf := read_buf dc @ bs\<rparr>]\<rparr>"
proof -
  obtain dc where dc: "data_connections s = [dc]" "resting (client_fd s) [] dc"
    using assms by (auto simp: s_link_def)
  have "(env s)\<lparr>rd_answers := (rd_answers (env s))(client_fd s := [])\<rparr> = env s"
    using assms by (simp add: s_link_def fun_upd_idem)
  then show thesis
    by (intro that [of dc]) (use dc in \<open>simp_all add: session_reading_def s_arrive_def arrive_def resting_def\<close>)
qed

lemma client_reading_link:
  assumes "c_link q [] k c"
  obtains dc where "c_data_connections c = [dc]" "resting (tcp_fd c) [] dc"
    "client_reading bs (c_arrive bs c) = c\<lparr>c_last_activity := clock (c_env c), c_heartbeating := False,
       c_data_connections := [dc\<lparr>read_buf := read_buf dc @ bs\<rparr>]\<rparr>"
proof -
  obtain dc where dc: "c_data_connections c = [dc]" "resting (tcp_fd c) [] dc"
    using assms by (auto simp: c_link_def)
  have "(c_env c)\<lparr>rd_answers := (rd_answers (c_env c))(tcp_fd c := [])\<rparr> = c_env c"
    using assms by (simp add: c_link_def fun_upd_idem)
  then show thesis
    by (intro that [of dc]) (use dc in \<open>simp_all add: client_reading_def c_arrive_def arrive_def resting_def\<close>)
qed

lemma resting_trim:
  assumes "resting f [] dc"
  shows "resting f ms (trim_buffer (skip_bytes (length bs) (dc\<lparr>read_buf := read_buf dc @ bs, dc_writer := (if ms = [] then wb_new else queued ms)\<rparr>)))"
proof -
  let ?dc = "dc\<lparr>read_buf := read_buf dc @ bs, dc_writer := (if ms = [] then wb_new else queued ms)\<rparr>"
  have "at_end (trim_buffer (skip_bytes (length bs) ?dc))"
    by (rule at_end_trim [of _ dc]) (use assms in \<open>simp_all add: resting_def\<close>)
  then show ?thesis using assms by (simp add: resting_def trim_buffer_def skip_bytes_def)
qed

lemma session_lists_modules:
  assumes "s_link q [] k s" and "exp_control_seq r = e" and "pending_control r = (\<lambda>_. None)"
    and "list_all (\<lambda>i. length i = 32) ids" and "length ids < 256"
    and "list_all (\<lambda>i. known_mid (su_bases Q) (su_names Q) (hex_of i)) ids"
    and p: "p = make_msg MSG_MODULE_LIST_REQ (module_list_payload (map hex_of ids))" and "frame_fits e p"
  obtains s' where "on_data_in Q 0 EPOLLIN (r, ch, s_arrive (control_frame e p) s) = Some (r\<lparr>exp_control_seq := e + 1\<rparr>, ch, s')"
    "s_link (q + 1) [control_frame q (make_msg MSG_MODULE_LIST_RES [1])] k s'" "s_rest s' = s_rest s" "st s' = st s"
proof -
  let ?bs = "control_frame e p"
  let ?res = "make_msg MSG_MODULE_LIST_RES [1]"
  obtain dc where dc: "data_connections s = [dc]" "resting (client_fd s) [] dc"
    and rd: "session_reading ?bs (s_arrive ?bs s) = s\<lparr>last_wire_activity := clock (env s), heartbeating := False,
       data_connections := [dc\<lparr>read_buf := read_buf dc @ ?bs\<rparr>]\<rparr>"
    by (rule session_reading_link [OF assms(1)])
  have w: "dc_writer dc = wb_new" "dc_fd dc = client_fd s" "0 \<le> client_fd s" "control_seq s = q"
    using dc(2) assms(1) by (simp_all add: resting_def s_link_def)
  let ?s1 = "s\<lparr>last_wire_activity := clock (env s), heartbeating := False, data_connections := [dc\<lparr>read_buf := read_buf dc @ ?bs\<rparr>]\<rparr>"
  let ?dc = "dc\<lparr>read_buf := read_buf dc @ ?bs, dc_writer := queued [control_frame q ?res]\<rparr>"
  obtain K x where send: "send_control ?res ?s1 = ?s1\<lparr>data_connections := [?dc], control_seq := q + 1,
      control_rr_counter := x, env := (env s)\<lparr>kern := K\<rparr>\<rparr>"
    by (rule send_control_single [of ?s1 "dc\<lparr>read_buf := read_buf dc @ ?bs\<rparr>" ?res]) (use w in simp_all)
  have ap: "apply_control Q p (ch, session_reading ?bs (s_arrive ?bs s)) = Some (ch, send_control ?res ?s1)"
    unfolding rd using module_list_all_known [OF assms(4-6), of ?s1]
    by (simp add: apply_control_def p in_session_def make_msg_def)
  have ev: "on_data_in Q 0 EPOLLIN (r, ch, s_arrive ?bs s) = Some (r\<lparr>exp_control_seq := e + 1\<rparr>, ch,
      (send_control ?res ?s1)\<lparr>data_connections := [trim_buffer (skip_bytes (length ?bs) ?dc)]\<rparr>)"
    by (rule session_takes_frame [OF assms(1,8,2,3) ap]) (use dc in \<open>simp_all add: send\<close>)
  have rest: "resting (client_fd s) [control_frame q ?res] (trim_buffer (skip_bytes (length ?bs) ?dc))"
    using resting_trim [OF dc(2), of "[control_frame q ?res]" ?bs] by simp
  show thesis
    by (rule that [OF ev]) (use rest assms(1) in \<open>simp_all add: send s_link_def s_rest_def\<close>)
qed

lemma client_takes_module_list:
  assumes "c_link q [] k c" and "exp_control_seq r = e" and "pending_control r = (\<lambda>_. None)"
    and p: "p = make_msg MSG_MODULE_LIST_RES [1]" and "frame_fits e p"
  obtains c' where "client_data_in 0 EPOLLIN (r, ch, c_arrive (control_frame e p) c) = Some (r\<lparr>exp_control_seq := e + 1\<rparr>, ch, c')"
    "c_link (q + 1) [control_frame q (make_msg MSG_CHAIN_CREATE (chain_create_payload (c_modules c)))] k c'"
    "c_rest c' = c_rest c" "c_st c' = CL_AWAIT_CHAIN_READY"
proof -
  let ?bs = "control_frame e p"
  let ?res = "make_msg MSG_CHAIN_CREATE (chain_create_payload (c_modules c))"
  obtain dc where dc: "c_data_connections c = [dc]" "resting (tcp_fd c) [] dc"
    and rd: "client_reading ?bs (c_arrive ?bs c) = c\<lparr>c_last_activity := clock (c_env c), c_heartbeating := False,
       c_data_connections := [dc\<lparr>read_buf := read_buf dc @ ?bs\<rparr>]\<rparr>"
    by (rule client_reading_link [OF assms(1)])
  have w: "dc_writer dc = wb_new" "dc_fd dc = tcp_fd c" "0 \<le> tcp_fd c" "c_control_seq c = q"
    using dc(2) assms(1) by (simp_all add: resting_def c_link_def)
  let ?c1 = "c\<lparr>c_last_activity := clock (c_env c), c_heartbeating := False, c_data_connections := [dc\<lparr>read_buf := read_buf dc @ ?bs\<rparr>]\<rparr>"
  let ?dc = "dc\<lparr>read_buf := read_buf dc @ ?bs, dc_writer := queued [control_frame q ?res]\<rparr>"
  obtain K x where send: "client_send_control ?res ?c1 = ?c1\<lparr>c_data_connections := [?dc], c_control_seq := q + 1,
      c_control_rr := x, c_env := (c_env c)\<lparr>kern := K\<rparr>\<rparr>"
    by (rule client_send_control_single [of ?c1 "dc\<lparr>read_buf := read_buf dc @ ?bs\<rparr>" ?res]) (use w in simp_all)
  let ?c2 = "(client_send_control ?res ?c1)\<lparr>c_st := CL_AWAIT_CHAIN_READY\<rparr>"
  have ap: "client_apply_control p (ch, client_reading ?bs (c_arrive ?bs c)) = Some (ch, ?c2)"
    unfolding rd by (simp add: client_apply_control_def p in_client_def handle_module_list_res_def make_msg_def)
  have ev: "client_data_in 0 EPOLLIN (r, ch, c_arrive ?bs c) = Some (r\<lparr>exp_control_seq := e + 1\<rparr>, ch,
      ?c2\<lparr>c_data_connections := [trim_buffer (skip_bytes (length ?bs) ?dc)]\<rparr>)"
    by (rule client_takes_frame [OF assms(1,5,2,3) ap]) (use dc in \<open>simp_all add: send\<close>)
  have rest: "resting (tcp_fd c) [control_frame q ?res] (trim_buffer (skip_bytes (length ?bs) ?dc))"
    using resting_trim [OF dc(2), of "[control_frame q ?res]" ?bs] by simp
  show thesis
    by (rule that [OF ev]) (use rest assms(1) in \<open>simp_all add: send c_link_def c_rest_def\<close>)
qed


text \<open>
  The chain of the modules \<open>mods\<close> can be built at the server, and building it touches nothing of the session but
  the counter of module ids.
\<close>

definition session_chain_builds :: "'c Setup \<Rightarrow> ModuleSpec list \<Rightarrow> Session \<Rightarrow> 'c Chain \<Rightarrow> bool" where
  "session_chain_builds Q mods s ch \<longleftrightarrow>
     (\<forall>k. next_module_id k = next_module_id s \<longrightarrow> chain_config k = (chain_config s)\<lparr>cc_modules := mods\<rparr> \<longrightarrow>
        clock (env k) = clock (env s) \<longrightarrow>
        (\<exists>m. chain_new (su_bases Q) session_kapi (su_order Q) (clock (env k)) (chain_config k)
               (chain_empty\<lparr>oom := su_oom Q, rands := su_rands Q\<rparr>, k) = Some (ch, k\<lparr>next_module_id := m\<rparr>)))"

text \<open>The three messages a session without extra connections sends when its chain is ready.\<close>

definition ready_messages :: "u64 \<Rightarrow> Packet list" where
  "ready_messages sid = [make_msg MSG_TRANSMIT_READY [], make_msg MSG_CHAIN_READY (1 # u64_bytes sid), make_msg MSG_TRANSMIT_READY []]"

fun number_frames :: "byte \<Rightarrow> Packet list \<Rightarrow> bytes list" where
  "number_frames q [] = []"
| "number_frames q (p # ps) = control_frame q p # number_frames (q + 1) ps"

lemma three_sends:
  assumes "data_connections s = [dc]" and "0 \<le> dc_fd dc" and "dc_writer dc = wb_new"
  obtains K x where "send_control p3 (send_control p2 (send_control p1 s)) = s\<lparr>data_connections := [dc\<lparr>dc_writer :=
      queued (number_frames (control_seq s) [p1, p2, p3])\<rparr>], control_seq := 3 + control_seq s, control_rr_counter := x,
      env := (env s)\<lparr>kern := K\<rparr>\<rparr>"
proof -
  let ?q = "control_seq s"
  obtain K1 x1 where s1: "send_control p1 s = s\<lparr>data_connections := [dc\<lparr>dc_writer := queued [control_frame ?q p1]\<rparr>],
      control_seq := ?q + 1, control_rr_counter := x1, env := (env s)\<lparr>kern := K1\<rparr>\<rparr>" (is "_ = ?s1")
    by (rule send_control_single [OF assms(1,2), of p1]) (use assms(3) in simp)
  obtain K2 x2 where s2: "send_control p2 ?s1 = s\<lparr>data_connections := [dc\<lparr>dc_writer :=
        queued [control_frame ?q p1, control_frame (?q + 1) p2]\<rparr>],
      control_seq := 2 + ?q, control_rr_counter := x2, env := (env s)\<lparr>kern := K2\<rparr>\<rparr>" (is "_ = ?s2")
    by (rule send_control_single [of ?s1 "dc\<lparr>dc_writer := queued [control_frame ?q p1]\<rparr>" p2]) (use assms(2) in simp_all)
  obtain K3 x3 where s3: "send_control p3 ?s2 = s\<lparr>data_connections := [dc\<lparr>dc_writer :=
        queued [control_frame ?q p1, control_frame (?q + 1) p2, control_frame (2 + ?q) p3]\<rparr>],
      control_seq := 3 + ?q, control_rr_counter := x3, env := (env s)\<lparr>kern := K3\<rparr>\<rparr>"
    by (rule send_control_single [of ?s2 "dc\<lparr>dc_writer := queued [control_frame ?q p1, control_frame (?q + 1) p2]\<rparr>" p3])
      (use assms(2) in simp_all)
  show thesis by (rule that [where K = K3 and x = x3]) (simp only: s1 s2 s3, simp)
qed

lemma total_extra_callback [simp]: "total_extra_outputs (set_pause_callback dir ch) = total_extra_outputs ch"
  by (simp add: set_pause_callback_def total_extra_outputs_def)

lemma control_on_keeps_rest:
  "pending_reconnect_targets (send_control_on m x js s) = pending_reconnect_targets s \<and>
   session_id (send_control_on m x js s) = session_id s"
  by (induction js arbitrary: s)
    (simp_all add: upd_dc_def register_data_conn_epollout_def upd_kernel_def upd_env_def upd_kern_def Let_def)

lemma control_keeps_rest [simp]:
  "pending_reconnect_targets (send_control p s) = pending_reconnect_targets s" "session_id (send_control p s) = session_id s"
  by (simp_all add: send_control_def control_on_keeps_rest Let_def)

lemma transmit_ready_plain:
  assumes "pending_reconnect_targets s = []"
  shows "transmit_ready s = send_control (make_msg MSG_TRANSMIT_READY []) s"
proof -
  have "process_pending_reconnect_targets s = s" using assms by (cases s) (simp add: process_pending_reconnect_targets_def)
  then show ?thesis by (simp add: transmit_ready_def)
qed

lemma session_builds_chain:
  assumes "s_link q [] k s" and "exp_control_seq r = e" and "pending_control r = (\<lambda>_. None)"
    and "list_all module_spec_ok mods" and "length mods < 256"
    and p: "p = make_msg MSG_CHAIN_CREATE (chain_create_payload mods)" and "frame_fits e p"
    and "session_chain_builds Q mods s ch" and te: "total_extra_outputs ch = 0"
    and "pending_data_conns s = []" and "pending_reconnect_targets s = []"
  obtains s' where "on_data_in Q 0 EPOLLIN (r, ch0, s_arrive (control_frame e p) s)
      = Some (r\<lparr>exp_control_seq := e + 1\<rparr>, Some (set_pause_callback 1 (set_pause_callback 0 ch)), s')"
    "s_link (3 + q) (number_frames q (ready_messages (session_id s))) k s'" "client_fd s' = client_fd s"
    "session_id s' = session_id s" "st s' = RUNNING" "cc_modules (chain_config s') = mods"
proof -
  let ?bs = "control_frame e p"
  let ?ch = "set_pause_callback 1 (set_pause_callback 0 ch)"
  have te': "total_extra_outputs ?ch = 0" using te by simp
  obtain dc where dc: "data_connections s = [dc]" "resting (client_fd s) [] dc"
    and rd: "session_reading ?bs (s_arrive ?bs s) = s\<lparr>last_wire_activity := clock (env s), heartbeating := False,
       data_connections := [dc\<lparr>read_buf := read_buf dc @ ?bs\<rparr>]\<rparr>"
    by (rule session_reading_link [OF assms(1)])
  have w: "dc_writer dc = wb_new" "dc_fd dc = client_fd s" "0 \<le> client_fd s" "control_seq s = q"
    using dc(2) assms(1) by (simp_all add: resting_def s_link_def)
  let ?dcr = "dc\<lparr>read_buf := read_buf dc @ ?bs\<rparr>"
  let ?s1 = "s\<lparr>last_wire_activity := clock (env s), heartbeating := False, data_connections := [?dcr],
     chain_config := (chain_config s)\<lparr>cc_modules := mods\<rparr>\<rparr>"
  obtain m where new: "chain_new (su_bases Q) session_kapi (su_order Q) (clock (env s)) ((chain_config s)\<lparr>cc_modules := mods\<rparr>)
      (chain_empty\<lparr>oom := su_oom Q, rands := su_rands Q\<rparr>, ?s1) = Some (ch, ?s1\<lparr>next_module_id := m\<rparr>)"
    using assms(8) [unfolded session_chain_builds_def, rule_format, of ?s1] by auto
  let ?s2 = "?s1\<lparr>next_module_id := m, st := RUNNING, total_extra := 0, pending_data_conns := []\<rparr>"
  let ?ms = "number_frames q (ready_messages (session_id s))"
  let ?dc = "dc\<lparr>read_buf := read_buf dc @ ?bs, dc_writer := queued ?ms\<rparr>"
  obtain K x where send: "send_control (make_msg MSG_TRANSMIT_READY [])
       (send_control (make_msg MSG_CHAIN_READY (1 # u64_bytes (session_id s))) (send_control (make_msg MSG_TRANSMIT_READY []) ?s2))
     = ?s2\<lparr>data_connections := [?dc], control_seq := 3 + q, control_rr_counter := x, env := (env s)\<lparr>kern := K\<rparr>\<rparr>" (is "_ = ?s3")
    by (rule three_sends [where s = ?s2 and dc = ?dcr and ?p1.0 = "make_msg MSG_TRANSMIT_READY []" and
        ?p2.0 = "make_msg MSG_CHAIN_READY (1 # u64_bytes (session_id s))" and ?p3.0 = "make_msg MSG_TRANSMIT_READY []"]) (use w in \<open>simp_all add: ready_messages_def\<close>)
  have dec: "decode_modules (unat (of_nat (length mods) :: byte)) (concat (map encode_module mods)) = mods"
    using decode_modules_encode [OF assms(4), of "[]"] assms(5) by (simp add: unat_of_nat_byte)
  have ap: "apply_control Q p (ch0, session_reading ?bs (s_arrive ?bs s)) = Some (Some ?ch, ?s3)"
    unfolding rd using new te te' send assms(10,11) w
    by (simp add: apply_control_def p make_msg_def handle_chain_create_def chain_create_payload_def dec process_pending_data_conns_def
        all_ready_def transmit_ready_plain)
  have ev: "on_data_in Q 0 EPOLLIN (r, ch0, s_arrive ?bs s) = Some (r\<lparr>exp_control_seq := e + 1\<rparr>, Some ?ch,
      ?s3\<lparr>data_connections := [trim_buffer (skip_bytes (length ?bs) ?dc)]\<rparr>)"
    by (rule session_takes_frame [OF assms(1,7,2,3) ap]) (use dc in simp_all)
  have "?ms \<noteq> []" by (simp add: ready_messages_def)
  then have rest: "resting (client_fd s) ?ms (trim_buffer (skip_bytes (length ?bs) ?dc))"
    using resting_trim [OF dc(2), of ?ms ?bs] by simp
  show thesis
    by (rule that [OF ev]) (use rest assms(1) in \<open>simp_all add: s_link_def\<close>)
qed


lemma maybe_listen_keeps [simp]:
  "c_data_connections (maybe_listen c) = c_data_connections c" "c_st (maybe_listen c) = c_st c"
  "setup_ok (maybe_listen c) = setup_ok c" "c_session_id (maybe_listen c) = c_session_id c"
  by (simp_all add: maybe_listen_def start_listener_def c_kernel_def c_upd_env_def c_close_def Let_def split: prod.splits)

lemma maybe_listen_listens:
  assumes "c_listen_port c > 0" and "c_listen_answer c = (sock, True)" and "0 \<le> sock"
  shows "c_listen_fd (maybe_listen c) = sock"
  using assms by (simp add: maybe_listen_def start_listener_def c_kernel_def c_upd_env_def Let_def)

lemma client_transmit_ready_ignored:
  assumes "c_st c \<noteq> CL_AWAIT_TRANSMIT_READY"
  shows "client_apply_control (make_msg MSG_TRANSMIT_READY []) (ch, c) = Some (ch, c)"
  using assms by (simp add: client_apply_control_def make_msg_def handle_transmit_ready_def)

lemma client_chain_ready_runs:
  assumes "c_st c = CL_AWAIT_CHAIN_READY" and "total_extra_outputs ch = 0"
  shows "client_apply_control (make_msg MSG_CHAIN_READY x) (Some ch, c)
    = Some (Some ch, maybe_listen (now_running (c\<lparr>c_total_extra := 0\<rparr>)))"
  using assms by (simp add: client_apply_control_def make_msg_def handle_chain_ready_def in_client_def Let_def)

lemma client_comes_up:
  assumes "c_link q [] k c" and "c_st c = CL_AWAIT_CHAIN_READY" and "total_extra_outputs ch = 0"
    and "exp_control_seq r = e" and "pending_control r = (\<lambda>_. None)"
    and bs: "bs = concat (number_frames e (ready_messages sid))" and "length bs \<le> MAX_PACKET_SIZE"
  obtains c' where "client_data_in 0 EPOLLIN (r, Some ch, c_arrive bs c) = Some (r\<lparr>exp_control_seq := 3 + e\<rparr>, Some ch, c')"
    "c_st c' = CL_RUNNING" "setup_ok c'" "c_session_id c' = c_session_id c"
    "\<And>sock. c_listen_port c > 0 \<Longrightarrow> c_listen_answer c = (sock, True) \<Longrightarrow> 0 \<le> sock \<Longrightarrow> c_listen_fd c' = sock"
proof -
  let ?tr = "make_msg MSG_TRANSMIT_READY []"
  let ?cr = "make_msg MSG_CHAIN_READY (1 # u64_bytes sid)"
  let ?f1 = "control_frame e ?tr" and ?f2 = "control_frame (e + 1) ?cr" and ?f3 = "control_frame (2 + e) ?tr"
  have bs': "bs = ?f1 @ ?f2 @ ?f3" by (simp add: bs ready_messages_def)
  have ok: "packet_ok ?tr" "packet_ok ?cr" by (simp_all add: packet_ok_def make_msg_def)
  obtain dc where dc: "c_data_connections c = [dc]" "resting (tcp_fd c) [] dc"
    and rd: "client_reading bs (c_arrive bs c) = c\<lparr>c_last_activity := clock (c_env c), c_heartbeating := False,
       c_data_connections := [dc\<lparr>read_buf := read_buf dc @ bs\<rparr>]\<rparr>" (is "_ = ?c1")
    by (rule client_reading_link [OF assms(1)])
  have ans: "rd_answers (c_env c) (tcp_fd c) = []" using assms(1) by (simp add: c_link_def)
  have off: "dc_read_offset dc = length (read_buf dc)" "dc_fd dc = tcp_fd c" using dc(2) by (simp_all add: resting_def at_end_def)
  let ?at = "\<lambda>n c. c\<lparr>c_data_connections := [dc\<lparr>read_buf := read_buf dc @ bs, dc_read_offset := n\<rparr>]\<rparr>"
  let ?c2 = "?at (length (read_buf dc) + length ?f1) ?c1"
  let ?c3 = "?at (length (read_buf dc) + length ?f1 + length ?f2) (maybe_listen (now_running (?c2\<lparr>c_total_extra := 0\<rparr>)))"
  let ?c4 = "?at (length (read_buf dc) + length ?f1 + length ?f2 + length ?f3) ?c3"
  have ev: "client_data_in 0 EPOLLIN (r, Some ch, c_arrive bs c)
      = map_option (c_upd_conn 0 trim_buffer) (client_data_loop 0 (r, Some ch, ?c1))"
    unfolding rd [symmetric] by (rule client_event_read [where dc = dc])
      (use dc ans assms(7) off in \<open>simp_all add: c_arrive_def arrive_def bs' control_frame_nonempty\<close>)
  have l1: "client_data_loop 0 (r, Some ch, ?c1) = client_data_loop 0 (r\<lparr>exp_control_seq := e + 1\<rparr>, Some ch, ?c2)"
    by (subst client_loop_control [OF _ ok(1) client_transmit_ready_ignored assms(4,5), where rest = "?f2 @ ?f3"])
      (use off assms(2) in \<open>simp_all add: c_conn_at_def bs' c_upd_conn_def in_client_def c_upd_dc_def skip_bytes_def\<close>)
  have l2: "\<dots> = client_data_loop 0 (r\<lparr>exp_control_seq := 2 + e\<rparr>, Some ch, ?c3)"
    by (subst client_loop_control [OF _ ok(2) client_chain_ready_runs [OF _ assms(3)], where rest = "?f3" and q = "e + 1"])
      (use off assms(2,5) in \<open>simp_all add: c_conn_at_def bs' c_upd_conn_def in_client_def c_upd_dc_def skip_bytes_def now_running_def\<close>)
  have l3: "\<dots> = client_data_loop 0 (r\<lparr>exp_control_seq := 3 + e\<rparr>, Some ch, ?c4)"
    by (subst client_loop_control [OF _ ok(1) client_transmit_ready_ignored, where rest = "[]" and q = "2 + e"])
      (use off assms(2,5) in \<open>simp_all add: c_conn_at_def bs' c_upd_conn_def in_client_def c_upd_dc_def skip_bytes_def now_running_def\<close>)
  have l4: "\<dots> = Some (r\<lparr>exp_control_seq := 3 + e\<rparr>, Some ch, ?c4)"
    by (rule client_loop_end) (simp add: c_conn_at_def bs')
  show thesis
    by (rule that [of "c_upd_dc 0 trim_buffer ?c4"])
      (unfold ev l1 l2 l3 l4, simp_all add: c_upd_conn_def in_client_def c_upd_dc_def now_running_def maybe_listen_listens)
qed


section \<open>From the challenge to a running tunnel\<close>

text \<open>
  A round after the authentication: the client's event loop writes out what is queued, the session reads and handles
  it and writes out its answers, and the client reads and handles those.
\<close>

definition wire_round :: "'d Setup \<Rightarrow> 'c kworld \<Rightarrow> 'd dworld \<Rightarrow> ('c kworld \<times> 'd dworld) option" where
  "wire_round Q d e = do {
     let c = snd (snd d);
     c' \<leftarrow> client_data_out 0 EPOLLOUT c;
     let up = new_output (tcp_fd c) (osys (c_env c)) (osys (c_env c'));
     e \<leftarrow> on_data_in Q 0 EPOLLIN (fst e, in_session (s_arrive up) (snd e));
     let s = snd (snd e);
     s' \<leftarrow> on_data_out 0 (client_fd s) EPOLLOUT s;
     let down = new_output (client_fd s) (osys (env s)) (osys (env s'));
     d \<leftarrow> client_data_in 0 EPOLLIN (fst d, fst (snd d), c_arrive down c');
     Some (d, fst e, fst (snd e), s')
   }"

definition bring_up :: "'c ClientSetup \<Rightarrow> 'd Setup \<Rightarrow> Client \<Rightarrow> Session \<Rightarrow> ('c kworld \<times> 'd dworld) option" where
  "bring_up P Q c s = do {
     (_, w, v) \<leftarrow> dialogue P Q 3 (serialize (make_msg MSG_AUTH_CHALLENGE (bytes_of (challenge1 s)))) (None, c) (None, s);
     (d, e) \<leftarrow> wire_round Q (ctl_new, w) (ctl_new, v);
     wire_round Q d e
   }"

lemma frame_fitsI: "length (pkt_payload p) \<le> 65536 \<Longrightarrow> frame_fits q p"
  using write_varint_length10 [of "ucast (pkt_type p)"] write_varint_length10 [of "of_nat (length (pkt_payload p))"]
    write_varint_length10 [of "of_nat (2 + length (serialize p))"]
  by (simp add: frame_fits_def packet_ok_def control_frame_def serialize_eq)

lemma sendable_frame: "frame_fits q p \<Longrightarrow> sendable [control_frame q p]"
  by (simp add: frame_fits_def sendable_def control_frame_nonempty)

lemma sendable_ready: "sendable (number_frames q (ready_messages sid))" "length (concat (number_frames q (ready_messages sid))) \<le> MAX_PACKET_SIZE"
proof -
  have l: "length (control_frame i p) \<le> length (pkt_payload p) + 32" for i p
    using write_varint_length10 [of "ucast (pkt_type p)"] write_varint_length10 [of "of_nat (length (pkt_payload p))"]
      write_varint_length10 [of "of_nat (2 + length (serialize p))"]
    by (simp add: control_frame_def serialize_eq)
  have "length (control_frame i (make_msg MSG_TRANSMIT_READY [])) \<le> 100"
    "length (control_frame i (make_msg MSG_CHAIN_READY (1 # u64_bytes sid))) \<le> 100" for i
    using l [of i "make_msg MSG_TRANSMIT_READY []"] l [of i "make_msg MSG_CHAIN_READY (1 # u64_bytes sid)"]
    by (simp_all add: make_msg_def)
  note b = this [of q] this [of "q + 1"] this [of "2 + q"]
  show "sendable (number_frames q (ready_messages sid))"
    using b by (simp add: ready_messages_def sendable_def control_frame_nonempty)
  show "length (concat (number_frames q (ready_messages sid))) \<le> MAX_PACKET_SIZE"
    using b by (simp add: ready_messages_def)
qed

text \<open>The first round lists the modules.\<close>

lemma modules_round:
  assumes "c_link (q + 1) [control_frame q p] (1 + k) c" and "s_link e [] (1 + l) s"
    and "exp_control_seq r = e" "pending_control r = (\<lambda>_. None)" "exp_control_seq r' = q" "pending_control r' = (\<lambda>_. None)"
    and ids: "list_all (\<lambda>i. length i = 32) ids" "length ids < 256"
      "list_all (\<lambda>i. known_mid (su_bases Q) (su_names Q) (hex_of i)) ids"
    and p: "p = make_msg MSG_MODULE_LIST_REQ (module_list_payload (map hex_of ids))"
  obtains c' s' where "wire_round Q (r, ch, c) (r', ch', s)
      = Some ((r\<lparr>exp_control_seq := e + 1\<rparr>, ch, c'), (r'\<lparr>exp_control_seq := q + 1\<rparr>, ch', s'))"
    "c_link (2 + q) [control_frame (q + 1) (make_msg MSG_CHAIN_CREATE (chain_create_payload (c_modules c)))] k c'"
    "c_rest c' = c_rest c" "c_st c' = CL_AWAIT_CHAIN_READY" "s_link (e + 1) [] l s'" "s_rest s' = s_rest s"
proof -
  let ?res = "make_msg MSG_MODULE_LIST_RES [1]"
  have fit: "frame_fits q p" "frame_fits e ?res"
    using module_list_payload_raw [OF ids(1)] ids(2) by (simp_all add: p frame_fitsI make_msg_def)
  obtain c1 where c1: "client_data_out 0 EPOLLOUT c = Some c1" "c_link (q + 1) [] k c1" "c_rest c1 = c_rest c"
      "new_output (tcp_fd c) (osys (c_env c)) (osys (c_env c1)) = control_frame q p"
    by (rule c_flush [of "q + 1" "[control_frame q p]" k c]) (use assms(1) sendable_frame [OF fit(1)] in simp_all)
  obtain s1 where s1: "on_data_in Q 0 EPOLLIN (r', ch', s_arrive (control_frame q p) s) = Some (r'\<lparr>exp_control_seq := q + 1\<rparr>, ch', s1)"
      "s_link (e + 1) [control_frame e ?res] (1 + l) s1" "s_rest s1 = s_rest s"
    by (rule session_lists_modules [OF assms(2,5,6) ids p fit(1), of ch'])
  obtain s2 where s2: "on_data_out 0 (client_fd s1) EPOLLOUT s1 = Some s2" "s_link (e + 1) [] l s2" "s_rest s2 = s_rest s1"
      "new_output (client_fd s1) (osys (env s1)) (osys (env s2)) = control_frame e ?res"
    by (rule s_flush [of "e + 1" "[control_frame e ?res]" l s1 "client_fd s1"]) (use s1(2) sendable_frame [OF fit(2)] in simp_all)
  obtain c2 where c2: "client_data_in 0 EPOLLIN (r, ch, c_arrive (control_frame e ?res) c1) = Some (r\<lparr>exp_control_seq := e + 1\<rparr>, ch, c2)"
      "c_link (q + 1 + 1) [control_frame (q + 1) (make_msg MSG_CHAIN_CREATE (chain_create_payload (c_modules c1)))] k c2"
      "c_rest c2 = c_rest c1" "c_st c2 = CL_AWAIT_CHAIN_READY"
    by (rule client_takes_module_list [OF c1(2) assms(3,4) refl fit(2), of ch])
  have round: "wire_round Q (r, ch, c) (r', ch', s)
      = Some ((r\<lparr>exp_control_seq := e + 1\<rparr>, ch, c2), (r'\<lparr>exp_control_seq := q + 1\<rparr>, ch', s2))"
    by (simp add: wire_round_def c1(1,4) in_session_def s1(1) s2(1,4) c2(1) Let_def)
  have "c_modules c1 = c_modules c" using c1(3) by (simp add: c_rest_def)
  then show thesis by (intro that [OF round]) (use c2 c1(3) s2 s1(3) in simp_all)
qed

text \<open>The second round builds the session's chain and starts the client.\<close>

lemma chain_round:
  assumes "c_link x [control_frame q p] (1 + k) c" and "s_link e [] (3 + l) s" and "c_st c = CL_AWAIT_CHAIN_READY"
    and "exp_control_seq r = e" "pending_control r = (\<lambda>_. None)" "exp_control_seq r' = q" "pending_control r' = (\<lambda>_. None)"
    and mods: "list_all module_spec_ok mods" "length mods < 256" "length (chain_create_payload mods) \<le> 65536"
    and p: "p = make_msg MSG_CHAIN_CREATE (chain_create_payload mods)"
    and "session_chain_builds Q mods s sch" and "total_extra_outputs sch = 0" and "total_extra_outputs ch = 0"
    and "pending_data_conns s = []" and "pending_reconnect_targets s = []"
    and "c_listen_port c > 0" and "c_listen_answer c = (sock, True)" and "0 \<le> sock"
  shows "\<exists>c' s'. wire_round Q (r, Some ch, c) (r', ch0, s) = Some ((r\<lparr>exp_control_seq := 3 + e\<rparr>, Some ch, c'),
        (r'\<lparr>exp_control_seq := q + 1\<rparr>, Some (set_pause_callback 1 (set_pause_callback 0 sch)), s'))
      \<and> c_st c' = CL_RUNNING \<and> setup_ok c' \<and> c_session_id c' = c_session_id c \<and> c_listen_fd c' = sock
      \<and> st s' = RUNNING \<and> session_id s' = session_id s \<and> cc_modules (chain_config s') = mods"
proof -
  have fit: "frame_fits q p" using mods(3) by (simp add: p frame_fitsI make_msg_def)
  obtain c1 where c1: "client_data_out 0 EPOLLOUT c = Some c1" "c_link x [] k c1" "c_rest c1 = c_rest c" "c_st c1 = c_st c"
      "new_output (tcp_fd c) (osys (c_env c)) (osys (c_env c1)) = control_frame q p"
    by (rule c_flush [of x "[control_frame q p]" k c]) (use assms(1) sendable_frame [OF fit] in simp_all)
  let ?ms = "number_frames e (ready_messages (session_id s))"
  obtain s1 where s1: "on_data_in Q 0 EPOLLIN (r', ch0, s_arrive (control_frame q p) s)
        = Some (r'\<lparr>exp_control_seq := q + 1\<rparr>, Some (set_pause_callback 1 (set_pause_callback 0 sch)), s1)"
      "s_link (3 + e) ?ms (3 + l) s1" "session_id s1 = session_id s" "st s1 = RUNNING" "cc_modules (chain_config s1) = mods"
    by (rule session_builds_chain [OF assms(2,6,7) mods(1,2) p fit assms(12,13,15,16), of ch0])
  have len: "length ?ms = 3" "?ms \<noteq> []" by (simp_all add: ready_messages_def)
  obtain s2 where s2: "on_data_out 0 (client_fd s1) EPOLLOUT s1 = Some s2" "s_rest s2 = s_rest s1" "st s2 = st s1"
      "new_output (client_fd s1) (osys (env s1)) (osys (env s2)) = concat ?ms"
    by (rule s_flush [OF _ sendable_ready(1) len(2), of "3 + e" l s1 "client_fd s1"]) (use s1(2) len(1) in \<open>simp_all only:\<close>)
  have c1': "c_st c1 = CL_AWAIT_CHAIN_READY" using c1(4) assms(3) by simp
  obtain c2 where c2: "client_data_in 0 EPOLLIN (r, Some ch, c_arrive (concat ?ms) c1)
        = Some (r\<lparr>exp_control_seq := 3 + e\<rparr>, Some ch, c2)"
      "c_st c2 = CL_RUNNING" "setup_ok c2" "c_session_id c2 = c_session_id c1"
      "\<And>sock. c_listen_port c1 > 0 \<Longrightarrow> c_listen_answer c1 = (sock, True) \<Longrightarrow> 0 \<le> sock \<Longrightarrow> c_listen_fd c2 = sock"
    by (rule client_comes_up [OF c1(2) c1' assms(14,4,5) refl sendable_ready(2)]) blast
  have "wire_round Q (r, Some ch, c) (r', ch0, s) = Some ((r\<lparr>exp_control_seq := 3 + e\<rparr>, Some ch, c2),
      (r'\<lparr>exp_control_seq := q + 1\<rparr>, Some (set_pause_callback 1 (set_pause_callback 0 sch)), s2))"
    by (simp add: wire_round_def c1(1,5) in_session_def s1(1) s2(1,4) c2(1) Let_def)
  then show ?thesis
    using c2(2-5) c1(3) s2(2,3) s1(3-5) assms(17-19) by (auto simp: c_rest_def s_rest_def)
qed


text \<open>
  C1: client and server together.  A client and a session that know the same password, with sockets that take what is
  written, the client's modules known to the server and both chains without extra connections: whatever the challenges,
  identifiers and module parameters, the exchange that starts with the session's challenge ends after three messages
  from each side and two rounds of control frames with both ends running, on the same session id, with the client's
  modules in the session's chain and the client listening.
\<close>

theorem tunnel_comes_up:
  assumes "fresh_client c" and "fresh_session s" and "c_password c = password s" and "cs_sha256 P = su_sha256 Q"
    and "\<forall>x. length (su_sha256 Q x) = 32" and "length (challenge1 s) < 2 ^ 32" and "length (client_new_challenge c) < 2 ^ 32"
    and "roomy 5 (osys (c_env c))" and "roomy 6 (osys (env s))"
    and "rd_answers (c_env c) (tcp_fd c) = []" and "rd_answers (env s) (client_fd s) = []"
    and "client_chain_builds P c ch" and "total_extra_outputs ch = 0"
    and "session_chain_builds Q (c_modules c) s sch" and "total_extra_outputs sch = 0"
    and "module_mids (cs_bases P) (c_modules c) = Some (map hex_of ids)" and "list_all (\<lambda>i. length i = 32) ids"
    and "list_all (\<lambda>i. known_mid (su_bases Q) (su_names Q) (hex_of i)) ids"
    and "list_all module_spec_ok (c_modules c)" and "length ids < 256" and "length (c_modules c) < 256"
    and "length (chain_create_payload (c_modules c)) \<le> 65536"
    and "c_listen_port c > 0" and "c_listen_answer c = (sock, True)" and "0 \<le> sock"
  shows "\<exists>r cch c' r' sch' s'. bring_up P Q c s = Some ((r, Some cch, c'), (r', Some sch', s'))
    \<and> c_st c' = CL_RUNNING \<and> setup_ok c' \<and> c_listen_fd c' = sock \<and> st s' = RUNNING
    \<and> c_session_id c' = session_id s' \<and> session_id s' = session_id s \<and> cc_modules (chain_config s') = c_modules c"
proof -
  let ?req = "make_msg MSG_MODULE_LIST_REQ (module_list_payload (map hex_of ids))"
  have r: "roomy (Suc (Suc (Suc 2))) (osys (c_env c))" "roomy (Suc (Suc 4)) (osys (env s))"
    using assms(8,9) by (simp_all add: eval_nat_numeral)
  have te: "total_extra_outputs ch \<le> MAX_WIRE_CONNECTIONS" using assms(13) by simp
  obtain K x m w K' w' where auth: "dialogue P Q 3 (serialize (make_msg MSG_AUTH_CHALLENGE (bytes_of (challenge1 s)))) (None, c) (None, s)
     = Some ([], (Some (set_pause_callback 1 (set_pause_callback 0 ch)), c
         \<lparr>c_challenge1 := challenge1 s, c_session_id := session_id s, client_challenge := client_new_challenge c,
          c_rands := tl (c_rands c), c_next_module_id := m, c_control_seq := 1, c_control_rr := x,
          c_st := CL_AWAIT_MODULE_LIST_RES, c_data_connections := [dc_new\<lparr>dc_fd := tcp_fd c,
            dc_writer := queued [control_frame 0 ?req]\<rparr>], c_env := (c_env c)\<lparr>kern := K, osys := w\<rparr>\<rparr>),
         (None, s\<lparr>st := AWAIT_CHAIN_CREATE, data_connections := [dc_new\<lparr>dc_fd := client_fd s\<rparr>],
            env := (env s)\<lparr>kern := K', osys := w'\<rparr>\<rparr>))" (is "_ = Some ([], (Some ?ch, ?c1), (None, ?s1))")
      and room: "roomy 2 w" "roomy 4 w'"
    by (rule auth_dialogue [OF assms(1-7) r assms(12) te assms(16)])
  have fc: "0 \<le> tcp_fd c" "0 \<le> client_fd s" "control_seq s = 0" "pending_data_conns s = []" "pending_reconnect_targets s = []"
    using assms(1,2) by (simp_all add: fresh_client_def fresh_session_def)
  have rest: "resting f ms (dc_new\<lparr>dc_fd := f, dc_writer := (if ms = [] then wb_new else queued ms)\<rparr>)" for f ms
    by (simp add: resting_def at_end_def dc_new_def)
  have l1: "c_link (0 + 1) [control_frame 0 ?req] (1 + 1) ?c1" "s_link 0 [] (1 + 3) ?s1"
    using fc room assms(10,11) rest [of "tcp_fd c" "[control_frame 0 ?req]"] rest [of "client_fd s" "[]"]
    by (simp_all add: c_link_def s_link_def dc_new_def numeral_2_eq_2 [symmetric])
  obtain c2 s2 where r2: "wire_round Q (ctl_new, Some ?ch, ?c1) (ctl_new, None, ?s1)
        = Some ((ctl_new\<lparr>exp_control_seq := 0 + 1\<rparr>, Some ?ch, c2), (ctl_new\<lparr>exp_control_seq := 0 + 1\<rparr>, None, s2))"
      "c_link (2 + 0) [control_frame (0 + 1) (make_msg MSG_CHAIN_CREATE (chain_create_payload (c_modules ?c1)))] 1 c2"
      "c_rest c2 = c_rest ?c1" "c_st c2 = CL_AWAIT_CHAIN_READY" "s_link (0 + 1) [] 3 s2" "s_rest s2 = s_rest ?s1"
    by (rule modules_round [OF l1 _ _ _ _ assms(17,20,18) refl, of ctl_new ctl_new]) (simp_all add: ctl_new_def)
  have sb: "session_chain_builds Q (c_modules c) s2 sch"
    using assms(14) r2(6) by (simp add: session_chain_builds_def s_rest_def)
  have "\<exists>c' s'. wire_round Q (ctl_new\<lparr>exp_control_seq := 0 + 1\<rparr>, Some ?ch, c2) (ctl_new\<lparr>exp_control_seq := 0 + 1\<rparr>, None, s2)
        = Some ((ctl_new\<lparr>exp_control_seq := 0 + 1\<rparr>\<lparr>exp_control_seq := 3 + (0 + 1)\<rparr>, Some ?ch, c'),
        (ctl_new\<lparr>exp_control_seq := 0 + 1\<rparr>\<lparr>exp_control_seq := 0 + 1 + 1\<rparr>, Some (set_pause_callback 1 (set_pause_callback 0 sch)), s'))
      \<and> c_st c' = CL_RUNNING \<and> setup_ok c' \<and> c_session_id c' = c_session_id c2 \<and> c_listen_fd c' = sock
      \<and> st s' = RUNNING \<and> session_id s' = session_id s2 \<and> cc_modules (chain_config s') = c_modules c"
    by (rule chain_round [where q = "0 + 1" and x = 2 and k = 0 and e = "0 + 1" and l = 0, OF _ _ r2(4) _ _ _ _ assms(19,21,22) refl sb assms(15)])
      (use r2 fc assms(13,23-25) in \<open>simp_all add: ctl_new_def c_rest_def s_rest_def\<close>)
  then show ?thesis
    using r2(1,3,6) by (fastforce simp: bring_up_def auth c_rest_def s_rest_def)
qed

text \<open>A tunnel with the copy module at both ends.\<close>

definition tunnel_mid :: bytes where "tunnel_mid = replicate 32 7"

definition tunnel_client_setup :: "module_ctx ClientSetup" where
  "tunnel_client_setup = \<lparr>cs_bases = [''copy'' \<mapsto> copy_base (\<lambda>_. hex_of tunnel_mid)], cs_order = (\<lambda>x. x), cs_oom = [], cs_rands = [],
     cs_sha256 = su_sha256 demo_setup\<rparr>"

definition tunnel_session_setup :: "module_ctx Setup" where
  "tunnel_session_setup = \<lparr>su_bases = [''copy'' \<mapsto> copy_base (\<lambda>_. hex_of tunnel_mid)], su_names = [''copy''],
     su_order = (\<lambda>x. x), su_oom = [], su_rands = [], su_sha256 = su_sha256 demo_setup, su_resumable = (\<lambda>_. False)\<rparr>"

definition tunnel_client :: Client where
  "tunnel_client = (client_new ''pw'' 8080 ''t:1'' [copy_spec] 30000 (env_new\<lparr>osys := os_with (replicate 5 (Wrote (2 ^ 33)))\<rparr>))
     \<lparr>c_st := CL_AWAIT_AUTH1_CHALLENGE, tcp_fd := 6, c_rands := [5], c_listen_answer := (9, True)\<rparr>"

definition tunnel_session :: Session where
  "tunnel_session = (session_new 4 ''pw'' 30000 1 (env_new\<lparr>osys := os_with (replicate 6 (Wrote (2 ^ 33)))\<rparr>))\<lparr>challenge1 := ''77''\<rparr>"


definition tunnel_chain :: "module_ctx Chain" where
  "tunnel_chain = chain_empty\<lparr>modules := [(new_module ''copy'' 0 0)\<lparr>m_ctx := Some (CopyCtx \<lparr>cp_trace = False, cp_node_id = 0, mode_copy = False\<rparr>), last_activity := 0,
     near := [None, None], wire_dst := 1\<rparr>], entry_ext := Some 0, wire_entries := [None, Some 0]\<rparr>"

lemmas tunnel_chain_defs = chain_new_def copy_spec_def create_one_def cfg_default_def copy_base_def build_loop.simps link_main_def
  upd_module_def chain_empty_def module_at_def tunnel_chain_def copy_init_def c_str_def env_new_def new_module_def chain_api_def

lemma tunnel_client_builds: "client_chain_builds tunnel_client_setup tunnel_client tunnel_chain"
  unfolding client_chain_builds_def
proof (intro allI impI exI)
  fix k :: Client
  assume "c_next_module_id k = c_next_module_id tunnel_client" "c_chain_config k = c_chain_config tunnel_client"
    "clock (c_env k) = clock (c_env tunnel_client)"
  then show "chain_new (cs_bases tunnel_client_setup) client_kapi (cs_order tunnel_client_setup) (clock (c_env k)) (c_chain_config k)
      (chain_empty\<lparr>oom := cs_oom tunnel_client_setup, rands := cs_rands tunnel_client_setup\<rparr>, k)
    = Some (tunnel_chain, k\<lparr>c_next_module_id := 1\<rparr>)"
    by (simp add: tunnel_chain_defs tunnel_client_setup_def tunnel_client_def client_new_def client_kapi_def client_alloc_module_id_def Let_def)
qed

lemma tunnel_session_builds: "session_chain_builds tunnel_session_setup [copy_spec] tunnel_session tunnel_chain"
  unfolding session_chain_builds_def
proof (intro allI impI exI)
  fix k :: Session
  assume "next_module_id k = next_module_id tunnel_session" "chain_config k = (chain_config tunnel_session)\<lparr>cc_modules := [copy_spec]\<rparr>"
    "clock (env k) = clock (env tunnel_session)"
  then show "chain_new (su_bases tunnel_session_setup) session_kapi (su_order tunnel_session_setup) (clock (env k)) (chain_config k)
      (chain_empty\<lparr>oom := su_oom tunnel_session_setup, rands := su_rands tunnel_session_setup\<rparr>, k)
    = Some (tunnel_chain, k\<lparr>next_module_id := 1\<rparr>)"
    by (simp add: tunnel_chain_defs tunnel_session_setup_def tunnel_session_def session_new_def session_kapi_def alloc_module_id_def Let_def)
qed

lemma roomy_replicate: "roomy k (os_with (replicate k (Wrote (2 ^ 33))))"
  by (auto simp: roomy_def os_with_def list_all_iff)

lemma tunnel_room: "roomy 5 (osys (c_env tunnel_client))" "roomy 6 (osys (env tunnel_session))"
proof -
  have "osys (c_env tunnel_client) = os_with (replicate 5 (Wrote (2 ^ 33)))" "osys (env tunnel_session) = os_with (replicate 6 (Wrote (2 ^ 33)))"
    by (simp_all add: tunnel_client_def client_new_def tunnel_session_def session_new_def)
  then show "roomy 5 (osys (c_env tunnel_client))" "roomy 6 (osys (env tunnel_session))"
    by (simp_all only: roomy_replicate)
qed

lemma tunnel_challenge: "length (client_new_challenge tunnel_client) < 2 ^ 32"
proof -
  have "client_new_challenge tunnel_client = dec_string 5 @ dec_string 0"
    by (simp add: client_new_challenge_def tunnel_client_def client_new_def)
  moreover have "length (dec_string 5 @ dec_string 0) \<le> 2" by code_simp
  ultimately show ?thesis by simp
qed

theorem tunnel_comes_up_witness:
  "\<exists>r cch c' r' sch' s'. bring_up tunnel_client_setup tunnel_session_setup tunnel_client tunnel_session
       = Some ((r, Some cch, c'), (r', Some sch', s'))
    \<and> c_st c' = CL_RUNNING \<and> setup_ok c' \<and> c_listen_fd c' = 9 \<and> st s' = RUNNING
    \<and> c_session_id c' = session_id s' \<and> session_id s' = session_id tunnel_session
    \<and> cc_modules (chain_config s') = c_modules tunnel_client"
proof (rule tunnel_comes_up [where ids = "[tunnel_mid]" and ch = tunnel_chain and sch = tunnel_chain])
  show "client_chain_builds tunnel_client_setup tunnel_client tunnel_chain" by (rule tunnel_client_builds)
  show "session_chain_builds tunnel_session_setup (c_modules tunnel_client) tunnel_session tunnel_chain"
    using tunnel_session_builds by (simp add: tunnel_client_def client_new_def)
  show "fresh_client tunnel_client" by (simp add: fresh_client_def tunnel_client_def client_new_def)
  show "fresh_session tunnel_session" by (simp add: fresh_session_def tunnel_session_def session_new_def)
  show "length (client_new_challenge tunnel_client) < 2 ^ 32" by (rule tunnel_challenge)
  show "roomy 5 (osys (c_env tunnel_client))" "roomy 6 (osys (env tunnel_session))"
    by (rule tunnel_room)+
  show "module_mids (cs_bases tunnel_client_setup) (c_modules tunnel_client) = Some (map hex_of [tunnel_mid])"
    by (simp add: tunnel_client_setup_def tunnel_client_def client_new_def copy_spec_def copy_base_def)
  show "list_all (\<lambda>i. known_mid (su_bases tunnel_session_setup) (su_names tunnel_session_setup) (hex_of i)) [tunnel_mid]"
    by (simp add: known_mid_def tunnel_session_setup_def copy_base_def)
  show "length (chain_create_payload (c_modules tunnel_client)) \<le> 65536"
    by (simp add: tunnel_client_def client_new_def chain_create_payload_def encode_module_def copy_spec_def Let_def)
  show "\<forall>x. length (su_sha256 tunnel_session_setup x) = 32" by (auto simp: tunnel_session_setup_def demo_setup_def min_def)
  show "list_all (\<lambda>i. length i = 32) [tunnel_mid]" by (simp add: tunnel_mid_def)
  show "list_all module_spec_ok (c_modules tunnel_client)" by (simp add: tunnel_client_def client_new_def module_spec_ok_def copy_spec_def)
  show "cs_sha256 tunnel_client_setup = su_sha256 tunnel_session_setup" by (simp add: tunnel_client_setup_def tunnel_session_setup_def)
  show "total_extra_outputs tunnel_chain = 0" "total_extra_outputs tunnel_chain = 0"
    by (simp_all add: tunnel_chain_def total_extra_outputs_def)
  show "rd_answers (c_env tunnel_client) (tcp_fd tunnel_client) = []" "rd_answers (env tunnel_session) (client_fd tunnel_session) = []"
    by (simp_all add: tunnel_client_def client_new_def tunnel_session_def session_new_def env_new_def)
qed (simp_all add: tunnel_client_def client_new_def tunnel_session_def session_new_def)

end
