(* ===== verification/Tunnel_Connect.thy ===== *)
theory Tunnel_Connect
  imports Tunnel_Up
begin

unbundle bit_operations_syntax

text \<open>
  An external connection through a running tunnel: from the client's listener over the request and the session's
  connection to the target to the answer, event by event.
\<close>

section \<open>The request\<close>

definition connect_request :: "Client \<Rightarrow> Packet" where
  "connect_request c = make_msg MSG_CONNECT_REQ (connect_req_payload (next_req_id c) (c_target_addr c))"

lemma request_queued:
  assumes "c_link q [] k c" and "length (pending_ext c) < MAX_PENDING_EXT"
  obtains c' where "on_listener_accept f c = c'" "c_link (q + 1) [control_frame q (connect_request c)] k c'"
    "pending_ext c' = pending_ext c @ [\<lparr>pe_fd = f, pe_req_id = next_req_id c, pe_created_at = clock (c_env c)\<rparr>]"
    "conns c' = conns c" "tcp_fd c' = tcp_fd c"
proof -
  obtain dc where dc: "c_data_connections c = [dc]" "resting (tcp_fd c) [] dc" using assms(1) by (auto simp: c_link_def)
  let ?c0 = "c\<lparr>next_req_id := next_req_id c + 1,
     pending_ext := pending_ext c @ [\<lparr>pe_fd = f, pe_req_id = next_req_id c, pe_created_at = clock (c_env c)\<rparr>]\<rparr>"
  obtain K r where send: "client_send_control (connect_request c) ?c0 = ?c0\<lparr>c_data_connections :=
      [dc\<lparr>dc_writer := next_writer (control_frame (c_control_seq c) (connect_request c)) (dc_writer dc)\<rparr>],
      c_control_seq := c_control_seq c + 1, c_control_rr := r, c_env := (c_env c)\<lparr>kern := K\<rparr>\<rparr>"
    by (rule client_send_control_single [of ?c0 dc "connect_request c"])
      (use dc assms(1) in \<open>simp_all add: c_link_def resting_def\<close>)
  have acc: "on_listener_accept f c = client_send_control (connect_request c) ?c0"
    using assms(2) by (simp add: on_listener_accept_def connect_request_def Let_def)
  show thesis
    by (rule that [OF acc]) (use dc assms(1) in \<open>simp_all add: send c_link_def resting_def at_end_def\<close>)
qed

text \<open>The session takes the request: the target's address is known, and the connection to it is being made.\<close>

definition connect_ready :: "string \<Rightarrow> fd \<Rightarrow> Session \<Rightarrow> bool" where
  "connect_ready target g s \<longleftrightarrow> CHR '':'' \<in> set target \<and> (\<exists>n gs. gai_answers (env s) = Some (Suc n) # gs)
     \<and> (\<exists>as. sock_answers (env s) = Some (g, ConnInProgress) # as) \<and> 0 \<le> g \<and> \<not> fd_open (kern (env s)) g
     \<and> (\<exists>bs. so_answers (env s) = True # bs)
     \<and> map_of (targets s) (next_conn_id s) = None \<and> next_conn_id s \<noteq> CONN_ID_NONE"

lemma connect_req_starts:
  assumes "connect_ready target g s" and "length target < 256"
  obtains K gs as where "handle_connect_req (make_msg MSG_CONNECT_REQ (connect_req_payload req target)) s
      = s\<lparr>next_conn_id := next_conn_id s + 1,
         pending_connects := al_put req \<lparr>pc_fd = g, pc_conn_id = next_conn_id s, pc_req_id = req, started_at = clock (env s)\<rparr>
           (pending_connects s),
         env := (env s)\<lparr>gai_answers := gs, sock_answers := as, kern := K\<rparr>\<rparr>"
proof -
  obtain colon where colon: "str_find CHR '':'' target = Some colon"
    using assms(1) by (cases "str_find CHR '':'' target") (auto simp: connect_ready_def)
  obtain n gs as where ans: "gai_answers (env s) = Some (Suc n) # gs" "sock_answers (env s) = Some (g, ConnInProgress) # as"
    using assms(1) by (auto simp: connect_ready_def)
  have "take (length target) (bytes_of target) = bytes_of target" by simp
  then have "handle_connect_req (make_msg MSG_CONNECT_REQ (connect_req_payload req target)) s
      = connect_async (Suc n) (next_conn_id s) req (s\<lparr>next_conn_id := next_conn_id s + 1, env := (env s)\<lparr>gai_answers := gs\<rparr>\<rparr>)"
    using assms colon ans(1)
    by (simp add: handle_connect_req_def make_msg_def connect_req_payload_def unat_of_nat_byte alloc_conn_id_def
        connect_ready_def setup_tunnel_target_async_def sys_getaddrinfo_def Let_def)
  then show thesis
    using assms(1) ans(2)
    by (intro that [where gs = gs and as = as])
      (simp add: sys_socket_connect_def connect_ready_def upd_kern_def upd_kernel_def upd_env_def)
qed


lemma connect_ready_cong:
  assumes "connect_ready target g s" and "env s' = env s" and "targets s' = targets s" and "next_conn_id s' = next_conn_id s"
  shows "connect_ready target g s'"
  using assms by (simp add: connect_ready_def)

lemma session_starts_connect:
  assumes "s_link e [] l s" and "exp_control_seq r = q" and "pending_control r = (\<lambda>_. None)" and "connect_ready target g s"
    and "length target < 256" and p: "p = make_msg MSG_CONNECT_REQ (connect_req_payload req target)"
  obtains s' where "on_data_in Q 0 EPOLLIN (r, ch, s_arrive (control_frame q p) s) = Some (r\<lparr>exp_control_seq := q + 1\<rparr>, ch, s')"
    "s_link e [] l s'" "targets s' = targets s" "so_answers (env s') = so_answers (env s)" "client_fd s' = client_fd s"
proof -
  let ?bs = "control_frame q p"
  have fit: "frame_fits q p" using assms(5) by (intro frame_fitsI) (simp add: p make_msg_def connect_req_payload_def)
  obtain dc where dc: "data_connections s = [dc]" "resting (client_fd s) [] dc"
    and rd: "session_reading ?bs (s_arrive ?bs s) = s\<lparr>last_wire_activity := clock (env s), heartbeating := False,
       data_connections := [dc\<lparr>read_buf := read_buf dc @ ?bs\<rparr>]\<rparr>" (is "_ = ?s1")
    by (rule session_reading_link [OF assms(1)])
  have ready: "connect_ready target g ?s1" by (rule connect_ready_cong [OF assms(4)]) simp_all
  obtain K gs as where req: "handle_connect_req p ?s1 = ?s1\<lparr>next_conn_id := next_conn_id ?s1 + 1,
      pending_connects := al_put req \<lparr>pc_fd = g, pc_conn_id = next_conn_id ?s1, pc_req_id = req, started_at = clock (env ?s1)\<rparr>
        (pending_connects ?s1), env := (env ?s1)\<lparr>gai_answers := gs, sock_answers := as, kern := K\<rparr>\<rparr>" (is "_ = ?s2")
    using connect_req_starts [OF ready assms(5), of req] unfolding p by blast
  have ap: "apply_control Q p (ch, session_reading ?bs (s_arrive ?bs s)) = Some (ch, ?s2)"
    unfolding rd req [symmetric] by (simp add: apply_control_def p make_msg_def in_session_def)
  have ev: "on_data_in Q 0 EPOLLIN (r, ch, s_arrive ?bs s) = Some (r\<lparr>exp_control_seq := q + 1\<rparr>, ch,
      ?s2\<lparr>data_connections := [trim_buffer (skip_bytes (length ?bs) (dc\<lparr>read_buf := read_buf dc @ ?bs\<rparr>))]\<rparr>)"
    by (rule session_takes_frame [OF assms(1) fit assms(2,3) ap]) (use dc in simp_all)
  have "dc\<lparr>read_buf := read_buf dc @ ?bs, dc_writer := wb_new\<rparr> = dc\<lparr>read_buf := read_buf dc @ ?bs\<rparr>"
    using dc(2) by (cases dc) (simp add: resting_def)
  then have "resting (client_fd s) [] (trim_buffer (skip_bytes (length ?bs) (dc\<lparr>read_buf := read_buf dc @ ?bs\<rparr>)))"
    using resting_trim [OF dc(2), of "[]" ?bs] by simp
  then show thesis by (intro that [OF ev]) (use assms(1) in \<open>simp_all add: s_link_def\<close>)
qed

section \<open>The answer\<close>

lemma session_connects:
  assumes "s_link e [] l s" and "\<exists>bs. so_answers (env s) = True # bs"
  obtains s' where "on_connect_event cid req g EPOLLOUT s = s'"
    "s_link (e + 1) [control_frame e (make_msg MSG_CONNECT_OK [cid, req])] l s'"
    "map_of (targets s') cid = Some (target_new g [])" "client_fd s' = client_fd s"
    "map_of (pending_connects s') req = None"
proof -
  obtain dc where dc: "data_connections s = [dc]" "resting (client_fd s) [] dc" using assms(1) by (auto simp: s_link_def)
  obtain bs where so: "so_answers (env s) = True # bs" using assms(2) by blast
  let ?K = "add_fd_handler g (HTarget cid) EPOLLIN (mod_fd_events g 0 EPOLLOUT (kern (env s)))"
  let ?s1 = "s\<lparr>pending_connects := al_erase req (pending_connects s), targets := al_put cid (target_new g []) (targets s),
     in_fd := (in_fd s)(cid \<mapsto> g), in_paused := (in_paused s)(cid := False), env := (env s)\<lparr>so_answers := bs, kern := ?K\<rparr>\<rparr>"
  let ?ok = "make_msg MSG_CONNECT_OK [cid, req]"
  obtain K r where send: "send_control ?ok ?s1 = ?s1\<lparr>data_connections :=
      [dc\<lparr>dc_writer := next_writer (control_frame (control_seq s) ?ok) (dc_writer dc)\<rparr>],
      control_seq := control_seq s + 1, control_rr_counter := r, env := (env ?s1)\<lparr>kern := K\<rparr>\<rparr>"
    by (rule send_control_single [of ?s1 dc ?ok]) (use dc assms(1) in \<open>simp_all add: s_link_def resting_def\<close>)
  have ev: "on_connect_event cid req g EPOLLOUT s = send_control ?ok ?s1"
    using so
    by (simp add: on_connect_event_def sys_so_ok_def on_target_connected_def upd_kernel_def upd_env_def upd_kern_def Let_def)
  show thesis
    by (rule that [OF ev])
      (use dc assms(1) in \<open>simp_all add: send s_link_def resting_def at_end_def\<close>)
qed


lemma find_req_last: "\<forall>p\<in>set ps. pe_req_id p \<noteq> req \<Longrightarrow> pe_req_id pc = req \<Longrightarrow> find_req req (ps @ [pc]) = Some (length ps)"
  by (induction ps) auto

lemma add_reader: "\<exists>x. fd_to_handler (add_fd_handler f h EPOLLIN K) f = Some x \<and> in_cb x = Some h"
  by (auto simp: add_fd_handler_def epoll_add_def epoll_mod_def Let_def split: prod.splits option.splits ctl_error.splits)

lemma connect_ok_opens:
  assumes "pending_ext c = ps @ [pc]" and "pe_req_id pc = req" and "\<forall>p\<in>set ps. pe_req_id p \<noteq> req"
    and "map_of (conns c) cid = None"
  shows "handle_connect_ok (make_msg MSG_CONNECT_OK [cid, req]) c = c\<lparr>pending_ext := ps,
     conns := al_put cid (ext_new (pe_fd pc)) (conns c),
     c_env := (c_env c)\<lparr>kern := add_fd_handler (pe_fd pc) (CExt cid) EPOLLIN (kern (c_env c))\<rparr>\<rparr>"
  using assms find_req_last [OF assms(3,2)]
  by (simp add: handle_connect_ok_def make_msg_def drop_nth_def c_kernel_def c_upd_env_def upd_kern_def Let_def)

lemma client_opens:
  assumes "c_link q [] k c" and "exp_control_seq r = e" and "pending_control r = (\<lambda>_. None)"
    and "pending_ext c = ps @ [pc]" and "pe_req_id pc = req" and "\<forall>p\<in>set ps. pe_req_id p \<noteq> req"
    and "map_of (conns c) cid = None" and p: "p = make_msg MSG_CONNECT_OK [cid, req]"
  obtains c' where "client_data_in 0 EPOLLIN (r, ch, c_arrive (control_frame e p) c) = Some (r\<lparr>exp_control_seq := e + 1\<rparr>, ch, c')"
    "map_of (conns c') cid = Some (ext_new (pe_fd pc))" "pending_ext c' = ps"
    "\<exists>x. fd_to_handler (kern (c_env c')) (pe_fd pc) = Some x \<and> in_cb x = Some (CExt cid)"
proof -
  let ?bs = "control_frame e p"
  have fit: "frame_fits e p" by (intro frame_fitsI) (simp add: p make_msg_def)
  obtain dc where dc: "c_data_connections c = [dc]"
    and rd: "client_reading ?bs (c_arrive ?bs c) = c\<lparr>c_last_activity := clock (c_env c), c_heartbeating := False,
       c_data_connections := [dc\<lparr>read_buf := read_buf dc @ ?bs\<rparr>]\<rparr>" (is "_ = ?c1")
    by (rule client_reading_link [OF assms(1)])
  let ?c2 = "?c1\<lparr>pending_ext := ps, conns := al_put cid (ext_new (pe_fd pc)) (conns c),
     c_env := (c_env c)\<lparr>kern := add_fd_handler (pe_fd pc) (CExt cid) EPOLLIN (kern (c_env c))\<rparr>\<rparr>"
  have "handle_connect_ok p ?c1 = ?c2"
    using connect_ok_opens [of ?c1 ps pc req cid] assms(4-7) by (simp add: p)
  then have ap: "client_apply_control p (ch, client_reading ?bs (c_arrive ?bs c)) = Some (ch, ?c2)"
    unfolding rd by (simp add: client_apply_control_def p make_msg_def in_client_def)
  have ev: "client_data_in 0 EPOLLIN (r, ch, c_arrive ?bs c) = Some (r\<lparr>exp_control_seq := e + 1\<rparr>, ch,
      ?c2\<lparr>c_data_connections := [trim_buffer (skip_bytes (length ?bs) (dc\<lparr>read_buf := read_buf dc @ ?bs\<rparr>))]\<rparr>)"
    by (rule client_takes_frame [OF assms(1) fit assms(2,3) ap]) (use dc in simp_all)
  show thesis by (rule that [OF ev]) (simp_all add: add_reader)
qed

section \<open>Opening a connection\<close>

text \<open>
  The events: a connection is accepted at the client's listener, the client writes out the request, the session reads it
  and starts to connect, the connect succeeds, the session writes out the answer, and the client reads it.
\<close>

definition open_connection :: "'d Setup \<Rightarrow> fd \<Rightarrow> fd \<Rightarrow> 'c kworld \<Rightarrow> 'd dworld \<Rightarrow> ('c kworld \<times> 'd dworld) option" where
  "open_connection Q f g d e = do {
     let c = on_listener_accept f (snd (snd d));
     c' \<leftarrow> client_data_out 0 EPOLLOUT c;
     let up = new_output (tcp_fd c) (osys (c_env c)) (osys (c_env c'));
     let cid = next_conn_id (snd (snd e));
     let req = next_req_id (snd (snd d));
     e \<leftarrow> on_data_in Q 0 EPOLLIN (fst e, in_session (s_arrive up) (snd e));
     let s = on_connect_event cid req g EPOLLOUT (snd (snd e));
     s' \<leftarrow> on_data_out 0 (client_fd s) EPOLLOUT s;
     let down = new_output (client_fd s) (osys (env s)) (osys (env s'));
     d \<leftarrow> client_data_in 0 EPOLLIN (fst d, fst (snd d), c_arrive down c');
     Some (d, fst e, fst (snd e), s')
   }"



definition open_client :: Client where
  "open_client = tunnel_client\<lparr>c_st := CL_RUNNING, c_data_connections := [dc_new\<lparr>dc_fd := 6\<rparr>]\<rparr>"

definition open_session :: Session where
  "open_session = tunnel_session\<lparr>st := RUNNING, data_connections := [dc_new\<lparr>dc_fd := 4\<rparr>],
     env := (env tunnel_session)\<lparr>gai_answers := [Some 1], sock_answers := [Some (12, ConnInProgress)], so_answers := [True]\<rparr>\<rparr>"


end
