(* ===== verification/Chain_Line.thy ===== *)
theory Chain_Line
  imports Chain_Inv
begin

text \<open>
  Chains whose modules pass on one packet for each packet they get, as the copy and the base64 module do: what a
  packet becomes on its way through such a chain, from the external side to the wire and back.

  The locale \<open>packet_stage\<close> is the contract of one module of this kind, with its encoder and its decoder; the two
  modules are interpretations of it.
\<close>

section \<open>One module\<close>

text \<open>Two states of a chain that differ at most in the contents and the accounting of the buffers.\<close>

definition only_buffers :: "'c Chain \<Rightarrow> 'c Chain \<Rightarrow> bool" where
  "only_buffers c c' \<longleftrightarrow> modules c' = modules c \<and> entry_ext c' = entry_ext c \<and> wire_entries c' = wire_entries c
     \<and> pool c' = pool c \<and> owner c' = owner c \<and> cancelled c' = cancelled c \<and> inflight c' = inflight c
     \<and> ctx_src_idx c' = ctx_src_idx c"

text \<open>Memory is not short and the buffers are accounted for.\<close>

definition tidy :: "'c Chain \<Rightarrow> bool" where
  "tidy c \<longleftrightarrow> oom c = [] \<and> heap_inv c"

lemma only_buffers_check [simp]: "only_buffers c (check_backpressure c') = only_buffers c c'"
  by (simp add: only_buffers_def)

lemma heap_inv_cong:
  "cells c' = cells c \<Longrightarrow> next_ptr c' = next_ptr c \<Longrightarrow> bytes_allocated c' = bytes_allocated c \<Longrightarrow> heap_inv c' = heap_inv c"
  by (simp add: heap_inv_def heap_bytes_def)

lemma tidy_cong:
  "oom c' = oom c \<Longrightarrow> cells c' = cells c \<Longrightarrow> next_ptr c' = next_ptr c \<Longrightarrow> bytes_allocated c' = bytes_allocated c
    \<Longrightarrow> tidy c' = tidy c"
  by (simp add: tidy_def heap_inv_cong [of c' c])

lemma tidy_fresh: "tidy c \<Longrightarrow> next_ptr c \<le> p \<Longrightarrow> cells c p = None"
  by (simp add: tidy_def heap_inv_def)

lemma tidy_alloc:
  assumes "tidy c"
  shows "tidy (check_backpressure (c\<lparr>oom := [], cells := (cells c)(next_ptr c \<mapsto> b), next_ptr := next_ptr c + 1,
     bytes_allocated := bytes_allocated c + int (length b)\<rparr>))" (is "tidy ?c'")
proof -
  have h: "finite (dom (cells c))" "cells c (next_ptr c) = None" "bytes_allocated c = heap_bytes c" "\<forall>p\<ge>next_ptr c. cells c p = None"
    using assms by (simp_all add: tidy_def heap_inv_def)
  have "heap_bytes ?c' = heap_bytes c + int (length b)"
    using heap_bytes_insert [OF h(1,2), of b] by (simp add: heap_bytes_def)
  then show ?thesis using h by (simp add: tidy_def heap_inv_def)
qed

lemma tidy_store:
  assumes "tidy c" and "cells c p = Some b" and "length b' = length b"
  shows "tidy (c\<lparr>cells := (cells c)(p \<mapsto> b')\<rparr>)"
  using assms tidy_fresh [OF assms(1), of p] heap_bytes_same_size [OF assms(2,3)]
  by (auto simp: tidy_def heap_inv_def)

lemma tidy_free:
  assumes "tidy c" and "cells c p = Some b"
  shows "tidy (check_backpressure (c\<lparr>cells := (cells c)(p := None), bytes_allocated := bytes_allocated c - int (length b)\<rparr>))"
    (is "tidy ?c'")
proof -
  have h: "finite (dom (cells c))" "bytes_allocated c = heap_bytes c" "\<forall>p\<ge>next_ptr c. cells c p = None"
    using assms by (simp_all add: tidy_def heap_inv_def)
  have "heap_bytes ?c' = heap_bytes c - int (length b)"
    using heap_bytes_remove [OF h(1) assms(2)] by (simp add: heap_bytes_def)
  then show ?thesis using h assms(1) by (simp add: tidy_def heap_inv_def)
qed

lemma read_buffer_check [simp]: "read_buffer p n (check_backpressure c) = read_buffer p n c"
  by (simp add: read_buffer_def)

lemma read_bufferE:
  assumes "read_buffer p len c = Some d"
  obtains b where "cells c p = Some b" "len \<le> length b" "d = take len b"
  using assms by (auto simp: read_buffer_def split: option.splits if_splits)

text \<open>
  The packet in buffer \<open>p\<close> has become \<open>e\<close>, in the same or in another buffer, and has been passed on in its direction with
  \<open>write_packet\<close>; the context of the module is still \<open>x\<close>.
\<close>

definition forwarded ::
  "'k KernelAPI \<Rightarrow> nat \<Rightarrow> int \<Rightarrow> ptr \<Rightarrow> bytes \<Rightarrow> ('c, 'k) world \<Rightarrow> 'x \<Rightarrow> (int \<times> 'x \<times> ('c, 'k) world) option \<Rightarrow> bool" where
  "forwarded K i dir p e w x r \<longleftrightarrow>
     (\<exists>p' c'. only_buffers (fst w) c' \<and> tidy c' \<and> read_buffer p' (length e) c' = Some e
        \<and> (cells c')(p' := None) = (cells (fst w))(p := None)
        \<and> r = map_option (\<lambda>(n, w). (n, x, w)) (write_packet_impl K i (if dir = 0 then 1 else 0) p' (length e) (c', snd w)))"

lemma forwarded_ctx:
  assumes "forwarded K i dir p e w x r"
  shows "forwarded K i dir p e w (C x) (map_option (\<lambda>(n, x, w). (n, C x, w)) r)"
proof -
  obtain p' c' where r: "only_buffers (fst w) c'" "tidy c'" "read_buffer p' (length e) c' = Some e"
      "(cells c')(p' := None) = (cells (fst w))(p := None)"
      "r = map_option (\<lambda>(n, w). (n, x, w)) (write_packet_impl K i (if dir = 0 then 1 else 0) p' (length e) (c', snd w))"
    using assms unfolding forwarded_def by blast
  have "map_option (\<lambda>(n, x, w). (n, C x, w)) r
      = map_option (\<lambda>(n, w). (n, C x, w)) (write_packet_impl K i (if dir = 0 then 1 else 0) p' (length e) (c', snd w))"
    unfolding r(5) by (cases "write_packet_impl K i (if dir = 0 then 1 else 0) p' (length e) (c', snd w)") auto
  with r(1-4) show ?thesis unfolding forwarded_def by blast
qed

locale packet_stage =
  fixes base :: "('c, 'k) ModuleBase" and ctx :: 'c and encoder decoder :: "bytes \<Rightarrow> bytes option"
  assumes forwards: "tidy (fst w) \<Longrightarrow> read_buffer p len (fst w) = Some d \<Longrightarrow> 0 < len \<Longrightarrow>
      (if dir = 0 then encoder d else decoder d) = Some e \<Longrightarrow>
      forwarded K i dir p e w ctx (process_fn base (chain_api K i) ctx dir src (Some p) len w)"
    and not_empty: "encoder d = Some e \<Longrightarrow> e \<noteq> []" "decoder d = Some e \<Longrightarrow> e \<noteq> []"

text \<open>A module that has allocated the buffer \<open>q\<close> of \<open>n\<close> bytes beside the packet in \<open>p\<close>.\<close>

definition beside :: "'c Chain \<Rightarrow> ptr \<Rightarrow> ptr \<Rightarrow> nat \<Rightarrow> 'c Chain \<Rightarrow> bool" where
  "beside c p q n c' \<longleftrightarrow> only_buffers c c' \<and> tidy c' \<and> p \<noteq> q \<and> cells c' p = cells c p
     \<and> map_option length (cells c' q) = Some n \<and> (cells c')(q := None) = cells c"

lemma alloc_beside:
  assumes "tidy c" and "cells c p = Some b"
  obtains c' where "alloc_buffer n c = (Some (next_ptr c), c')" "beside c p (next_ptr c) n c'"
proof -
  let ?q = "next_ptr c"
  have q: "cells c ?q = None" "p \<noteq> ?q" using assms tidy_fresh [OF assms(1)] by auto
  let ?c' = "check_backpressure (c\<lparr>oom := [], cells := (cells c)(?q \<mapsto> replicate n 0), next_ptr := ?q + 1,
     bytes_allocated := bytes_allocated c + int n\<rparr>)"
  have "alloc_buffer n c = (Some ?q, ?c')" using assms(1) by (simp add: alloc_buffer_def tidy_def)
  moreover have "tidy ?c'" using tidy_alloc [OF assms(1), of "replicate n 0"] by simp
  then have "beside c p ?q n ?c'" using q by (auto simp: beside_def only_buffers_def fun_eq_iff)
  ultimately show thesis by (rule that)
qed

lemma store_beside:
  assumes "beside c p q n c'" and "length e \<le> n"
  obtains c'' where "store_buffer q 0 e c' = Some c''" "beside c p q n c''" "read_buffer q (length e) c'' = Some e"
proof -
  obtain b where b: "cells c' q = Some b" "length b = n" using assms(1) by (auto simp: beside_def)
  let ?c'' = "c'\<lparr>cells := (cells c')(q \<mapsto> patch 0 e b)\<rparr>"
  have "tidy ?c''" using assms b by (intro tidy_store) (auto simp: beside_def)
  then have "beside c p q n ?c''" using assms b by (auto simp: beside_def only_buffers_def)
  moreover have "store_buffer q 0 e c' = Some ?c''" using assms(2) b by (simp add: store_buffer_def)
  moreover have "read_buffer q (length e) ?c'' = Some e" using assms(2) b by (simp add: read_buffer_def patch_def)
  ultimately show thesis by (intro that)
qed

lemma free_beside:
  assumes "beside c p q n c'" and "cells c p = Some b" and "read_buffer q len c' = Some e"
  obtains c'' where "free_buffer p c' = Some c''" "only_buffers c c''" "tidy c''" "read_buffer q len c'' = Some e"
    "(cells c'')(q := None) = (cells c)(p := None)"
proof -
  let ?c'' = "check_backpressure (c'\<lparr>cells := (cells c')(p := None), bytes_allocated := bytes_allocated c' - int (length b)\<rparr>)"
  have "(cells c')(q := None, p := None) = (cells c)(p := None)" "p \<noteq> q" using assms(1) by (simp_all add: beside_def)
  then have "(cells ?c'')(q := None) = (cells c)(p := None)" by (simp add: fun_upd_twist)
  moreover have "free_buffer p c' = Some ?c''" using assms(1,2) by (simp add: free_buffer_def beside_def)
  moreover have "tidy ?c''" using assms(1,2) by (intro tidy_free) (auto simp: beside_def)
  moreover have "only_buffers c ?c''" using assms(1) by (auto simp: beside_def only_buffers_def)
  moreover have "read_buffer q len ?c'' = Some e" using assms(3) \<open>p \<noteq> q\<close> by (simp add: read_buffer_def)
  ultimately show thesis by (intro that)
qed

lemma beside_source: "beside c p q n c' \<Longrightarrow> cells c' p = cells c p"
  by (simp add: beside_def)

text \<open>The copy module in both modes.\<close>

lemma bind_ctx: "Option.bind r (\<lambda>(n, w). Some (n, x, w)) = map_option (\<lambda>(n, w). (n, x, w)) r"
  by (cases r) auto

lemma copy_forwards:
  assumes "tidy (fst w)" and "read_buffer p len (fst w) = Some d" and "0 < len"
  shows "forwarded K i dir p d w x (copy_process (chain_api K i) x dir src (Some p) len w)"
proof -
  obtain c k where w: "w = (c, k)" by (cases w)
  obtain b where b: "cells c p = Some b" "len \<le> length b" "d = take len b" using assms(2) w by (auto elim: read_bufferE)
  have len: "length d = len" using b by simp
  show ?thesis
  proof (cases "mode_copy x")
    case False
    then show ?thesis using assms len unfolding w forwarded_def
      by (intro exI [of _ p] exI [of _ c]) (simp add: copy_process_def only_buffers_def chain_api_def bind_ctx)
  next
    case True
    obtain c1 where c1: "alloc_buffer len c = (Some (next_ptr c), c1)" "beside c p (next_ptr c) len c1"
      using alloc_beside [of c p b len] assms(1) w b(1) by auto
    obtain c2 where c2: "store_buffer (next_ptr c) 0 d c1 = Some c2" "beside c p (next_ptr c) len c2"
        "read_buffer (next_ptr c) (length d) c2 = Some d"
      by (rule store_beside [OF c1(2) eq_imp_le [OF len]])
    obtain c3 where "free_buffer p c2 = Some c3" "only_buffers c c3" "tidy c3"
        "read_buffer (next_ptr c) (length d) c3 = Some d" "(cells c3)(next_ptr c := None) = (cells c)(p := None)"
      by (rule free_beside [OF c2(2) b(1) c2(3)])
    note r = c1(1) beside_source [OF c1(2)] c2(1) this
    show ?thesis using r True assms(3) len b unfolding w forwarded_def
      by (intro exI [of _ "next_ptr c"] exI [of _ c3]) (simp add: copy_process_def chain_api_def bind_ctx)
  qed
qed

interpretation copy_stage: packet_stage "copy_base h" "CopyCtx x"
  "\<lambda>d. if d = [] then None else Some d" "\<lambda>d. if d = [] then None else Some d"
  for h and x
  by unfold_locales (auto simp: copy_base_def intro!: forwarded_ctx copy_forwards split: if_splits)

text \<open>
  The base64 module, for any codec.  Its buffer for the encoded packet has the size a base64 text has, that for
  the decoded one the size of the text.
\<close>

definition b64_encoder :: "(bytes \<Rightarrow> bytes) \<Rightarrow> bytes \<Rightarrow> bytes option" where
  "b64_encoder enc d = (if enc d \<noteq> [] \<and> length (enc d) \<le> (length d + 2) div 3 * 4 then Some (enc d) else None)"

definition b64_decoder :: "(bytes \<Rightarrow> bytes option) \<Rightarrow> bytes \<Rightarrow> bytes option" where
  "b64_decoder dec d =
     (case dec d of None \<Rightarrow> None | Some e \<Rightarrow> if e \<noteq> [] \<and> length e \<le> length d then Some e else None)"

lemma b64_forwards:
  assumes "tidy (fst w)" and "read_buffer p len (fst w) = Some d" and "0 < len"
    and "(if dir = 0 then b64_encoder enc d else b64_decoder dec d) = Some e"
  shows "forwarded K i dir p e w x (b64_process enc dec (chain_api K i) x dir src (Some p) len w)"
proof -
  obtain c k where w: "w = (c, k)" by (cases w)
  obtain b where b: "cells c p = Some b" "len \<le> length b" "d = take len b" using assms(2) w by (auto elim: read_bufferE)
  have len: "length d = len" using b by simp
  show ?thesis
  proof (cases "dir = 0")
    case True
    then have e: "e = enc d" "length (enc d) \<le> (len + 2) div 3 * 4"
      using assms(4) len by (auto simp: b64_encoder_def split: if_splits)
    let ?n = "(len + 2) div 3 * 4"
    obtain c1 where c1: "alloc_buffer ?n c = (Some (next_ptr c), c1)" "beside c p (next_ptr c) ?n c1"
      using alloc_beside [of c p b ?n] assms(1) w b(1) by auto
    obtain c2 where c2: "store_buffer (next_ptr c) 0 (enc d) c1 = Some c2" "beside c p (next_ptr c) ?n c2"
        "read_buffer (next_ptr c) (length (enc d)) c2 = Some (enc d)"
      by (rule store_beside [OF c1(2) e(2)])
    obtain c3 where "free_buffer p c2 = Some c3" "only_buffers c c3" "tidy c3"
        "read_buffer (next_ptr c) (length (enc d)) c3 = Some (enc d)" "(cells c3)(next_ptr c := None) = (cells c)(p := None)"
      by (rule free_beside [OF c2(2) b(1) c2(3)])
    note r = c1(1) beside_source [OF c1(2)] c2(1) this
    show ?thesis using r True assms(3) len b e(1) unfolding w forwarded_def
      by (intro exI [of _ "next_ptr c"] exI [of _ c3]) (simp add: b64_process_def chain_api_def bind_ctx Let_def)
  next
    case False
    then have e: "dec d = Some e" "length e \<le> len"
      using assms(4) len by (auto simp: b64_decoder_def split: option.splits if_splits)
    obtain c1 where c1: "alloc_buffer len c = (Some (next_ptr c), c1)" "beside c p (next_ptr c) len c1"
      using alloc_beside [of c p b len] assms(1) w b(1) by auto
    obtain c2 where c2: "store_buffer (next_ptr c) 0 d c1 = Some c2" "beside c p (next_ptr c) len c2"
      by (rule store_beside [OF c1(2) eq_imp_le [OF len]])
    obtain c3 where c3: "store_buffer (next_ptr c) 0 e c2 = Some c3" "beside c p (next_ptr c) len c3"
        "read_buffer (next_ptr c) (length e) c3 = Some e"
      by (rule store_beside [OF c2(2) e(2)])
    obtain c4 where "free_buffer p c3 = Some c4" "only_buffers c c4" "tidy c4"
        "read_buffer (next_ptr c) (length e) c4 = Some e" "(cells c4)(next_ptr c := None) = (cells c)(p := None)"
      by (rule free_beside [OF c3(2) b(1) c3(3)])
    note r = c1(1) beside_source [OF c1(2)] c2(1) c3(1) this
    show ?thesis using r False assms(3) len b e(1) unfolding w forwarded_def
      by (intro exI [of _ "next_ptr c"] exI [of _ c4]) (simp add: b64_process_def chain_api_def bind_ctx Let_def)
  qed
qed

interpretation b64_stage: packet_stage "b64_base enc dec h" "B64Ctx x" "b64_encoder enc" "b64_decoder dec"
  for enc dec h and x
  by unfold_locales
    (auto simp: b64_base_def b64_encoder_def b64_decoder_def intro!: forwarded_ctx b64_forwards split: if_splits option.splits)

section \<open>A line of modules\<close>

text \<open>
  A chain without extra outputs is a line: module \<open>i\<close> has the neighbours \<open>i - 1\<close> and \<open>i + 1\<close>, packets enter at the
  first module or, from wire connection 1, at the last one.  \<open>fs\<close> are the encoders and decoders of the modules.
\<close>

type_synonym coders = "((bytes \<Rightarrow> bytes option) \<times> (bytes \<Rightarrow> bytes option)) list"

definition staged :: "('c, 'k) bases \<Rightarrow> 'c Module \<Rightarrow> (bytes \<Rightarrow> bytes option) \<times> (bytes \<Rightarrow> bytes option) \<Rightarrow> bool" where
  "staged B m f \<longleftrightarrow> (\<exists>base ctx. B (m_base m) = Some base \<and> m_ctx m = Some ctx \<and> packet_stage base ctx (fst f) (snd f))
     \<and> heartbeat_interval_sec m = 0"

definition line_neighbours :: "nat \<Rightarrow> nat \<Rightarrow> nat option list" where
  "line_neighbours n i = [if 0 < i then Some (i - 1) else None, if i + 1 < n then Some (i + 1) else None]"

definition lined :: "('c, 'k) bases \<Rightarrow> coders \<Rightarrow> 'c Chain \<Rightarrow> bool" where
  "lined B fs c \<longleftrightarrow> length (modules c) = length fs \<and> fs \<noteq> []
     \<and> (\<forall>i < length fs. staged B (modules c ! i) (fs ! i) \<and> near (modules c ! i) = line_neighbours (length fs) i)
     \<and> wire_dst (modules c ! (length fs - 1)) = 1 \<and> entry_ext c = Some 0 \<and> wire_entries c = [None, Some (length fs - 1)]
     \<and> owner c \<and> \<not> cancelled c"

definition free_worker :: "'c Chain \<Rightarrow> bool" where
  "free_worker c \<longleftrightarrow> \<not> shutdown (pool c) \<and> 0 < workers (pool c) \<and> running (pool c) = []"

text \<open>The chain has nothing to do and holds the buffers \<open>h\<close>.\<close>

definition at_rest :: "('c, 'k) bases \<Rightarrow> coders \<Rightarrow> (ptr \<rightharpoonup> bytes) \<Rightarrow> 'c Chain \<Rightarrow> bool" where
  "at_rest B fs h c \<longleftrightarrow> lined B fs c \<and> tidy c \<and> free_worker c \<and> queue (pool c) = [] \<and> inflight c = 0 \<and> cells c = h"

text \<open>Its only task is the packet \<open>d\<close> at module \<open>i\<close>; without the buffer of the packet it holds \<open>h\<close>.\<close>

definition carrying ::
  "('c, 'k) bases \<Rightarrow> coders \<Rightarrow> (ptr \<rightharpoonup> bytes) \<Rightarrow> nat \<Rightarrow> int \<Rightarrow> bytes \<Rightarrow> 'c Chain \<Rightarrow> bool" where
  "carrying B fs h i dir d c \<longleftrightarrow> lined B fs c \<and> tidy c \<and> free_worker c \<and> inflight c = 1 \<and> i < length fs \<and> d \<noteq> []
     \<and> (\<exists>p src. queue (pool c) = [\<lparr>task_data = p, task_len = length d, task_src = src, task_dir = dir, task_mod = i\<rparr>]
          \<and> read_buffer p (length d) c = Some d \<and> (cells c)(p := None) = h)"

lemma lined_step:
  assumes "lined B fs c" and "i < length fs" and "m_ctx (modules c ! i) = Some x"
    and "modules c' = (modules c)[i := (modules c ! i)\<lparr>m_ctx := Some x, last_activity := now\<rparr>]" 
    and "entry_ext c' = entry_ext c" "wire_entries c' = wire_entries c" "owner c' = owner c" "cancelled c' = cancelled c"
  shows "lined B fs c'"
proof -
  have "staged B ((modules c ! i)\<lparr>m_ctx := Some x, last_activity := now\<rparr>) = staged B (modules c ! i)"
    using assms(3) by (simp add: staged_def fun_eq_iff)
  then show ?thesis using assms by (auto simp: lined_def nth_list_update)
qed

text \<open>What a worker does with the task: the module's work on the packet, then \<open>write_packet\<close>.\<close>

lemma worker_forwards:
  assumes "carrying B fs h i dir d c" and "(if dir = 0 then fst (fs ! i) else snd (fs ! i)) d = Some e"
  obtains c2 p' src x t where "lined B fs c2" "tidy c2" "read_buffer p' (length e) c2 = Some e"
    "(cells c2)(p' := None) = h" "inflight c2 = 1" "e \<noteq> []" "m_ctx (modules c2 ! i) = Some x" "ctx_src_idx c2 = src"
    "pool c2 = (pool c)\<lparr>queue := [], running := [t]\<rparr>"
    "worker_step B K now (c, k) = Option.bind (write_packet_impl K i (if dir = 0 then 1 else 0) p' (length e) (c2, k))
       (\<lambda>(ret, (c, k)). let c = upd_module i (\<lambda>m. m\<lparr>m_ctx := Some x\<rparr>) c in
          if ret < 0 then Option.bind (free_buffer (task_data t) c) (\<lambda>c. Some (task_done t c, k)) else Some (task_done t c, k))"
proof -
  obtain p src where t: "queue (pool c) = [\<lparr>task_data = p, task_len = length d, task_src = src, task_dir = dir, task_mod = i\<rparr>]"
      (is "_ = [?t]") "read_buffer p (length d) c = Some d" "(cells c)(p := None) = h"
    and st: "lined B fs c" "tidy c" "free_worker c" "inflight c = 1" "i < length fs" "d \<noteq> []"
    using assms(1) unfolding carrying_def by blast
  have m: "i < length (modules c)" "\<not> cancelled c" "staged B (modules c ! i) (fs ! i)" using st(1,5) by (simp_all add: lined_def)
  obtain base x where b: "B (m_base (modules c ! i)) = Some base" "m_ctx (modules c ! i) = Some x"
      "packet_stage base x (fst (fs ! i)) (snd (fs ! i))"
    using m(3) by (auto simp: staged_def)
  let ?pool = "(pool c)\<lparr>queue := [], running := [?t]\<rparr>"
  let ?c1 = "upd_module i (\<lambda>m. m\<lparr>last_activity := now\<rparr>) (c\<lparr>pool := ?pool, ctx_src_idx := src\<rparr>)"
  have tk: "tp_take (pool c) = Some (?t, ?pool)" using st(3) t(1) by (simp add: tp_take_def free_worker_def)
  have "tidy (fst (?c1, k))" "read_buffer p (length d) (fst (?c1, k)) = Some d" "0 < length d"
    using st(2,6) t(2) tidy_cong [of ?c1 c] by (simp_all add: upd_module_def read_buffer_def)
  from packet_stage.forwards [OF b(3) this, of dir e K i src] assms(2)
  obtain p' c2 where c2: "only_buffers ?c1 c2" "tidy c2" "read_buffer p' (length e) c2 = Some e"
      "(cells c2)(p' := None) = (cells ?c1)(p := None)"
      "process_fn base (chain_api K i) x dir src (Some p) (length d) (?c1, k)
        = map_option (\<lambda>(n, w). (n, x, w)) (write_packet_impl K i (if dir = 0 then 1 else 0) p' (length e) (c2, k))"
    by (auto simp: forwarded_def split: if_splits)
  have ne: "e \<noteq> []" using packet_stage.not_empty [OF b(3)] assms(2) by (auto split: if_splits)
  have l1: "modules ?c1 = (modules c)[i := (modules c ! i)\<lparr>m_ctx := Some x, last_activity := now\<rparr>]"
    using b(2) by (cases "modules c ! i") (simp add: upd_module_def)
  have l2: "lined B fs c2"
    by (rule lined_step [OF st(1,5) b(2), of c2 now]) (use c2(1) l1 in \<open>simp_all add: only_buffers_def upd_module_def\<close>)
  have x2: "m_ctx (modules c2 ! i) = Some x" using c2(1) l1 m(1) by (simp add: only_buffers_def)
  have m1: "module_at i ?c1 = Some ((modules c ! i)\<lparr>last_activity := now\<rparr>)" using m(1) by (simp add: module_at_def upd_module_def)
  have run: "worker_step B K now (c, k) = run_task B K now ?t (c\<lparr>pool := ?pool\<rparr>, k)" by (simp add: worker_step_def tk)
  have "run_task B K now ?t (c\<lparr>pool := ?pool\<rparr>, k)
    = Option.bind (call_process B K i dir src (Some p) (length d) (?c1, k)) (\<lambda>(ret, (c, k)).
        if ret < 0 then Option.bind (free_buffer (task_data ?t) c) (\<lambda>c. Some (task_done ?t c, k)) else Some (task_done ?t c, k))"
    using m(2) by (simp add: run_task_def)
  moreover have "call_process B K i dir src (Some p) (length d) (?c1, k)
    = Option.bind (write_packet_impl K i (if dir = 0 then 1 else 0) p' (length e) (c2, k))
        (\<lambda>(ret, (c, k)). Some (ret, (upd_module i (\<lambda>m. m\<lparr>m_ctx := Some x\<rparr>) c, k)))"
    using b(1,2) m1 c2(5)
    by (cases "write_packet_impl K i (if dir = 0 then 1 else 0) p' (length e) (c2, k)") (auto simp: call_process_def)
  ultimately have w: "worker_step B K now (c, k) = Option.bind (write_packet_impl K i (if dir = 0 then 1 else 0) p' (length e) (c2, k))
       (\<lambda>(ret, (c, k)). let c = upd_module i (\<lambda>m. m\<lparr>m_ctx := Some x\<rparr>) c in
          if ret < 0 then Option.bind (free_buffer (task_data ?t) c) (\<lambda>c. Some (task_done ?t c, k)) else Some (task_done ?t c, k))"
    unfolding run by (cases "write_packet_impl K i (if dir = 0 then 1 else 0) p' (length e) (c2, k)") (auto simp: Let_def)
  show thesis
    by (rule that [OF l2 c2(2,3) _ _ ne x2 refl _ w])
      (use c2(1,4) t(3) st(4) in \<open>simp_all add: only_buffers_def upd_module_def\<close>)
qed

lemma lined_cong:
  "lined B fs c \<Longrightarrow> modules c' = modules c \<Longrightarrow> entry_ext c' = entry_ext c \<Longrightarrow> wire_entries c' = wire_entries c
    \<Longrightarrow> owner c' = owner c \<Longrightarrow> cancelled c' = cancelled c \<Longrightarrow> lined B fs c'"
  by (simp add: lined_def)

lemma upd_ctx_same: "m_ctx (modules c ! i) = Some x \<Longrightarrow> upd_module i (\<lambda>m. m\<lparr>m_ctx := Some x\<rparr>) c = c"
proof -
  assume "m_ctx (modules c ! i) = Some x"
  then have "(modules c ! i)\<lparr>m_ctx := Some x\<rparr> = modules c ! i" by (cases "modules c ! i") simp
  then show ?thesis by (simp add: upd_module_def)
qed

text \<open>Inside the line the packet goes to the next module in its direction.\<close>

lemma step_inner:
  assumes "carrying B fs h i dir d c" and "(if dir = 0 then fst (fs ! i) else snd (fs ! i)) d = Some e"
    and "dir = 0 \<or> dir = 1" and "line_neighbours (length fs) i ! (if dir = 0 then 1 else 0) = Some j"
  shows "\<exists>c'. worker_step B K now (c, k) = Some (c', k) \<and> carrying B fs h j dir e c'"
proof -
  have st: "lined B fs c" "free_worker c" "i < length fs" using assms(1) unfolding carrying_def by blast+
  obtain c2 p' src x t where s: "lined B fs c2" "tidy c2" "read_buffer p' (length e) c2 = Some e"
      "(cells c2)(p' := None) = h" "inflight c2 = 1" "e \<noteq> []" "m_ctx (modules c2 ! i) = Some x" "ctx_src_idx c2 = src"
      "pool c2 = (pool c)\<lparr>queue := [], running := [t]\<rparr>"
      "worker_step B K now (c, k) = Option.bind (write_packet_impl K i (if dir = 0 then 1 else 0) p' (length e) (c2, k))
       (\<lambda>(ret, (c, k)). let c = upd_module i (\<lambda>m. m\<lparr>m_ctx := Some x\<rparr>) c in
          if ret < 0 then Option.bind (free_buffer (task_data t) c) (\<lambda>c. Some (task_done t c, k)) else Some (task_done t c, k))"
    by (rule worker_forwards [OF assms(1,2)])
  have j: "j < length fs" using assms(4) st(3) by (auto simp: line_neighbours_def split: if_splits)
  have near: "near (modules c2 ! i) = line_neighbours (length fs) i" "owner c2" "length (modules c2) = length fs"
    using s(1) st(3) by (simp_all add: lined_def)
  let ?c3 = "c2\<lparr>inflight := inflight c2 + 1, pool := tp_enqueue
     \<lparr>task_data = p', task_len = length e, task_src = src, task_dir = dir, task_mod = j\<rparr> (pool c2)\<rparr>"
  have "write_packet_impl K i (if dir = 0 then 1 else 0) p' (length e) (c2, k) = Some (0, (?c3, k))"
  proof -
    let ?dst = "if dir = 0 then 1 else 0 :: int"
    have "length (near (modules c2 ! i)) = 2" "near (modules c2 ! i) ! nat ?dst = Some j" "0 \<le> ?dst" "?dst < 2"
      "(if ?dst = 0 then 1 else 0) = dir"
      using near(1) assms(3,4) by (auto simp: line_neighbours_def split: if_splits)
    then show ?thesis using near(2,3) j st(3) s(8) by (simp add: write_packet_impl_def module_at_def enqueue_module_def)
  qed
  then have "worker_step B K now (c, k) = Some (task_done t ?c3, k)" using s(10) upd_ctx_same [of ?c3 i x] s(7) by simp
  moreover have "carrying B fs h j dir e (task_done t ?c3)"
    unfolding carrying_def using s(2-6) j st(2) s(9) tidy_cong [of "task_done t ?c3" c2]
    by (intro conjI lined_cong [OF s(1)]) (simp_all add: task_done_def free_worker_def tp_done_def tp_enqueue_def read_buffer_def)
  ultimately show ?thesis by blast
qed

text \<open>At the end of the line it is written: to wire connection 1, or to the external side.\<close>

lemma step_last:
  assumes "carrying B fs h i dir d c" and "(if dir = 0 then fst (fs ! i) else snd (fs ! i)) d = Some e"
    and "dir = 0 \<and> i = length fs - 1 \<or> dir = 1 \<and> i = 0"
    and "ka_wire_write K (if dir = 0 then 1 else 0) e k = Some (ret, k')" and "0 \<le> ret"
  shows "\<exists>c'. worker_step B K now (c, k) = Some (c', k') \<and> at_rest B fs h c'"
proof -
  have st: "lined B fs c" "free_worker c" "i < length fs" using assms(1) unfolding carrying_def by blast+
  obtain c2 p' src x t where s: "lined B fs c2" "tidy c2" "read_buffer p' (length e) c2 = Some e"
      "(cells c2)(p' := None) = h" "inflight c2 = 1" "e \<noteq> []" "m_ctx (modules c2 ! i) = Some x" "ctx_src_idx c2 = src"
      "pool c2 = (pool c)\<lparr>queue := [], running := [t]\<rparr>"
      "worker_step B K now (c, k) = Option.bind (write_packet_impl K i (if dir = 0 then 1 else 0) p' (length e) (c2, k))
       (\<lambda>(ret, (c, k)). let c = upd_module i (\<lambda>m. m\<lparr>m_ctx := Some x\<rparr>) c in
          if ret < 0 then Option.bind (free_buffer (task_data t) c) (\<lambda>c. Some (task_done t c, k)) else Some (task_done t c, k))"
    by (rule worker_forwards [OF assms(1,2)])
  obtain b where b: "cells c2 p' = Some b" using read_bufferE [OF s(3)] by blast
  let ?c3 = "check_backpressure (c2\<lparr>cells := (cells c2)(p' := None), bytes_allocated := bytes_allocated c2 - int (length b)\<rparr>)"
  have l: "near (modules c2 ! i) = line_neighbours (length fs) i" "length (modules c2) = length fs"
      "wire_dst (modules c2 ! (length fs - 1)) = 1"
    using s(1) st(3) by (simp_all add: lined_def)
  have "write_packet_impl K i (if dir = 0 then 1 else 0) p' (length e) (c2, k) = Some (ret, (?c3, k'))"
    using assms(3,4) l st(3) s(3) b
    by (auto simp: write_packet_impl_def module_at_def line_neighbours_def free_buffer_def)
  then have "worker_step B K now (c, k) = Some (task_done t ?c3, k')"
    using s(10) upd_ctx_same [of ?c3 i x] s(7) assms(5) by simp
  moreover have "at_rest B fs h (task_done t ?c3)"
    unfolding at_rest_def using s(4,5,9) st(2) tidy_free [OF s(2) b] tidy_cong [of "task_done t ?c3" ?c3]
    by (intro conjI lined_cong [OF s(1)]) (simp_all add: task_done_def free_worker_def tp_done_def)
  ultimately show ?thesis by blast
qed

section \<open>The whole line\<close>

fun encode_line :: "coders \<Rightarrow> bytes \<Rightarrow> bytes option" where
  "encode_line [] d = Some d"
| "encode_line (f # fs) d = Option.bind (fst f d) (encode_line fs)"

fun decode_line :: "coders \<Rightarrow> bytes \<Rightarrow> bytes option" where
  "decode_line [] d = Some d"
| "decode_line (f # fs) d = Option.bind (decode_line fs d) (snd f)"

lemma decode_line_snoc: "decode_line (fs @ [f]) d = Option.bind (snd f d) (decode_line fs)"
  by (induction fs) (simp_all add: Option.bind_assoc)

text \<open>
  A packet in direction \<open>dir\<close> has \<open>r\<close> modules before it and will leave the chain as \<open>e\<close>; then the owner of the chain, so far in
  state \<open>k\<close>, gets into state \<open>k'\<close>.
\<close>

definition under_way ::
  "('c, 'k) bases \<Rightarrow> coders \<Rightarrow> (ptr \<rightharpoonup> bytes) \<Rightarrow> int \<Rightarrow> bytes \<Rightarrow> 'k \<Rightarrow> 'k \<Rightarrow> nat \<Rightarrow> ('c, 'k) world \<Rightarrow> bool" where
  "under_way B fs h dir e k k' r w \<longleftrightarrow>
     (if r = 0 then at_rest B fs h (fst w) \<and> snd w = k'
      else snd w = k \<and> r \<le> length fs \<and> (\<exists>d. carrying B fs h (if dir = 0 then length fs - r else r - 1) dir d (fst w)
        \<and> (if dir = 0 then encode_line (drop (length fs - r) fs) d else decode_line (take r fs) d) = Some e))"

lemma next_coder:
  assumes "Suc r \<le> length fs"
    and "(if dir = 0 then encode_line (drop (length fs - Suc r) fs) d else decode_line (take (Suc r) fs) d) = Some e"
  obtains e1 where "(if dir = 0 then fst (fs ! (length fs - Suc r)) else snd (fs ! r)) d = Some e1"
    "(if dir = 0 then encode_line (drop (length fs - r) fs) e1 else decode_line (take r fs) e1) = Some e"
proof -
  have "drop (length fs - Suc r) fs = fs ! (length fs - Suc r) # drop (length fs - r) fs"
    using assms(1) Cons_nth_drop_Suc [of "length fs - Suc r" fs] by (simp add: Suc_diff_Suc)
  moreover have "take (Suc r) fs = take r fs @ [fs ! r]" using assms(1) by (simp add: take_Suc_conv_app_nth)
  ultimately show thesis using assms(2) that
    by (auto simp: Option.bind_eq_Some_conv decode_line_snoc split: if_splits)
qed

lemma under_way_step:
  assumes "under_way B fs h dir e k k' (Suc r) w" and "dir = 0 \<or> dir = 1"
    and "ka_wire_write K (if dir = 0 then 1 else 0) e k = Some (ret, k')" and "0 \<le> ret"
  shows "\<exists>w'. worker_step B K now w = Some w' \<and> under_way B fs h dir e k k' r w'"
proof -
  let ?i = "if dir = 0 then length fs - Suc r else r"
  obtain c d where w: "w = (c, k)" "Suc r \<le> length fs" "carrying B fs h ?i dir d c"
      "(if dir = 0 then encode_line (drop (length fs - Suc r) fs) d else decode_line (take (Suc r) fs) d) = Some e"
    using assms(1) by (cases w) (auto simp: under_way_def split: if_splits)
  obtain e1 where e1: "(if dir = 0 then fst (fs ! (length fs - Suc r)) else snd (fs ! r)) d = Some e1"
      "(if dir = 0 then encode_line (drop (length fs - r) fs) e1 else decode_line (take r fs) e1) = Some e"
    by (rule next_coder [OF w(2,4)])
  have coder: "(if dir = 0 then fst (fs ! ?i) else snd (fs ! ?i)) d = Some e1" using e1(1) by (simp split: if_splits)
  show ?thesis
  proof (cases r)
    case 0
    then have "e1 = e" "dir = 0 \<and> ?i = length fs - 1 \<or> dir = 1 \<and> ?i = 0" using e1(2) assms(2) by (auto split: if_splits)
    then obtain c' where "worker_step B K now (c, k) = Some (c', k')" "at_rest B fs h c'"
      using step_last [OF w(3) _ _ assms(3,4)] coder by blast
    then show ?thesis using w(1) 0 by (simp add: under_way_def)
  next
    case (Suc r')
    let ?j = "if dir = 0 then length fs - r else r - 1"
    have "line_neighbours (length fs) ?i ! (if dir = 0 then 1 else 0) = Some ?j"
      using w(2) Suc by (auto simp: line_neighbours_def)
    then obtain c' where "worker_step B K now (c, k) = Some (c', k)" "carrying B fs h ?j dir e1 c'"
      using step_inner [OF w(3) coder assms(2)] by blast
    then show ?thesis using w(1,2) Suc e1(2) by (auto simp: under_way_def)
  qed
qed

lemma rest_empty: "at_rest B fs Map.empty c \<Longrightarrow> bytes_allocated c = 0"
  by (simp add: at_rest_def tidy_def heap_inv_def heap_bytes_def)

lemma rest_step: "at_rest B fs h c \<Longrightarrow> worker_step B K now (c, k) = Some (c, k)"
  by (simp add: at_rest_def worker_step_def tp_take_def)

lemma under_way_steps:
  assumes "under_way B fs h dir e k k' r w" and "dir = 0 \<or> dir = 1"
    and "ka_wire_write K (if dir = 0 then 1 else 0) e k = Some (ret, k')" and "0 \<le> ret"
  shows "\<exists>w'. worker_steps n B K now w = Some w' \<and> under_way B fs h dir e k k' (r - n) w'"
  using assms(1)
proof (induction n arbitrary: r w)
  case (Suc n)
  show ?case
  proof (cases r)
    case 0
    then have "worker_step B K now w = Some w" using Suc.prems rest_step by (cases w) (simp add: under_way_def)
    then show ?thesis using Suc.IH [OF Suc.prems] 0 by simp
  next
    case (Suc r')
    then obtain w1 where "worker_step B K now w = Some w1" "under_way B fs h dir e k k' r' w1"
      using under_way_step [OF _ assms(2-4)] Suc.prems by blast
    then show ?thesis using Suc.IH [of r' w1] \<open>r = Suc r'\<close> by simp
  qed
qed simp

section \<open>Sending a packet\<close>

text \<open>A packet is copied into a buffer of the chain and pushed.\<close>

definition push_bytes :: "'k KernelAPI \<Rightarrow> bytes \<Rightarrow> int \<Rightarrow> int \<Rightarrow> ('c, 'k) world \<Rightarrow> ('c, 'k) world option" where
  "push_bytes K d src dir w =
     (case alloc_buffer (length d) (fst w) of
        (None, _) \<Rightarrow> None
      | (Some p, c) \<Rightarrow> do {
          c \<leftarrow> store_buffer p 0 d c;
          push_packet K p (length d) src dir (c, snd w)
        })"

text \<open>A packet in any buffer of a line that is at rest otherwise can be pushed.\<close>

definition loaded :: "('c, 'k) bases \<Rightarrow> coders \<Rightarrow> (ptr \<rightharpoonup> bytes) \<Rightarrow> ptr \<Rightarrow> bytes \<Rightarrow> 'c Chain \<Rightarrow> bool" where
  "loaded B fs h p d c \<longleftrightarrow> lined B fs c \<and> tidy c \<and> free_worker c \<and> queue (pool c) = [] \<and> inflight c = 0
     \<and> read_buffer p (length d) c = Some d \<and> (cells c)(p := None) = h"

lemma push_loaded:
  assumes "loaded B fs h p d c" and "d \<noteq> []" and "dir = 0 \<or> dir = 1 \<and> src = 1"
    and "(if dir = 0 then encode_line fs d else decode_line fs d) = Some e"
  shows "\<exists>c'. push_packet K p (length d) src dir (c, k) = Some (c', k) \<and> under_way B fs h dir e k k' (length fs) (c', k)"
proof -
  let ?i = "if dir = 0 then 0 else length fs - 1"
  have r: "lined B fs c" "tidy c" "free_worker c" "queue (pool c) = []" "inflight c = 0"
      "read_buffer p (length d) c = Some d" "(cells c)(p := None) = h"
    using assms(1) by (simp_all add: loaded_def)
  have n: "0 < length fs" "length (modules c) = length fs" "entry_ext c = Some 0" "wire_entries c = [None, Some (length fs - 1)]"
      "owner c" "\<not> cancelled c"
    using r(1) by (simp_all add: lined_def)
  let ?t = "\<lparr>task_data = p, task_len = length d, task_src = src, task_dir = dir, task_mod = ?i\<rparr>"
  let ?c' = "c\<lparr>inflight := inflight c + 1, pool := tp_enqueue ?t (pool c)\<rparr>"
  have push: "push_packet K p (length d) src dir (c, k) = Some (?c', k)"
    using assms(3) n by (elim disjE) (simp_all add: push_packet_def enqueue_module_def module_at_def Let_def)
  have lc: "lined B fs ?c'" "tidy ?c'" using lined_cong [OF r(1), of ?c'] tidy_cong [of ?c' c] r(2) by simp_all
  have "carrying B fs h ?i dir d ?c'"
    unfolding carrying_def
    by (intro conjI exI [of _ p] exI [of _ src])
      (use lc r(3-7) n(1) assms(2) in \<open>simp_all add: free_worker_def tp_enqueue_def read_buffer_def\<close>)
  then have "under_way B fs h dir e k k' (length fs) (?c', k)"
    using assms(3,4) n(1) unfolding under_way_def by (auto split: if_splits)
  then show ?thesis using push by blast
qed

lemma under_way_owner:
  "under_way B fs h dir e k k' r (c, k) \<Longrightarrow> r \<noteq> 0 \<Longrightarrow> under_way B fs h dir e k2 k2' r (c, k2)"
  by (simp add: under_way_def)

text \<open>Allocating a buffer and writing the packet to its front.\<close>

lemma load_buffer:
  assumes "at_rest B fs h c" and "length d \<le> n"
  obtains c1 c2 where "alloc_buffer n c = (Some (next_ptr c), c1)" "store_buffer (next_ptr c) 0 d c1 = Some c2"
    "loaded B fs h (next_ptr c) d c2" "loaded B fs h (next_ptr c) [] c1"
proof -
  let ?q = "next_ptr c"
  have r: "lined B fs c" "tidy c" "free_worker c" "queue (pool c) = []" "inflight c = 0" "cells c = h"
    using assms(1) by (simp_all add: at_rest_def)
  let ?c1 = "check_backpressure (c\<lparr>oom := [], cells := (cells c)(?q \<mapsto> replicate n 0), next_ptr := ?q + 1,
     bytes_allocated := bytes_allocated c + int n\<rparr>)"
  let ?c2 = "?c1\<lparr>cells := (cells c)(?q \<mapsto> patch 0 d (replicate n 0))\<rparr>"
  have a: "alloc_buffer n c = (Some ?q, ?c1)" using r(2) by (simp add: alloc_buffer_def tidy_def)
  have b: "store_buffer ?q 0 d ?c1 = Some ?c2" using assms(2) by (simp add: store_buffer_def)
  have t1: "tidy ?c1" using tidy_alloc [OF r(2), of "replicate n 0"] by simp
  then have t2: "tidy ?c2" using tidy_store [of ?c1 ?q "replicate n 0" "patch 0 d (replicate n 0)"] assms(2) by simp
  have h: "h(?q := None) = h" using tidy_fresh [OF r(2), of ?q] r(6) by (auto simp: fun_eq_iff)
  have f: "lined B fs ?c1" "lined B fs ?c2" by (rule lined_cong [OF r(1)], simp_all)+
  have "loaded B fs h ?q d ?c2"
    using f(2) t2 r(3-6) h assms(2) by (simp add: loaded_def free_worker_def read_buffer_def patch_def)
  moreover have "loaded B fs h ?q [] ?c1"
    using f(1) t1 r(3-6) h by (simp add: loaded_def free_worker_def read_buffer_def)
  ultimately show thesis using a b by (intro that)
qed

lemma push_under_way:
  assumes "at_rest B fs h c" and "d \<noteq> []" and "dir = 0 \<or> dir = 1 \<and> src = 1"
    and "(if dir = 0 then encode_line fs d else decode_line fs d) = Some e"
  shows "\<exists>w. push_bytes K d src dir (c, k) = Some w \<and> under_way B fs h dir e k k' (length fs) w"
proof -
  obtain c1 c2 where a: "alloc_buffer (length d) c = (Some (next_ptr c), c1)" "store_buffer (next_ptr c) 0 d c1 = Some c2"
      "loaded B fs h (next_ptr c) d c2"
    by (rule load_buffer [OF assms(1) order_refl])
  then show ?thesis using push_loaded [OF a(3) assms(2-4), of K k k'] by (auto simp: push_bytes_def)
qed

section \<open>Building a line\<close>

text \<open>
  A module description that makes a stage: its initialisation leaves the chain alone and gives a context with the
  coders \<open>f\<close>.
\<close>

definition makes_stage :: "('c, 'k) bases \<Rightarrow> ModuleSpec \<Rightarrow> (bytes \<Rightarrow> bytes option) \<times> (bytes \<Rightarrow> bytes option) \<Rightarrow> bool" where
  "makes_stage B spec f \<longleftrightarrow> (\<exists>base. B (ms_name spec) = Some base
     \<and> (\<forall>A s w. \<exists>x. init_fn base A s w = Some (Some x, w) \<and> packet_stage base x (fst f) (snd f)))"

definition copy_coders :: "(bytes \<Rightarrow> bytes option) \<times> (bytes \<Rightarrow> bytes option)" where
  "copy_coders = (\<lambda>d. if d = [] then None else Some d, \<lambda>d. if d = [] then None else Some d)"

lemma copy_makes_stage: "B (ms_name spec) = Some (copy_base h) \<Longrightarrow> makes_stage B spec copy_coders"
  using copy_stage.packet_stage_axioms by (auto simp: makes_stage_def copy_coders_def copy_base_def)

lemma b64_makes_stage:
  "B (ms_name spec) = Some (b64_base enc dec h) \<Longrightarrow> makes_stage B spec (b64_encoder enc, b64_decoder dec)"
  using b64_stage.packet_stage_axioms by (auto simp: makes_stage_def b64_base_def)

text \<open>The owner hands out one number for each module.\<close>

fun numbers_taken :: "'k KernelAPI \<Rightarrow> nat \<Rightarrow> 'k \<Rightarrow> 'k" where
  "numbers_taken K 0 k = k"
| "numbers_taken K (Suc n) k = numbers_taken K n (snd (ka_alloc_module_id K k))"

lemma create_one_stage:
  assumes "makes_stage B spec f"
  obtains m where "create_one B K now spec i (c, k)
      = Some (True, (c\<lparr>modules := modules c @ [m]\<rparr>, snd (ka_alloc_module_id K k)))" "staged B m f"
proof -
  obtain base where b: "B (ms_name spec) = Some base"
      "\<And>A s w. \<exists>x. init_fn base A s w = Some (Some x, w) \<and> packet_stage base x (fst f) (snd f)"
    using assms by (auto simp: makes_stage_def)
  obtain mid k1 where k1: "ka_alloc_module_id K k = (mid, k1)" by (cases "ka_alloc_module_id K k")
  let ?m = "new_module (ms_name spec) mid i"
  let ?w = "(c\<lparr>modules := modules c @ [?m]\<rparr>, k1)"
  obtain x where x: "init_fn base (chain_api K (length (modules c))) (c_str (ms_params spec)) ?w = Some (Some x, ?w)"
      "packet_stage base x (fst f) (snd f)"
    using b(2) by blast
  have "create_one B K now spec i (c, k)
      = Some (True, (c\<lparr>modules := modules c @ [?m\<lparr>m_ctx := Some x, last_activity := now\<rparr>]\<rparr>, k1))"
    using b(1) k1 x(1) by (simp add: create_one_def upd_module_def)
  moreover have "staged B (?m\<lparr>m_ctx := Some x, last_activity := now\<rparr>) f" using b(1) x(2) by (auto simp: staged_def new_module_def)
  ultimately show thesis using k1 by (intro that) simp_all
qed

lemma build_main_stages:
  assumes "list_all2 (makes_stage B) specs fs"
  shows "\<exists>ms. build_main B K now specs i (c, k)
      = Some (True, (c\<lparr>modules := modules c @ ms\<rparr>, numbers_taken K (length specs) k)) \<and> list_all2 (staged B) ms fs"
  using assms
proof (induction specs fs arbitrary: i c k rule: list_all2_induct)
  case Nil
  then show ?case by simp
next
  case (Cons spec specs f fs)
  let ?k = "snd (ka_alloc_module_id K k)"
  obtain m where m: "create_one B K now spec i (c, k) = Some (True, (c\<lparr>modules := modules c @ [m]\<rparr>, ?k))" "staged B m f"
    by (rule create_one_stage [OF Cons(1)])
  obtain ms where "build_main B K now specs (i + 1) (c\<lparr>modules := modules c @ [m]\<rparr>, ?k)
      = Some (True, (c\<lparr>modules := modules c @ [m] @ ms\<rparr>, numbers_taken K (length specs) ?k))" "list_all2 (staged B) ms fs"
    using Cons(3) [of "i + 1" "c\<lparr>modules := modules c @ [m]\<rparr>" ?k] by auto
  then show ?case using m by (intro exI [of _ "m # ms"]) simp
qed

lemma staged_links: "staged B (m\<lparr>near := a, wire_dst := b\<rparr>) = staged B m" "staged B (m\<lparr>near := a\<rparr>) = staged B m"
  by (simp_all add: staged_def fun_eq_iff)

lemma link_main_lined:
  assumes "list_all2 (staged B) (modules c) fs" and "fs \<noteq> []" and "owner c" "\<not> cancelled c"
  shows "lined B fs (link_main c)"
proof -
  have n: "length (modules c) = length fs" "0 < length fs" using assms(1,2) by (auto dest: list_all2_lengthD)
  have st: "staged B (modules c ! i) (fs ! i)" if "i < length fs" for i
    using assms(1) that by (simp add: list_all2_nthD2)
  show ?thesis
  proof (cases "length fs = 1")
    case True
    then obtain f where "fs = [f]" by (cases fs) auto
    then show ?thesis using st [of 0] n assms(3,4)
      by (simp add: lined_def link_main_def upd_module_def Let_def line_neighbours_def staged_links)
  next
    case False
    then have "1 < length fs" using n(2) by linarith
    then show ?thesis using st n assms(2-4)
      by (auto simp: lined_def link_main_def upd_module_def Let_def line_neighbours_def nth_list_update staged_links)
  qed
qed

text \<open>A chain of stages is built and is a line at rest.\<close>

lemma chain_new_line:
  assumes "list_all2 (makes_stage B) (cc_modules cfg) fs" and "fs \<noteq> []"
    and "modules c = []" "requested_outputs c = []" "owner c" "\<not> cancelled c" "tidy c" "free_worker c" "queue (pool c) = []"
      "inflight c = 0"
  shows "\<exists>c'. chain_new B K order now cfg (c, k) = Some (c', numbers_taken K (length fs) k) \<and> at_rest B fs (cells c) c'
    \<and> backpressure_paused c' = backpressure_paused c \<and> total_extra_outputs c' = 0"
proof -
  let ?k = "numbers_taken K (length fs) k"
  obtain ms where b: "build_main B K now (cc_modules cfg) 0 (c, k) = Some (True, (c\<lparr>modules := ms\<rparr>, ?k))"
      "list_all2 (staged B) ms fs"
    using build_main_stages [OF assms(1), of K now 0 c k] assms(3) list_all2_lengthD [OF assms(1)] by auto
  have "ms \<noteq> []" using b(2) assms(2) by auto
  then have new: "chain_new B K order now cfg (c, k) = Some (link_main (c\<lparr>modules := ms\<rparr>), ?k)"
    using b(1) assms(4) by (simp add: chain_new_def build_loop.simps link_main_def upd_module_def Let_def)
  have "lined B fs (link_main (c\<lparr>modules := ms\<rparr>))"
    using b(2) assms(2,5,6) by (intro link_main_lined) simp_all
  moreover have "tidy (link_main c') = tidy c'" "free_worker (link_main c') = free_worker c'" "tidy (c'\<lparr>modules := ms\<rparr>) = tidy c'"
      "free_worker (c'\<lparr>modules := ms\<rparr>) = free_worker c'" "pool (link_main c') = pool c'"
      "cells (link_main c') = cells c'" "inflight (link_main c') = inflight c'"
      "backpressure_paused (link_main c') = backpressure_paused c'"
    for c' :: "'a Chain"
    by (simp_all add: link_main_def upd_module_def Let_def tidy_def heap_inv_def heap_bytes_def free_worker_def)
  moreover have "total_extra_outputs (link_main c') = 0" for c' :: "'a Chain"
    by (simp add: link_main_def upd_module_def Let_def total_extra_outputs_def)
  ultimately show ?thesis using new assms(7-10) by (simp add: at_rest_def)
qed

end
