(* ===== verification/Tunnel_Data.thy ===== *)
theory Tunnel_Data
  imports Tunnel_Connect Chain_Line
begin

unbundle bit_operations_syntax

text \<open>
  Data through a running tunnel: from an external connection of the client over both chains and the data connection to the
  target and back, event by event and task by task.
\<close>

section \<open>Writing\<close>

lemma write_through:
  assumes "roomy (Suc k) w" and "data \<noteq> []" and "length data < 2 ^ 33"
  obtains w' where "wb_write f data wb_new w = Some (0, wb_new, w')" "roomy k w'" "fd_stream f w' = fd_stream f w @ data"
proof -
  obtain w' where w': "sys_write f data w = (WrOk (length data), w')" "roomy k w'" "fd_stream f w' = fd_stream f w @ data"
    by (rule roomy_stream [OF assms])
  show thesis by (rule that [OF _ w'(2,3)]) (simp add: wb_write_def w'(1), simp add: wb_new_def)
qed

lemma data_frame_size: "data_frame n e \<noteq> []" "length e \<le> length (data_frame n e)"
  by (simp_all add: data_frame_def)

text \<open>The frame of a packet that leaves the client's chain goes to the socket and is remembered.\<close>

lemma client_sends_data:
  assumes "c_link q [] (Suc k) c" and "length (data_frame n e) < 2 ^ 33" and "c_data_connections c = [dc]" and "send_seq dc = n"
  obtains c' where "client_wire_write 1 e c = Some (0, c')" "c_link q [] k c'" "c_rest c' = c_rest c" "c_st c' = c_st c"
    "c_data_connections c' = [remember_frame n (data_frame n e) (clock (c_env c)) (dc\<lparr>send_seq := n + 1\<rparr>)]"
    "new_output (tcp_fd c) (osys (c_env c)) (osys (c_env c')) = data_frame n e"
proof -
  have r: "resting (tcp_fd c) [] dc" "0 \<le> tcp_fd c" "rd_answers (c_env c) (tcp_fd c) = []" "c_control_seq c = q" "roomy (Suc k) (osys (c_env c))"
    using assms(1,3) by (auto simp: c_link_def)
  then have dc: "dc_fd dc = tcp_fd c" "at_end dc" "dc_writer dc = wb_new" by (simp_all add: resting_def)
  obtain w where w: "wb_write (tcp_fd c) (data_frame n e) wb_new (osys (c_env c)) = Some (0, wb_new, w)" "roomy k w"
      "fd_stream (tcp_fd c) w = fd_stream (tcp_fd c) (osys (c_env c)) @ data_frame n e"
    by (rule write_through [OF r(5) data_frame_size(1) assms(2)])
  have same: "dc\<lparr>send_seq := x, dc_writer := wb_new\<rparr> = dc\<lparr>send_seq := x\<rparr>" for x using dc(3) by (cases dc) simp
  let ?dc = "remember_frame n (data_frame n e) (clock (c_env c)) (dc\<lparr>send_seq := n + 1\<rparr>)"
  have send: "dc_send e (clock (c_env c)) dc (osys (c_env c)) = Some (0, ?dc, w)"
    using dc w(1) assms(4) by (simp add: dc_send_def Let_def same)
  let ?c' = "c\<lparr>c_data_connections := [?dc], c_pending_io := c_pending_io c @ [CioLog 0],
      c_env := (c_env c)\<lparr>osys := w, kern := wakeup (kern (c_env c))\<rparr>\<rparr>"
  have "client_wire_write 1 e c = Some (0, ?c')"
    using assms(3) r(2) dc(1) send
    by (simp add: client_wire_write_def client_wire_data_def c_set_os_def c_upd_dc_def c_upd_env_def c_kernel_def c_push_io_def upd_kern_def)
  moreover have "resting (tcp_fd c) [] ?dc" using dc by (simp add: resting_def remember_frame_def at_end_def)
  ultimately show thesis using r w by (intro that [of ?c']) (simp_all add: c_link_def c_rest_def new_output_def)
qed

text \<open>What leaves the session's chain for a connection is written to its target.\<close>

lemma session_writes_target:
  assumes "map_of (targets s) cid = Some t" and "tgt_writer t = wb_new" and "cid \<noteq> 255" and "d \<noteq> []" and "length d < 2 ^ 33"
    and "s_link q ms (Suc k) s"
  obtains s' where "wire_write 0 (cid # d) s = Some (0, s')" "s_link q ms k s'" "st s' = st s" "client_fd s' = client_fd s"
    "fd_stream (tgt_fd t) (osys (env s')) = fd_stream (tgt_fd t) (osys (env s)) @ d"
    "data_connections s' = data_connections s" "map_of (targets s') cid = Some t"
proof -
  have room: "roomy (Suc k) (osys (env s))" using assms(6) by (simp add: s_link_def)
  obtain w where w: "wb_write (tgt_fd t) d wb_new (osys (env s)) = Some (0, wb_new, w)" "roomy k w"
      "fd_stream (tgt_fd t) w = fd_stream (tgt_fd t) (osys (env s)) @ d"
    by (rule write_through [OF room assms(4,5)])
  have "t\<lparr>tgt_writer := wb_new\<rparr> = t" using assms(2) by (cases t) simp
  then show thesis
    by (intro that [of "set_os w (upd_target cid (\<lambda>t. t\<lparr>tgt_writer := wb_new\<rparr>) s)"])
      (use assms(1-3,6) w in
        \<open>simp_all add: wire_write_def wire_write_target_def Let_def set_os_def upd_env_def upd_target_def s_link_def\<close>)
qed

section \<open>Reading\<close>

lemma owner_alloc: "alloc_buffer n c = (p, c') \<Longrightarrow> chain_alloc n (Some c, k) = Some (p, (Some c', k))"
  by (simp add: chain_alloc_def on_chain_def)

lemma owner_store: "store_buffer p off bs c = Some c' \<Longrightarrow> chain_store p off bs (Some c, k) = Some (Some c', k)"
  by (simp add: chain_store_def on_chain_def)

lemma owner_push:
  "push_packet client_kapi p len src dir (c, k) = Some (c', k) \<Longrightarrow> client_push p len src dir (Some c, k) = Some (Some c', k)"
  "push_packet session_kapi p len src dir (c, s) = Some (c', s) \<Longrightarrow> chain_push p len src dir (Some c, s) = Some (Some c', s)"
  by (simp_all add: client_push_def chain_push_def on_chain_def)

text \<open>The client reads from an external connection into its chain.\<close>

lemma client_reads_external:
  assumes "at_rest B fs h ch" and "\<not> is_backpressure_paused 0 ch" and "rd_answers (c_env c) f = ReadData d # as"
    and "d \<noteq> []" and "length d < MAX_PACKET_SIZE" and "encode_line fs (cid # d) = Some e"
    and c': "c' = c\<lparr>c_env := (c_env c)\<lparr>rd_answers := (rd_answers (c_env c))(f := as)\<rparr>\<rparr>"
  obtains ch' where "on_ext_in cid f EPOLLIN (Some ch, c) = Some (Some ch', c')" "under_way B fs h 0 e c' k' (length fs) (ch', c')"
proof -
  have le: "length (cid # d) \<le> MAX_PACKET_SIZE" using assms(5) by simp
  obtain c1 c2 where l: "alloc_buffer MAX_PACKET_SIZE ch = (Some (next_ptr ch), c1)" "store_buffer (next_ptr ch) 0 (cid # d) c1 = Some c2"
      "loaded B fs h (next_ptr ch) (cid # d) c2"
    by (rule load_buffer [OF assms(1) le])
  obtain ch' where ch': "push_packet client_kapi (next_ptr ch) (length (cid # d)) 0 0 (c2, c') = Some (ch', c')"
      "under_way B fs h 0 e c' k' (length fs) (ch', c')"
    using push_loaded [OF l(3), of 0 0 e client_kapi c' k'] assms(6) by auto
  have rd: "sys_read f (MAX_PACKET_SIZE - 1) (c_env c) = (ReadData d, c_env c')"
    using assms(3-5) c' by (simp add: sys_read_def)
  have "on_ext_in cid f EPOLLIN (Some ch, c) = Some (Some ch', c')"
    using assms(2) rd ch'(1) owner_alloc [OF l(1), of c] owner_store [OF l(2), of c'] owner_push(1) [OF ch'(1)] c'
    by (simp add: on_ext_in_def ext_read_def bp_paused_def in_client_def)
  then show thesis using ch'(2) by (rule that)
qed

section \<open>Frames\<close>

text \<open>A frame at the read position, as both readers see it.\<close>

lemma scan_framed:
  assumes "body \<noteq> []" and "length body < 2 ^ 32"
  shows "scan_frame (make_varint_packet body @ rest) = FrameAt (length (make_varint_packet body) - length body) (length body)"
    and "drop (length (make_varint_packet body) - length body) (make_varint_packet body @ rest) = body @ rest"
    and "length body \<le> length (make_varint_packet body)"
proof -
  have "frame_body_ok body" using assms by (simp add: frame_body_ok_def)
  from scan_make_varint_packet [OF this, of rest]
  show "scan_frame (make_varint_packet body @ rest) = FrameAt (length (make_varint_packet body) - length body) (length body)"
    by (simp add: make_varint_packet_def)
qed (simp_all add: make_varint_packet_def)

definition data_body :: "u16 \<Rightarrow> bytes \<Rightarrow> bytes" where
  "data_body n e = [WIRE_DATA, ucast (n AND 0xFF), ucast (drop_bit 8 n AND 0xFF)] @ e"

lemma data_frame_body: "data_frame n e = make_varint_packet (data_body n e)"
  by (simp add: data_frame_eq data_body_def)

lemma scan_data:
  assumes "length e < 2 ^ 31"
  shows "scan_frame (data_frame n e) = FrameAt (length (data_frame n e) - length (data_body n e)) (length (data_body n e))"
    and "drop (length (data_frame n e) - length (data_body n e)) (data_frame n e) = data_body n e"
    and "length (data_body n e) \<le> length (data_frame n e)"
proof -
  have b: "data_body n e \<noteq> []" "length (data_body n e) < 2 ^ 32" using assms by (simp_all add: data_body_def)
  show "scan_frame (data_frame n e) = FrameAt (length (data_frame n e) - length (data_body n e)) (length (data_body n e))"
    "drop (length (data_frame n e) - length (data_body n e)) (data_frame n e) = data_body n e"
    "length (data_body n e) \<le> length (data_frame n e)"
    using scan_framed(1,2) [OF b, of "[]"] scan_framed(3) [OF b] by (simp_all add: data_frame_body)
qed

lemma session_data_step_data:
  assumes "drop (dc_read_offset (conn_at i d)) (read_buf (conn_at i d)) = data_frame n e" and "length e < 2 ^ 31"
    and "recv_data i (data_body n e) d = Some d'"
  shows "data_step Q i d = Some (True, upd_conn i (skip_bytes (length (data_frame n e))) d')"
proof -
  note sc = scan_data [OF assms(2), of n]
  obtain k where k: "length (data_frame n e) = k + length (data_body n e)" using sc(3) le_Suc_ex by (metis add.commute)
  have "take (length (data_body n e)) (data_body n e) = data_body n e" by simp
  then show ?thesis
    unfolding data_step_def Let_def assms(1) sc(1) using sc(2,3) assms(3)
    by (simp add: k) (simp add: data_body_def)
qed

lemma client_data_step_data:
  assumes "drop (dc_read_offset (c_conn_at i d)) (read_buf (c_conn_at i d)) = data_frame n e" and "length e < 2 ^ 31"
    and "client_recv_data i (data_body n e) d = Some d'"
  shows "client_data_step i d = Some (True, c_upd_conn i (skip_bytes (length (data_frame n e))) d')"
proof -
  note sc = scan_data [OF assms(2), of n]
  obtain k where k: "length (data_frame n e) = k + length (data_body n e)" using sc(3) le_Suc_ex by (metis add.commute)
  have "take (length (data_body n e)) (data_body n e) = data_body n e" by simp
  then show ?thesis
    unfolding client_data_step_def Let_def assms(1) sc(1) using sc(2,3) assms(3)
    by (simp add: k) (simp add: data_body_def)
qed

section \<open>The session takes data\<close>

lemma ack_frame_length: "length (ack_frame n) = 4"
  by (simp add: ack_frame_def write_varint.simps)

lemma ack_queued:
  "(write_priority (ack_frame n) wb_new)\<lparr>registered := True\<rparr> = queued [ack_frame n]"
  "\<not> registered (write_priority (ack_frame n) wb_new)" "0 < wb_size (write_priority (ack_frame n) wb_new)"
  by (simp_all add: write_queued(2)) (simp_all add: write_priority_def wb_new_def wb_size_def ack_frame_length)

lemma session_ack_queued:
  assumes "data_connections s = [dc]" and "dc_writer dc = wb_new"
  obtains K where "dc_ensure_epollout 0 (upd_dc 0 (dc_send_ack n) s)
    = s\<lparr>data_connections := [dc\<lparr>dc_writer := queued [ack_frame n]\<rparr>], env := (env s)\<lparr>kern := K\<rparr>\<rparr>"
  by (rule that) (use assms ack_queued [of n] in
    \<open>simp add: dc_ensure_epollout_def upd_dc_def dc_send_ack_def register_data_conn_epollout_def upd_kernel_def upd_env_def upd_kern_def Let_def\<close>)

lemma read_done_frame:
  "recv_seq (trim_buffer (skip_bytes m dc)) = recv_seq dc" "send_seq (trim_buffer (skip_bytes m dc)) = send_seq dc"
  "unacked (trim_buffer (skip_bytes m dc)) = unacked dc"
  by (simp_all add: trim_buffer_def skip_bytes_def)

lemma session_takes_data:
  assumes "s_link q [] k s" and "data_connections s = [dc]" and "recv_seq dc = n" and "st s = RUNNING"
    and "at_rest B fs h ch" and "e \<noteq> []" and "length (data_frame n e) \<le> MAX_PACKET_SIZE" and "decode_line fs e = Some d"
  obtains ch' s' dc' where "on_data_in Q 0 EPOLLIN (r, Some ch, s_arrive (data_frame n e) s) = Some (r, Some ch', s')"
    "\<forall>k'. under_way B fs h 1 d s' k' (length fs) (ch', s')" "s_link q [ack_frame n] k s'" "s_rest s' = s_rest s" "st s' = RUNNING"
    "osys (env s') = osys (env s)" "data_connections s' = [dc']" "recv_seq dc' = n + 1" "send_seq dc' = send_seq dc" "unacked dc' = unacked dc"
proof -
  let ?bs = "data_frame n e"
  have dc: "resting (client_fd s) [] dc" "rd_answers (env s) (client_fd s) = []" using assms(1,2) by (auto simp: s_link_def)
  then have off: "dc_read_offset dc = length (read_buf dc)" "dc_writer dc = wb_new" "dc_fd dc = client_fd s"
    by (simp_all add: resting_def at_end_def)
  have len: "length e < 2 ^ 31" using data_frame_size(2) [of e n] assms(7) by simp
  let ?dc1 = "dc\<lparr>read_buf := read_buf dc @ ?bs, recv_seq := n + 1\<rparr>"
  have rd: "session_reading ?bs (s_arrive ?bs s) = s\<lparr>last_wire_activity := clock (env s), heartbeating := False,
      data_connections := [dc\<lparr>read_buf := read_buf dc @ ?bs\<rparr>]\<rparr>" (is "_ = ?s1")
    using session_reading_link [OF assms(1), of ?bs] assms(2) by auto
  let ?s2 = "?s1\<lparr>data_connections := [?dc1]\<rparr>"
  obtain c1 c2 where l: "alloc_buffer (length e) ch = (Some (next_ptr ch), c1)" "store_buffer (next_ptr ch) 0 e c1 = Some c2"
      "loaded B fs h (next_ptr ch) e c2"
    by (rule load_buffer [OF assms(5) order_refl])
  obtain ch' where ch': "push_packet session_kapi (next_ptr ch) (length e) 1 1 (c2, ?s2) = Some (ch', ?s2)"
      "under_way B fs h 1 d ?s2 ?s2 (length fs) (ch', ?s2)"
    using push_loaded [OF l(3) assms(6), of 1 1 d session_kapi ?s2 ?s2] assms(8) by auto
  have fs: "length fs \<noteq> 0" using assms(5) by (simp add: at_rest_def lined_def)
  have disp: "dispatch_data_conn_packet e 1 (Some ch, ?s2) = Some (Some ch', ?s2)"
    using assms(4,6) owner_alloc [OF l(1), of ?s2] owner_store [OF l(2), of ?s2] owner_push(2) [OF ch'(1)]
    by (cases e) (simp_all add: dispatch_data_conn_packet_def)
  obtain K where ack: "dc_ensure_epollout 0 (upd_dc 0 (dc_send_ack n) ?s2)
      = ?s2\<lparr>data_connections := [?dc1\<lparr>dc_writer := queued [ack_frame n]\<rparr>], env := (env ?s2)\<lparr>kern := K\<rparr>\<rparr>" (is "_ = ?s3")
    by (rule session_ack_queued [of ?s2 ?dc1 n]) (use off in simp_all)
  have recv: "recv_data 0 (data_body n e) (r, Some ch, ?s1) = Some (r, Some ch', ?s3)"
    unfolding ack [symmetric] using disp assms(3)
    by (simp add: recv_data_def data_body_def dc_accept_def conn_at_def upd_conn_def in_session_def upd_dc_def)
  have ev: "on_data_in Q 0 EPOLLIN (r, Some ch, s_arrive ?bs s)
      = map_option (upd_conn 0 trim_buffer) (data_loop Q 0 (r, Some ch, ?s1))"
    unfolding rd [symmetric]
    by (rule session_event_read [where dc = dc])
      (use assms(2,7) dc off data_frame_size in \<open>simp_all add: s_arrive_def arrive_def\<close>)
  let ?dc3 = "?dc1\<lparr>dc_writer := queued [ack_frame n]\<rparr>"
  have "data_loop Q 0 (r, Some ch, ?s1) = data_loop Q 0 (upd_conn 0 (skip_bytes (length ?bs)) (r, Some ch', ?s3))"
    using session_data_step_data [OF _ len recv, of Q] off(1) by (subst data_loop.simps) (simp add: conn_at_def)
  also have "\<dots> = Some (upd_conn 0 (skip_bytes (length ?bs)) (r, Some ch', ?s3))"
    by (rule session_loop_end) (simp add: conn_at_def upd_conn_def in_session_def upd_dc_def skip_bytes_def off(1))
  finally have run: "on_data_in Q 0 EPOLLIN (r, Some ch, s_arrive ?bs s)
      = Some (r, Some ch', ?s3\<lparr>data_connections := [trim_buffer (skip_bytes (length ?bs) ?dc3)]\<rparr>)"
    unfolding ev by (simp add: upd_conn_def in_session_def upd_dc_def)
  have "resting (client_fd s) [ack_frame n] (trim_buffer (skip_bytes (length ?bs)
      ((dc\<lparr>recv_seq := n + 1\<rparr>)\<lparr>read_buf := read_buf dc @ ?bs, dc_writer := queued [ack_frame n]\<rparr>)))"
    using resting_trim [of "client_fd s" "dc\<lparr>recv_seq := n + 1\<rparr>" "[ack_frame n]" ?bs] dc(1) by (simp add: resting_def at_end_def)
  moreover have "(dc\<lparr>recv_seq := n + 1\<rparr>)\<lparr>read_buf := read_buf dc @ ?bs, dc_writer := queued [ack_frame n]\<rparr> = ?dc3" by (cases dc) simp
  ultimately have "s_link q [ack_frame n] k (?s3\<lparr>data_connections := [trim_buffer (skip_bytes (length ?bs) ?dc3)]\<rparr>)"
    using assms(1) by (simp add: s_link_def)
  then show thesis
    by (intro that [OF run, of "trim_buffer (skip_bytes (length ?bs) ?dc3)"])
      (use assms(4) under_way_owner [OF ch'(2) fs] in \<open>simp_all add: s_rest_def read_done_frame\<close>)
qed

section \<open>The client takes the acknowledgement\<close>

lemma scan_ack:
  shows "scan_frame (ack_frame n) = FrameAt 1 3"
    and "drop 1 (ack_frame n) = [WIRE_DATA_ACK, ucast (n AND 0xFF), ucast (drop_bit 8 n AND 0xFF)]"
  using scan_framed(1) [of "[WIRE_DATA_ACK, ucast (n AND 0xFF), ucast (drop_bit 8 n AND 0xFF)]" "[]"]
  by (simp_all add: ack_frame_eq [symmetric] ack_frame_length) (simp add: ack_frame_def write_varint.simps)

lemma client_data_step_ack:
  assumes "drop (dc_read_offset (c_conn_at i d)) (read_buf (c_conn_at i d)) = ack_frame n"
  shows "client_data_step i d = Some (True, c_upd_conn i (skip_bytes (length (ack_frame n))) (c_upd_conn i (dc_ack n) d))"
proof -
  have a: "ack_frame n = [3, WIRE_DATA_ACK, ucast (n AND 0xFF), ucast (drop_bit 8 n AND 0xFF)]"
    by (simp add: ack_frame_def write_varint.simps)
  show ?thesis unfolding client_data_step_def Let_def assms scan_ack(1) unfolding a by simp (simp add: numeral_eq_Suc)
qed

lemma client_takes_ack:
  assumes "c_link q [] k c" and "c_data_connections c = [dc]"
  obtains c' dc' where "client_data_in 0 EPOLLIN (r, ch, c_arrive (ack_frame n) c) = Some (r, ch, c')"
    "c_link q [] k c'" "c_rest c' = c_rest c" "c_st c' = c_st c" "c_data_connections c' = [dc']"
    "unacked dc' = dropWhile (\<lambda>u. pf_seq u \<le> n) (unacked dc)" "send_seq dc' = send_seq dc" "recv_seq dc' = recv_seq dc"
proof -
  let ?bs = "ack_frame n"
  have dc: "resting (tcp_fd c) [] dc" "rd_answers (c_env c) (tcp_fd c) = []" using assms by (auto simp: c_link_def)
  then have off: "dc_read_offset dc = length (read_buf dc)" "dc_writer dc = wb_new" "dc_fd dc = tcp_fd c"
    by (simp_all add: resting_def at_end_def)
  have rd: "client_reading ?bs (c_arrive ?bs c) = c\<lparr>c_last_activity := clock (c_env c), c_heartbeating := False,
      c_data_connections := [dc\<lparr>read_buf := read_buf dc @ ?bs\<rparr>]\<rparr>" (is "_ = ?c1")
    using client_reading_link [OF assms(1), of ?bs] assms(2) by auto
  have "?bs \<noteq> []" "length ?bs \<le> MAX_PACKET_SIZE" using ack_frame_length [of n] by auto
  then have ev: "client_data_in 0 EPOLLIN (r, ch, c_arrive ?bs c)
      = map_option (c_upd_conn 0 trim_buffer) (client_data_loop 0 (r, ch, ?c1))"
    unfolding rd [symmetric]
    by (intro client_event_read [where dc = dc]) (use assms(2) dc off in \<open>simp_all add: c_arrive_def arrive_def\<close>)
  let ?dc2 = "dc_ack n (dc\<lparr>read_buf := read_buf dc @ ?bs\<rparr>)"
  let ?c2 = "?c1\<lparr>c_data_connections := [?dc2]\<rparr>"
  have "client_data_loop 0 (r, ch, ?c1) = client_data_loop 0 (c_upd_conn 0 (skip_bytes (length ?bs)) (r, ch, ?c2))"
    using client_data_step_ack [of 0 "(r, ch, ?c1)" n] off(1)
    by (subst client_data_loop.simps) (simp add: c_conn_at_def c_upd_conn_def in_client_def c_upd_dc_def)
  also have "\<dots> = Some (c_upd_conn 0 (skip_bytes (length ?bs)) (r, ch, ?c2))"
    by (rule client_loop_end) (simp add: c_conn_at_def c_upd_conn_def in_client_def c_upd_dc_def skip_bytes_def dc_ack_def off(1))
  finally have run: "client_data_in 0 EPOLLIN (r, ch, c_arrive ?bs c)
      = Some (r, ch, ?c2\<lparr>c_data_connections := [trim_buffer (skip_bytes (length ?bs) ?dc2)]\<rparr>)"
    unfolding ev by (simp add: c_upd_conn_def in_client_def c_upd_dc_def)
  have "resting (tcp_fd c) [] (trim_buffer (skip_bytes (length ?bs) ((dc_ack n dc)\<lparr>read_buf := read_buf dc @ ?bs, dc_writer := wb_new\<rparr>)))"
    using resting_trim [of "tcp_fd c" "dc_ack n dc" "[]" ?bs] dc(1) by (simp add: resting_def at_end_def dc_ack_def)
  moreover have "(dc_ack n dc)\<lparr>read_buf := read_buf dc @ ?bs, dc_writer := wb_new\<rparr> = ?dc2"
    using off(2) by (cases dc) (simp add: dc_ack_def)
  ultimately have "c_link q [] k (?c2\<lparr>c_data_connections := [trim_buffer (skip_bytes (length ?bs) ?dc2)]\<rparr>)"
    using assms(1) by (simp add: c_link_def)
  then show thesis
    by (intro that [OF run, of "trim_buffer (skip_bytes (length ?bs) ?dc2)"]) (simp_all add: c_rest_def read_done_frame dc_ack_def)
qed

section \<open>From an external connection to its target\<close>

text \<open>
  The events: the client reads from the external connection, its worker takes the packet through the chain, the session reads the
  frame, its worker takes it through its chain to the target, the session writes out the acknowledgement and the client reads
  it.  \<open>n\<close> and \<open>m\<close> are the numbers of tasks of the two workers.
\<close>

definition carry_to_target ::
  "('c, Client) bases \<Rightarrow> ('d, Session) bases \<Rightarrow> 'd Setup \<Rightarrow> nat \<Rightarrow> nat \<Rightarrow> millis \<Rightarrow> byte \<Rightarrow> fd \<Rightarrow> 'c kworld \<Rightarrow> 'd dworld
   \<Rightarrow> ('c kworld \<times> 'd dworld) option" where
  "carry_to_target BC BS Q n m now cid f d e = do {
     (ch, c) \<leftarrow> on_ext_in cid f EPOLLIN (snd d);
     ch \<leftarrow> ch;
     (ch, c') \<leftarrow> worker_steps n BC client_kapi now (ch, c);
     let up = new_output (tcp_fd c) (osys (c_env c)) (osys (c_env c'));
     (r, sch, s) \<leftarrow> on_data_in Q 0 EPOLLIN (fst e, in_session (s_arrive up) (snd e));
     sch \<leftarrow> sch;
     (sch, s) \<leftarrow> worker_steps m BS session_kapi now (sch, s);
     s' \<leftarrow> on_data_out 0 (client_fd s) EPOLLOUT s;
     let down = new_output (client_fd s) (osys (env s)) (osys (env s'));
     d \<leftarrow> client_data_in 0 EPOLLIN (fst d, Some ch, c_arrive down c');
     Some (d, (r, Some sch, s'))
   }"

lemma queued_inv: "m \<noteq> [] \<Longrightarrow> wb_inv (queued [m])"
  by (simp add: wb_inv_def queued_def wb_new_def data_pending_def prio_pending_def)

lemma flush_only_own:
  assumes "wb_flush f b w = Some (r, b', w')" and "wb_inv b" and "g \<noteq> f"
  shows "fd_stream g w' = fd_stream g w"
  using flush_spec [OF assms(2), of f w] assms(1,3) by (auto simp: wb_flush_def flushed_def io_ext_def)

lemma flush_ack:
  assumes "roomy (Suc k) w"
  obtains w' where "wb_flush f (queued [ack_frame n]) w = Some (True, queued [], w')" "roomy k w'"
    "fd_stream f w' = fd_stream f w @ ack_frame n" "\<forall>g. g \<noteq> f \<longrightarrow> fd_stream g w' = fd_stream g w"
proof -
  have ne: "ack_frame n \<noteq> []" using ack_frame_length [of n] by auto
  then have "sendable [ack_frame n]" using ack_frame_length [of n] by (simp add: sendable_def)
  then obtain w' where w': "wb_flush f (queued [ack_frame n]) w = Some (True, queued [], w')" "roomy k w'"
      "fd_stream f w' = fd_stream f w @ ack_frame n"
    using flush_queued [of "[ack_frame n]" k w f] assms by auto
  then show thesis using flush_only_own [OF w'(1) queued_inv [OF ne]] by (intro that [OF w']) blast
qed

lemma session_sends_ack:
  assumes "s_link q [ack_frame n] (Suc k) s" and "data_connections s = [dc]"
  obtains s' where "on_data_out 0 f EPOLLOUT s = Some s'" "s_link q [] k s'" "s_rest s' = s_rest s" "st s' = st s"
    "new_output (client_fd s) (osys (env s)) (osys (env s')) = ack_frame n" "data_connections s' = [dc\<lparr>dc_writer := wb_new\<rparr>]"
    "\<And>g. g \<noteq> client_fd s \<Longrightarrow> fd_stream g (osys (env s')) = fd_stream g (osys (env s))"
proof -
  have dc: "dc_writer dc = queued [ack_frame n]" "dc_fd dc = client_fd s" "at_end dc" "roomy (Suc k) (osys (env s))"
    using assms by (auto simp: s_link_def resting_def)
  obtain w where w: "wb_flush (client_fd s) (queued [ack_frame n]) (osys (env s)) = Some (True, queued [], w)" "roomy k w"
      "fd_stream (client_fd s) w = fd_stream (client_fd s) (osys (env s)) @ ack_frame n"
      "\<forall>g. g \<noteq> client_fd s \<longrightarrow> fd_stream g w = fd_stream g (osys (env s))"
    by (rule flush_ack [OF dc(4), of "client_fd s" n])
  let ?s' = "s\<lparr>data_connections := [dc\<lparr>dc_writer := wb_new\<rparr>],
     env := (env s)\<lparr>kern := mod_fd_events (client_fd s) 0 EPOLLOUT (kern (env s)), osys := w\<rparr>\<rparr>"
  have "on_data_out 0 f EPOLLOUT s = Some ?s'"
    using assms(2) dc w(1) by (simp add: on_data_out_def flush_round_def dc_flush_def set_os_def upd_env_def upd_dc_def
        upd_kernel_def upd_kern_def queued_Nil Let_def)
  then show thesis
    by (rule that) (use assms dc w in \<open>simp_all add: s_link_def s_rest_def resting_def at_end_def new_output_def\<close>)
qed

text \<open>
  C2: what is written to an external connection arrives at its target.  Both ends with their data connection at rest and
  their numbers in step, chains whose coders undo each other, and sockets that take what is written: the bytes the client reads from the
  external connection are exactly what the session writes to the target of the same connection id, both chains end up as they
  were before, without a buffer left behind, and after the acknowledgement the client keeps no copy of the frame.
\<close>

theorem data_reaches_target:
  assumes "c_link q [] (Suc k) c" and "s_link q' [] (Suc (Suc l)) s" and "st s = RUNNING"
    and "c_data_connections c = [cdc]" and "send_seq cdc = n" and "unacked cdc = []"
    and "data_connections s = [sdc]" and "recv_seq sdc = n"
    and "at_rest BC fs h ch" and "\<not> is_backpressure_paused 0 ch" and "at_rest BS fs' h' sch"
    and "rd_answers (c_env c) f = ReadData d # as" and "d \<noteq> []" and "length d < MAX_PACKET_SIZE"
    and "encode_line fs (cid # d) = Some e" and "e \<noteq> []" and "length (data_frame n e) \<le> MAX_PACKET_SIZE" and "decode_line fs' e = Some (cid # d)"
    and "map_of (targets s) cid = Some t" and "tgt_writer t = wb_new" and "cid \<noteq> 255" and "tgt_fd t \<noteq> client_fd s"
  shows "\<exists>ch' c' sch' s' cdc' sdc'. carry_to_target BC BS Q (length fs) (length fs') now cid f (r, Some ch, c) (r', Some sch, s)
      = Some ((r, Some ch', c'), (r', Some sch', s'))
    \<and> fd_stream (tgt_fd t) (osys (env s')) = fd_stream (tgt_fd t) (osys (env s)) @ d
    \<and> at_rest BC fs h ch' \<and> at_rest BS fs' h' sch' \<and> c_link q [] k c' \<and> s_link q' [] l s'
    \<and> c_data_connections c' = [cdc'] \<and> send_seq cdc' = n + 1 \<and> unacked cdc' = []
    \<and> data_connections s' = [sdc'] \<and> recv_seq sdc' = n + 1"
proof -
  let ?c1 = "c\<lparr>c_env := (c_env c)\<lparr>rd_answers := (rd_answers (c_env c))(f := as)\<rparr>\<rparr>"
  have f: "f \<noteq> tcp_fd c" using assms(1,12) by (auto simp: c_link_def)
  then have l1: "c_link q [] (Suc k) ?c1" using assms(1) by (simp add: c_link_def)
  have len: "length (data_frame n e) < 2 ^ 33" "length d < 2 ^ 33" using assms(14,17) by simp_all
  obtain c2 where c2: "client_wire_write 1 e ?c1 = Some (0, c2)" "c_link q [] k c2" "c_rest c2 = c_rest ?c1"
      "c_data_connections c2 = [remember_frame n (data_frame n e) (clock (c_env ?c1)) (cdc\<lparr>send_seq := n + 1\<rparr>)]"
      "new_output (tcp_fd ?c1) (osys (c_env ?c1)) (osys (c_env c2)) = data_frame n e"
    by (rule client_sends_data [OF l1 len(1), of cdc]) (use assms(4,5) in simp_all)
  obtain ch1 where ch1: "on_ext_in cid f EPOLLIN (Some ch, c) = Some (Some ch1, ?c1)" "under_way BC fs h 0 e ?c1 c2 (length fs) (ch1, ?c1)"
    by (rule client_reads_external [OF assms(9,10,12,13,14,15) refl])
  obtain ch2 where ch2: "worker_steps (length fs) BC client_kapi now (ch1, ?c1) = Some (ch2, c2)" "at_rest BC fs h ch2"
    using under_way_steps [OF ch1(2), of client_kapi 0 "length fs" now] c2(1) by (auto simp: client_kapi_def under_way_def)
  obtain sch1 s1 sdc1 where s1: "on_data_in Q 0 EPOLLIN (r', Some sch, s_arrive (data_frame n e) s) = Some (r', Some sch1, s1)"
      "\<forall>k'. under_way BS fs' h' 1 (cid # d) s1 k' (length fs') (sch1, s1)" "s_link q' [ack_frame n] (Suc (Suc l)) s1" "s_rest s1 = s_rest s" "st s1 = RUNNING"
      "osys (env s1) = osys (env s)" "data_connections s1 = [sdc1]" "recv_seq sdc1 = n + 1" "send_seq sdc1 = send_seq sdc" "unacked sdc1 = unacked sdc"
    by (rule session_takes_data [OF assms(2,7,8,3,11,16,17,18), of Q r'])
  have t: "map_of (targets s1) cid = Some t" "client_fd s1 = client_fd s" using s1(4) assms(19) by (simp_all add: s_rest_def)
  obtain s2 where s2: "wire_write 0 (cid # d) s1 = Some (0, s2)" "s_link q' [ack_frame n] (Suc l) s2" "client_fd s2 = client_fd s1"
      "fd_stream (tgt_fd t) (osys (env s2)) = fd_stream (tgt_fd t) (osys (env s1)) @ d" "data_connections s2 = data_connections s1"
    by (rule session_writes_target [OF t(1) assms(20,21,13) len(2) s1(3)])
  obtain sch2 where sch2: "worker_steps (length fs') BS session_kapi now (sch1, s1) = Some (sch2, s2)" "at_rest BS fs' h' sch2"
    using under_way_steps [OF s1(2) [rule_format, of s2], of session_kapi 0 "length fs'" now] s2(1) by (auto simp: session_kapi_def under_way_def)
  obtain s3 where s3: "on_data_out 0 (client_fd s2) EPOLLOUT s2 = Some s3" "s_link q' [] l s3"
      "new_output (client_fd s2) (osys (env s2)) (osys (env s3)) = ack_frame n" "data_connections s3 = [sdc1\<lparr>dc_writer := wb_new\<rparr>]"
      "\<And>g. g \<noteq> client_fd s2 \<Longrightarrow> fd_stream g (osys (env s3)) = fd_stream g (osys (env s2))"
    by (rule session_sends_ack [OF s2(2), of sdc1 "client_fd s2"]) (use s2(5) s1(7) in simp_all)
  obtain c3 cdc3 where c3: "client_data_in 0 EPOLLIN (r, Some ch2, c_arrive (ack_frame n) c2) = Some (r, Some ch2, c3)"
      "c_link q [] k c3" "c_data_connections c3 = [cdc3]" "send_seq cdc3 = n + 1" "unacked cdc3 = []"
    by (rule client_takes_ack [OF c2(2,4), of r "Some ch2" n]) (use assms(6) in \<open>simp_all add: remember_frame_def\<close>)
  have "carry_to_target BC BS Q (length fs) (length fs') now cid f (r, Some ch, c) (r', Some sch, s)
      = Some ((r, Some ch2, c3), (r', Some sch2, s3))"
    by (simp add: carry_to_target_def ch1(1) ch2(1) c2(5) [simplified] in_session_def s1(1) sch2(1) s3(1,3) c3(1) Let_def)
  then show ?thesis using s3(2,4) s3(5) [of "tgt_fd t"] s2(3,4) t(2) s1(6,8) assms(22) ch2(2) sch2(2) c3(2-5) by auto
qed

section \<open>A tunnel of copy modules\<close>

definition copy_bases :: "(module_ctx, 'k) bases" where
  "copy_bases = [''copy'' \<mapsto> copy_base (\<lambda>s. s)]"

definition copy_cfg :: ChainConfig where
  "copy_cfg = cfg_default\<lparr>cc_modules := [\<lparr>ms_name = ''copy'', ms_params = []\<rparr>]\<rparr>"

definition fresh_chain :: "module_ctx Chain" where
  "fresh_chain = chain_empty\<lparr>pool := tp_start 1 tp_new\<rparr>"

lemma copy_chain_built:
  obtains c' k' where "chain_new copy_bases K order now copy_cfg (fresh_chain, k) = Some (c', k' :: 'k)"
    "at_rest (copy_bases :: (module_ctx, 'k) bases) [copy_coders] Map.empty c'" "\<not> is_backpressure_paused 0 c'"
proof -
  let ?B = "copy_bases :: (module_ctx, 'k) bases"
  have "makes_stage ?B \<lparr>ms_name = ''copy'', ms_params = []\<rparr> copy_coders"
    by (rule copy_makes_stage [where h = "\<lambda>s. s"]) (simp add: copy_bases_def)
  then have "list_all2 (makes_stage ?B) (cc_modules copy_cfg) [copy_coders]" by (simp add: copy_cfg_def cfg_default_def)
  moreover have "tidy fresh_chain" "free_worker fresh_chain" "cells fresh_chain = Map.empty" "\<not> is_backpressure_paused 0 fresh_chain"
    by (simp_all add: fresh_chain_def tidy_def heap_inv_def heap_bytes_def chain_empty_def free_worker_def tp_start_def tp_new_def
        is_backpressure_paused_def)
  moreover have "modules fresh_chain = []" "requested_outputs fresh_chain = []" "owner fresh_chain" "\<not> cancelled fresh_chain"
      "queue (pool fresh_chain) = []" "inflight fresh_chain = 0"
    by (simp_all add: fresh_chain_def chain_empty_def tp_start_def tp_new_def)
  ultimately show thesis
    using that chain_new_line [of ?B copy_cfg "[copy_coders]" fresh_chain K order now k] by (auto simp: is_backpressure_paused_def)
qed

definition busy_client :: Client where
  "busy_client = open_client\<lparr>conns := [(3, ext_new 11)],
     c_env := (c_env open_client)\<lparr>rd_answers := (\<lambda>_. [])(11 := [ReadData [72, 105]])\<rparr>\<rparr>"

definition busy_session :: Session where
  "busy_session = open_session\<lparr>targets := [(3, target_new 12 [])],
     env := (env open_session)\<lparr>rd_answers := (\<lambda>_. [])(12 := [ReadData [72, 105]])\<rparr>\<rparr>"

lemma busy_facts:
  "c_link 0 [] 5 busy_client" "s_link 0 [] 6 busy_session" "st busy_session = RUNNING" "c_st busy_client = CL_RUNNING"
  "c_data_connections busy_client = [dc_new\<lparr>dc_fd := 6\<rparr>]" "data_connections busy_session = [dc_new\<lparr>dc_fd := 4\<rparr>]"
  "tcp_fd busy_client = 6" "client_fd busy_session = 4"
proof -
  have room: "roomy 5 (osys (c_env busy_client))" "roomy 6 (osys (env busy_session))"
    using tunnel_room by (simp_all add: open_client_def open_session_def busy_client_def busy_session_def)
  have rest: "resting f [] (dc_new\<lparr>dc_fd := f\<rparr>)" for f by (simp add: resting_def at_end_def dc_new_def)
  show ends: "c_data_connections busy_client = [dc_new\<lparr>dc_fd := 6\<rparr>]" "data_connections busy_session = [dc_new\<lparr>dc_fd := 4\<rparr>]"
    "tcp_fd busy_client = 6" "client_fd busy_session = 4" "st busy_session = RUNNING" "c_st busy_client = CL_RUNNING"
    by (simp_all add: busy_client_def busy_session_def open_client_def tunnel_client_def client_new_def
        open_session_def tunnel_session_def session_new_def)
  have "c_control_seq busy_client = 0" "rd_answers (c_env busy_client) 6 = []" "control_seq busy_session = 0" "rd_answers (env busy_session) 4 = []"
    by (simp_all add: busy_client_def busy_session_def open_client_def tunnel_client_def client_new_def
        open_session_def tunnel_session_def session_new_def)
  then show "c_link 0 [] 5 busy_client" "s_link 0 [] 6 busy_session"
    using room rest ends by (simp_all add: c_link_def s_link_def)
qed

theorem data_reaches_target_witness:
  "\<exists>w v ch' c' sch' s'. chain_new copy_bases client_kapi (\<lambda>x. x) 0 copy_cfg (fresh_chain, busy_client) = Some w
    \<and> chain_new copy_bases session_kapi (\<lambda>x. x) 0 copy_cfg (fresh_chain, busy_session) = Some v
    \<and> carry_to_target copy_bases copy_bases tunnel_session_setup 1 1 0 3 11
        (ctl_new, Some (fst w), busy_client) (ctl_new, Some (fst v), busy_session)
      = Some ((ctl_new, Some ch', c'), (ctl_new, Some sch', s'))
    \<and> fd_stream 12 (osys (env s')) = fd_stream 12 (osys (env busy_session)) @ [72, 105]"
proof -
  obtain ch k where ch: "chain_new copy_bases client_kapi (\<lambda>x. x) 0 copy_cfg (fresh_chain, busy_client) = Some (ch, k)"
      "at_rest (copy_bases :: (module_ctx, Client) bases) [copy_coders] Map.empty ch" "\<not> is_backpressure_paused 0 ch"
    by (rule copy_chain_built)
  obtain sch l where sch: "chain_new copy_bases session_kapi (\<lambda>x. x) 0 copy_cfg (fresh_chain, busy_session) = Some (sch, l)"
      "at_rest (copy_bases :: (module_ctx, Session) bases) [copy_coders] Map.empty sch"
    by (rule copy_chain_built)
  have link: "c_link 0 [] (Suc 4) busy_client" "s_link 0 [] (Suc (Suc 4)) busy_session" using busy_facts(1,2) by simp_all
  have dc: "send_seq (dc_new\<lparr>dc_fd := 6\<rparr>) = 0" "unacked (dc_new\<lparr>dc_fd := 6\<rparr>) = []" "recv_seq (dc_new\<lparr>dc_fd := 4\<rparr>) = 0"
    by (simp_all add: dc_new_def)
  have rd: "rd_answers (c_env busy_client) 11 = ReadData [72, 105] # []" by (simp add: busy_client_def)
  have t: "map_of (targets busy_session) 3 = Some (target_new 12 [])" by (simp add: busy_session_def)
  have enc: "encode_line [copy_coders] (3 # [72, 105]) = Some [3, 72, 105]" "decode_line [copy_coders] [3, 72, 105] = Some (3 # [72, 105])"
    by (simp_all add: copy_coders_def)
  have len: "length (data_frame 0 [3, 72, 105]) \<le> MAX_PACKET_SIZE" by (simp add: data_frame_def write_varint.simps)
  have "\<exists>ch' c' sch' s' cdc' sdc'. carry_to_target copy_bases copy_bases tunnel_session_setup (length [copy_coders]) (length [copy_coders]) 0 3 11
        (ctl_new, Some ch, busy_client) (ctl_new, Some sch, busy_session)
      = Some ((ctl_new, Some ch', c'), (ctl_new, Some sch', s'))
    \<and> fd_stream (tgt_fd (target_new 12 [])) (osys (env s')) = fd_stream (tgt_fd (target_new 12 [])) (osys (env busy_session)) @ [72, 105]
    \<and> at_rest (copy_bases :: (module_ctx, Client) bases) [copy_coders] Map.empty ch'
    \<and> at_rest (copy_bases :: (module_ctx, Session) bases) [copy_coders] Map.empty sch' \<and> c_link 0 [] 4 c' \<and> s_link 0 [] 4 s'
    \<and> c_data_connections c' = [cdc'] \<and> send_seq cdc' = 0 + 1 \<and> unacked cdc' = []
    \<and> data_connections s' = [sdc'] \<and> recv_seq sdc' = 0 + 1"
    by (rule data_reaches_target [OF link busy_facts(3,5) dc(1,2) busy_facts(6) dc(3) ch(2,3) sch(2) rd _ _ enc(1) _ len enc(2) t])
      (simp_all add: busy_facts(8) target_new_def)
  then show ?thesis using ch(1) sch(1) by (force simp: target_new_def)
qed

end
