(* ===== verification/Tunnel_Back.thy ===== *)
theory Tunnel_Back
  imports Tunnel_Data
begin

unbundle bit_operations_syntax

text \<open>
  Data through a running tunnel in the other direction: from a target over both chains to the external connection of
  the client.
\<close>

section \<open>The session reads and sends\<close>

text \<open>The packet is put behind the place of the connection id, which is written afterwards.\<close>

lemma store_behind:
  assumes "store_buffer p 0 (x # d) c = Some c2"
  obtains c1 where "store_buffer p 1 d c = Some c1" "store_buffer p 0 [x] c1 = Some c2"
proof -
  obtain b where b: "cells c p = Some b" "length (x # d) \<le> length b" "c2 = c\<lparr>cells := (cells c)(p \<mapsto> patch 0 (x # d) b)\<rparr>"
    using assms by (auto simp: store_buffer_def split: option.splits if_splits)
  have "patch 0 [x] (patch 1 d b) = patch 0 (x # d) b" using b(2) by (cases b) (simp_all add: patch_def)
  then show thesis using b
    by (intro that [of "c\<lparr>cells := (cells c)(p \<mapsto> patch 1 d b)\<rparr>"]) (simp_all add: store_buffer_def)
qed

lemma session_reads_target:
  assumes "at_rest B fs h ch" and "\<not> is_backpressure_paused 0 ch" and "rd_answers (env s) f = ReadData d # as"
    and "d \<noteq> []" and "length d < MAX_PACKET_SIZE" and "encode_line fs (cid # d) = Some e" and "st s = RUNNING"
    and s': "s' = s\<lparr>env := (env s)\<lparr>rd_answers := (rd_answers (env s))(f := as)\<rparr>\<rparr>"
  obtains ch' where "on_target_in cid f EPOLLIN (Some ch, s) = Some (Some ch', s')" "under_way B fs h 0 e s' k' (length fs) (ch', s')"
proof -
  have le: "length (cid # d) \<le> MAX_PACKET_SIZE" using assms(5) by simp
  obtain c1 c3 where l: "alloc_buffer MAX_PACKET_SIZE ch = (Some (next_ptr ch), c1)" "store_buffer (next_ptr ch) 0 (cid # d) c1 = Some c3"
      "loaded B fs h (next_ptr ch) (cid # d) c3"
    by (rule load_buffer [OF assms(1) le])
  obtain c2 where c2: "store_buffer (next_ptr ch) 1 d c1 = Some c2" "store_buffer (next_ptr ch) 0 [cid] c2 = Some c3"
    by (rule store_behind [OF l(2)])
  obtain ch' where ch': "push_packet session_kapi (next_ptr ch) (length (cid # d)) 0 0 (c3, s') = Some (ch', s')"
      "under_way B fs h 0 e s' k' (length fs) (ch', s')"
    using push_loaded [OF l(3), of 0 0 e session_kapi s' k'] assms(6) by auto
  have rd: "sys_read f (MAX_PACKET_SIZE - 1) (env s) = (ReadData d, env s')"
    using assms(3-5) s' by (simp add: sys_read_def)
  have "on_target_in cid f EPOLLIN (Some ch, s) = Some (Some ch', s')"
    using assms(2,7) rd ch'(1) owner_alloc [OF l(1), of s] owner_store [OF c2(1), of s'] owner_store [OF c2(2), of s'] owner_push(2) [OF ch'(1)] s'
    by (simp add: on_target_in_def target_read_def bp_paused_def in_session_def)
  then show thesis using ch'(2) by (rule that)
qed

lemma session_sends_data:
  assumes "s_link q [] (Suc k) s" and "length (data_frame n e) < 2 ^ 33" and "data_connections s = [dc]" and "send_seq dc = n"
  obtains s' where "wire_write 1 e s = Some (0, s')" "s_link q [] k s'" "s_rest s' = s_rest s" "st s' = st s"
    "data_connections s' = [remember_frame n (data_frame n e) (clock (env s)) (dc\<lparr>send_seq := n + 1\<rparr>)]"
    "new_output (client_fd s) (osys (env s)) (osys (env s')) = data_frame n e"
proof -
  have r: "resting (client_fd s) [] dc" "0 \<le> client_fd s" "rd_answers (env s) (client_fd s) = []" "control_seq s = q" "roomy (Suc k) (osys (env s))"
    using assms(1,3) by (auto simp: s_link_def)
  then have dc: "dc_fd dc = client_fd s" "at_end dc" "dc_writer dc = wb_new" by (simp_all add: resting_def)
  obtain w where w: "wb_write (client_fd s) (data_frame n e) wb_new (osys (env s)) = Some (0, wb_new, w)" "roomy k w"
      "fd_stream (client_fd s) w = fd_stream (client_fd s) (osys (env s)) @ data_frame n e"
    by (rule write_through [OF r(5) data_frame_size(1) assms(2)])
  have same: "dc\<lparr>send_seq := x, dc_writer := wb_new\<rparr> = dc\<lparr>send_seq := x\<rparr>" for x using dc(3) by (cases dc) simp
  let ?dc = "remember_frame n (data_frame n e) (clock (env s)) (dc\<lparr>send_seq := n + 1\<rparr>)"
  have send: "dc_send e (clock (env s)) dc (osys (env s)) = Some (0, ?dc, w)"
    using dc w(1) assms(4) by (simp add: dc_send_def Let_def same)
  let ?s' = "s\<lparr>data_connections := [?dc], env := (env s)\<lparr>osys := w\<rparr>\<rparr>"
  have "wire_write 1 e s = Some (0, ?s')"
    using assms(3) r(2) dc(1) send by (simp add: wire_write_def wire_write_data_def set_os_def upd_dc_def upd_env_def)
  moreover have "resting (client_fd s) [] ?dc" using dc by (simp add: resting_def remember_frame_def at_end_def)
  ultimately show thesis using r w by (intro that [of ?s']) (simp_all add: s_link_def s_rest_def new_output_def)
qed

section \<open>The client takes data\<close>

lemma client_ack_queued:
  assumes "c_data_connections c = [dc]" and "dc_writer dc = wb_new"
  obtains K where "client_ensure_out 0 (c_upd_dc 0 (dc_send_ack n) c)
    = c\<lparr>c_data_connections := [dc\<lparr>dc_writer := queued [ack_frame n]\<rparr>], c_env := (c_env c)\<lparr>kern := K\<rparr>\<rparr>"
  by (rule that) (use assms ack_queued [of n] in
    \<open>simp add: client_ensure_out_def c_upd_dc_def dc_send_ack_def client_register_data_out_def c_kernel_def c_upd_env_def upd_kern_def Let_def\<close>)

lemma client_takes_data:
  assumes "c_link q [] k c" and "c_data_connections c = [dc]" and "recv_seq dc = n" and "c_st c = CL_RUNNING"
    and "at_rest B fs h ch" and "e \<noteq> []" and "length (data_frame n e) \<le> MAX_PACKET_SIZE" and "decode_line fs e = Some d"
  obtains ch' c' dc' where "client_data_in 0 EPOLLIN (r, Some ch, c_arrive (data_frame n e) c) = Some (r, Some ch', c')"
    "\<forall>k'. under_way B fs h 1 d c' k' (length fs) (ch', c')" "c_link q [ack_frame n] k c'" "c_rest c' = c_rest c" "c_st c' = CL_RUNNING"
    "osys (c_env c') = osys (c_env c)" "c_data_connections c' = [dc']" "recv_seq dc' = n + 1" "send_seq dc' = send_seq dc" "unacked dc' = unacked dc"
proof -
  let ?bs = "data_frame n e"
  have dc: "resting (tcp_fd c) [] dc" "rd_answers (c_env c) (tcp_fd c) = []" using assms(1,2) by (auto simp: c_link_def)
  then have off: "dc_read_offset dc = length (read_buf dc)" "dc_writer dc = wb_new" "dc_fd dc = tcp_fd c"
    by (simp_all add: resting_def at_end_def)
  have len: "length e < 2 ^ 31" using data_frame_size(2) [of e n] assms(7) by simp
  let ?dc1 = "dc\<lparr>read_buf := read_buf dc @ ?bs, recv_seq := n + 1\<rparr>"
  have rd: "client_reading ?bs (c_arrive ?bs c) = c\<lparr>c_last_activity := clock (c_env c), c_heartbeating := False,
      c_data_connections := [dc\<lparr>read_buf := read_buf dc @ ?bs\<rparr>]\<rparr>" (is "_ = ?c1")
    using client_reading_link [OF assms(1), of ?bs] assms(2) by auto
  let ?c2 = "?c1\<lparr>c_data_connections := [?dc1]\<rparr>"
  obtain a1 a2 where l: "alloc_buffer (1 + length e) ch = (Some (next_ptr ch), a1)" "store_buffer (next_ptr ch) 0 e a1 = Some a2"
      "loaded B fs h (next_ptr ch) e a2"
    by (rule load_buffer [OF assms(5), of e "1 + length e"]) simp_all
  obtain ch' where ch': "push_packet client_kapi (next_ptr ch) (length e) 1 1 (a2, ?c2) = Some (ch', ?c2)"
      "under_way B fs h 1 d ?c2 ?c2 (length fs) (ch', ?c2)"
    using push_loaded [OF l(3) assms(6), of 1 1 d client_kapi ?c2 ?c2] assms(8) by auto
  have fs: "length fs \<noteq> 0" using assms(5) by (simp add: at_rest_def lined_def)
  have disp: "client_dispatch e 1 (Some ch, ?c2) = Some (Some ch', ?c2)"
    using assms(4,6) owner_alloc [OF l(1), of ?c2] owner_store [OF l(2), of ?c2] owner_push(1) [OF ch'(1)]
    by (cases e) (simp_all add: client_dispatch_def)
  obtain K where ack: "client_ensure_out 0 (c_upd_dc 0 (dc_send_ack n) ?c2)
      = ?c2\<lparr>c_data_connections := [?dc1\<lparr>dc_writer := queued [ack_frame n]\<rparr>], c_env := (c_env ?c2)\<lparr>kern := K\<rparr>\<rparr>" (is "_ = ?c3")
    by (rule client_ack_queued [of ?c2 ?dc1 n]) (use off in simp_all)
  have recv: "client_recv_data 0 (data_body n e) (r, Some ch, ?c1) = Some (r, Some ch', ?c3)"
    unfolding ack [symmetric] using disp assms(3)
    by (simp add: client_recv_data_def data_body_def dc_accept_def c_conn_at_def c_upd_conn_def in_client_def c_upd_dc_def)
  have ev: "client_data_in 0 EPOLLIN (r, Some ch, c_arrive ?bs c)
      = map_option (c_upd_conn 0 trim_buffer) (client_data_loop 0 (r, Some ch, ?c1))"
    unfolding rd [symmetric]
    by (rule client_event_read [where dc = dc])
      (use assms(2,7) dc off data_frame_size in \<open>simp_all add: c_arrive_def arrive_def\<close>)
  let ?dc3 = "?dc1\<lparr>dc_writer := queued [ack_frame n]\<rparr>"
  have "client_data_loop 0 (r, Some ch, ?c1) = client_data_loop 0 (c_upd_conn 0 (skip_bytes (length ?bs)) (r, Some ch', ?c3))"
    using client_data_step_data [OF _ len recv] off(1) by (subst client_data_loop.simps) (simp add: c_conn_at_def)
  also have "\<dots> = Some (c_upd_conn 0 (skip_bytes (length ?bs)) (r, Some ch', ?c3))"
    by (rule client_loop_end) (simp add: c_conn_at_def c_upd_conn_def in_client_def c_upd_dc_def skip_bytes_def off(1))
  finally have run: "client_data_in 0 EPOLLIN (r, Some ch, c_arrive ?bs c)
      = Some (r, Some ch', ?c3\<lparr>c_data_connections := [trim_buffer (skip_bytes (length ?bs) ?dc3)]\<rparr>)"
    unfolding ev by (simp add: c_upd_conn_def in_client_def c_upd_dc_def)
  have "resting (tcp_fd c) [ack_frame n] (trim_buffer (skip_bytes (length ?bs)
      ((dc\<lparr>recv_seq := n + 1\<rparr>)\<lparr>read_buf := read_buf dc @ ?bs, dc_writer := queued [ack_frame n]\<rparr>)))"
    using resting_trim [of "tcp_fd c" "dc\<lparr>recv_seq := n + 1\<rparr>" "[ack_frame n]" ?bs] dc(1) by (simp add: resting_def at_end_def)
  moreover have "(dc\<lparr>recv_seq := n + 1\<rparr>)\<lparr>read_buf := read_buf dc @ ?bs, dc_writer := queued [ack_frame n]\<rparr> = ?dc3" by (cases dc) simp
  ultimately have "c_link q [ack_frame n] k (?c3\<lparr>c_data_connections := [trim_buffer (skip_bytes (length ?bs) ?dc3)]\<rparr>)"
    using assms(1) by (simp add: c_link_def)
  then show thesis
    by (intro that [OF run, of "trim_buffer (skip_bytes (length ?bs) ?dc3)"])
      (use assms(4) under_way_owner [OF ch'(2) fs] in \<open>simp_all add: c_rest_def read_done_frame\<close>)
qed

text \<open>What leaves the client's chain for a connection is written to the external socket.\<close>

lemma client_writes_external:
  assumes "map_of (conns c) cid = Some x" and "x_writer x = wb_new" and "cid \<noteq> 255" and "d \<noteq> []" and "length d < 2 ^ 33"
    and "c_link q ms (Suc k) c" and "\<not> x_disconnecting x" and "0 \<le> x_fd x"
  obtains c' where "client_wire_write 0 (cid # d) c = Some (0, c')" "c_link q ms k c'" "c_st c' = c_st c" "tcp_fd c' = tcp_fd c"
    "fd_stream (x_fd x) (osys (c_env c')) = fd_stream (x_fd x) (osys (c_env c)) @ d"
    "c_data_connections c' = c_data_connections c"
proof -
  have room: "roomy (Suc k) (osys (c_env c))" using assms(6) by (simp add: c_link_def)
  obtain w where w: "wb_write (x_fd x) d wb_new (osys (c_env c)) = Some (0, wb_new, w)" "roomy k w"
      "fd_stream (x_fd x) w = fd_stream (x_fd x) (osys (c_env c)) @ d"
    by (rule write_through [OF room assms(4,5)])
  show thesis
    by (rule that [of "c_kernel wakeup (c_push_io [CioResumeCheck cid] (c_set_os w (upd_ext cid (\<lambda>x. x\<lparr>x_writer := wb_new\<rparr>) c)))"])
      (use assms w in \<open>simp_all add: client_wire_write_def client_wire_ext_def Let_def c_set_os_def c_upd_env_def upd_ext_def c_link_def
        c_push_io_def c_kernel_def upd_kern_def\<close>)
qed

lemma client_sends_ack:
  assumes "c_link q [ack_frame n] (Suc k) c" and "c_data_connections c = [dc]"
  obtains c' where "client_data_out 0 EPOLLOUT c = Some c'" "c_link q [] k c'" "c_rest c' = c_rest c" "c_st c' = c_st c"
    "new_output (tcp_fd c) (osys (c_env c)) (osys (c_env c')) = ack_frame n" "c_data_connections c' = [dc\<lparr>dc_writer := wb_new\<rparr>]"
    "\<And>g. g \<noteq> tcp_fd c \<Longrightarrow> fd_stream g (osys (c_env c')) = fd_stream g (osys (c_env c))"
proof -
  have dc: "dc_writer dc = queued [ack_frame n]" "dc_fd dc = tcp_fd c" "at_end dc" "roomy (Suc k) (osys (c_env c))"
    using assms by (auto simp: c_link_def resting_def)
  obtain w where w: "wb_flush (tcp_fd c) (queued [ack_frame n]) (osys (c_env c)) = Some (True, queued [], w)" "roomy k w"
      "fd_stream (tcp_fd c) w = fd_stream (tcp_fd c) (osys (c_env c)) @ ack_frame n"
      "\<forall>g. g \<noteq> tcp_fd c \<longrightarrow> fd_stream g w = fd_stream g (osys (c_env c))"
    by (rule flush_ack [OF dc(4), of "tcp_fd c" n])
  let ?c' = "c\<lparr>c_data_connections := [dc\<lparr>dc_writer := wb_new\<rparr>],
     c_env := (c_env c)\<lparr>kern := mod_fd_events (tcp_fd c) 0 EPOLLOUT (kern (c_env c)), osys := w\<rparr>\<rparr>"
  have "client_data_out 0 EPOLLOUT c = Some ?c'"
    using assms(2) dc w(1) by (simp add: client_data_out_def client_flush_round_def client_dc_flush_def c_set_os_def c_upd_env_def c_upd_dc_def
        c_kernel_def upd_kern_def queued_Nil Let_def)
  then show thesis
    by (rule that) (use assms dc w in \<open>simp_all add: c_link_def c_rest_def resting_def at_end_def new_output_def\<close>)
qed

section \<open>The session takes the acknowledgement\<close>

lemma session_data_step_ack:
  assumes "drop (dc_read_offset (conn_at i d)) (read_buf (conn_at i d)) = ack_frame n"
  shows "data_step Q i d = Some (True, upd_conn i (skip_bytes (length (ack_frame n))) (upd_conn i (dc_ack n) d))"
proof -
  have a: "ack_frame n = [3, WIRE_DATA_ACK, ucast (n AND 0xFF), ucast (drop_bit 8 n AND 0xFF)]"
    by (simp add: ack_frame_def write_varint.simps)
  show ?thesis unfolding data_step_def Let_def assms scan_ack(1) unfolding a by simp (simp add: numeral_eq_Suc)
qed

lemma session_takes_ack:
  assumes "s_link q [] k s" and "data_connections s = [dc]"
  obtains s' dc' where "on_data_in Q 0 EPOLLIN (r, ch, s_arrive (ack_frame n) s) = Some (r, ch, s')"
    "s_link q [] k s'" "s_rest s' = s_rest s" "st s' = st s" "data_connections s' = [dc']"
    "unacked dc' = dropWhile (\<lambda>u. pf_seq u \<le> n) (unacked dc)" "send_seq dc' = send_seq dc" "recv_seq dc' = recv_seq dc"
proof -
  let ?bs = "ack_frame n"
  have dc: "resting (client_fd s) [] dc" "rd_answers (env s) (client_fd s) = []" using assms by (auto simp: s_link_def)
  then have off: "dc_read_offset dc = length (read_buf dc)" "dc_writer dc = wb_new" "dc_fd dc = client_fd s"
    by (simp_all add: resting_def at_end_def)
  have rd: "session_reading ?bs (s_arrive ?bs s) = s\<lparr>last_wire_activity := clock (env s), heartbeating := False,
      data_connections := [dc\<lparr>read_buf := read_buf dc @ ?bs\<rparr>]\<rparr>" (is "_ = ?s1")
    using session_reading_link [OF assms(1), of ?bs] assms(2) by auto
  have "?bs \<noteq> []" "length ?bs \<le> MAX_PACKET_SIZE" using ack_frame_length [of n] by auto
  then have ev: "on_data_in Q 0 EPOLLIN (r, ch, s_arrive ?bs s)
      = map_option (upd_conn 0 trim_buffer) (data_loop Q 0 (r, ch, ?s1))"
    unfolding rd [symmetric]
    by (intro session_event_read [where dc = dc]) (use assms(2) dc off in \<open>simp_all add: s_arrive_def arrive_def\<close>)
  let ?dc2 = "dc_ack n (dc\<lparr>read_buf := read_buf dc @ ?bs\<rparr>)"
  let ?s2 = "?s1\<lparr>data_connections := [?dc2]\<rparr>"
  have "data_loop Q 0 (r, ch, ?s1) = data_loop Q 0 (upd_conn 0 (skip_bytes (length ?bs)) (r, ch, ?s2))"
    using session_data_step_ack [of 0 "(r, ch, ?s1)" n] off(1)
    by (subst data_loop.simps) (simp add: conn_at_def upd_conn_def in_session_def upd_dc_def)
  also have "\<dots> = Some (upd_conn 0 (skip_bytes (length ?bs)) (r, ch, ?s2))"
    by (rule session_loop_end) (simp add: conn_at_def upd_conn_def in_session_def upd_dc_def skip_bytes_def dc_ack_def off(1))
  finally have run: "on_data_in Q 0 EPOLLIN (r, ch, s_arrive ?bs s)
      = Some (r, ch, ?s2\<lparr>data_connections := [trim_buffer (skip_bytes (length ?bs) ?dc2)]\<rparr>)"
    unfolding ev by (simp add: upd_conn_def in_session_def upd_dc_def)
  have "resting (client_fd s) [] (trim_buffer (skip_bytes (length ?bs) ((dc_ack n dc)\<lparr>read_buf := read_buf dc @ ?bs, dc_writer := wb_new\<rparr>)))"
    using resting_trim [of "client_fd s" "dc_ack n dc" "[]" ?bs] dc(1) by (simp add: resting_def at_end_def dc_ack_def)
  moreover have "(dc_ack n dc)\<lparr>read_buf := read_buf dc @ ?bs, dc_writer := wb_new\<rparr> = ?dc2"
    using off(2) by (cases dc) (simp add: dc_ack_def)
  ultimately have "s_link q [] k (?s2\<lparr>data_connections := [trim_buffer (skip_bytes (length ?bs) ?dc2)]\<rparr>)"
    using assms(1) by (simp add: s_link_def)
  then show thesis
    by (intro that [OF run, of "trim_buffer (skip_bytes (length ?bs) ?dc2)"]) (simp_all add: s_rest_def read_done_frame dc_ack_def)
qed

section \<open>From a target to its external connection\<close>

definition carry_to_external ::
  "('c, Client) bases \<Rightarrow> ('d, Session) bases \<Rightarrow> 'd Setup \<Rightarrow> nat \<Rightarrow> nat \<Rightarrow> millis \<Rightarrow> byte \<Rightarrow> fd \<Rightarrow> 'c kworld \<Rightarrow> 'd dworld
   \<Rightarrow> ('c kworld \<times> 'd dworld) option" where
  "carry_to_external BC BS Q n m now cid f d e = do {
     (sch, s) \<leftarrow> on_target_in cid f EPOLLIN (snd e);
     sch \<leftarrow> sch;
     (sch, s') \<leftarrow> worker_steps m BS session_kapi now (sch, s);
     let down = new_output (client_fd s) (osys (env s)) (osys (env s'));
     (r, ch, c) \<leftarrow> client_data_in 0 EPOLLIN (fst d, in_client (c_arrive down) (snd d));
     ch \<leftarrow> ch;
     (ch, c) \<leftarrow> worker_steps n BC client_kapi now (ch, c);
     c' \<leftarrow> client_data_out 0 EPOLLOUT c;
     let up = new_output (tcp_fd c) (osys (c_env c)) (osys (c_env c'));
     e \<leftarrow> on_data_in Q 0 EPOLLIN (fst e, Some sch, s_arrive up s');
     Some ((r, Some ch, c'), e)
   }"

text \<open>
  C8: what a target sends arrives at the external connection, under the same conditions: the bytes the session reads from the
  target are exactly what the client writes to the external connection of the same id, both chains end up as they were, and
  after the acknowledgement the session keeps no copy of the frame.
\<close>

theorem data_reaches_external:
  assumes "s_link q' [] (Suc k) s" and "c_link q [] (Suc (Suc l)) c" and "c_st c = CL_RUNNING" and "st s = RUNNING"
    and "data_connections s = [sdc]" and "send_seq sdc = n" and "unacked sdc = []"
    and "c_data_connections c = [cdc]" and "recv_seq cdc = n"
    and "at_rest BS fs' h' sch" and "\<not> is_backpressure_paused 0 sch" and "at_rest BC fs h ch"
    and "rd_answers (env s) f = ReadData d # as" and "d \<noteq> []" and "length d < MAX_PACKET_SIZE"
    and "encode_line fs' (cid # d) = Some e" and "e \<noteq> []" and "length (data_frame n e) \<le> MAX_PACKET_SIZE" and "decode_line fs e = Some (cid # d)"
    and "map_of (conns c) cid = Some x" and "x_writer x = wb_new" and "cid \<noteq> 255" and "\<not> x_disconnecting x" and "0 \<le> x_fd x"
    and "x_fd x \<noteq> tcp_fd c"
  shows "\<exists>ch' c' sch' s' cdc' sdc'. carry_to_external BC BS Q (length fs) (length fs') now cid f (r, Some ch, c) (r', Some sch, s)
      = Some ((r, Some ch', c'), (r', Some sch', s'))
    \<and> fd_stream (x_fd x) (osys (c_env c')) = fd_stream (x_fd x) (osys (c_env c)) @ d
    \<and> at_rest BC fs h ch' \<and> at_rest BS fs' h' sch' \<and> c_link q [] l c' \<and> s_link q' [] k s'
    \<and> data_connections s' = [sdc'] \<and> send_seq sdc' = n + 1 \<and> unacked sdc' = []
    \<and> c_data_connections c' = [cdc'] \<and> recv_seq cdc' = n + 1"
proof -
  let ?s1 = "s\<lparr>env := (env s)\<lparr>rd_answers := (rd_answers (env s))(f := as)\<rparr>\<rparr>"
  have f: "f \<noteq> client_fd s" using assms(1,13) by (auto simp: s_link_def)
  then have l1: "s_link q' [] (Suc k) ?s1" using assms(1) by (simp add: s_link_def)
  have len: "length (data_frame n e) < 2 ^ 33" "length d < 2 ^ 33" using assms(15,18) by simp_all
  obtain s2 where s2: "wire_write 1 e ?s1 = Some (0, s2)" "s_link q' [] k s2"
      "data_connections s2 = [remember_frame n (data_frame n e) (clock (env ?s1)) (sdc\<lparr>send_seq := n + 1\<rparr>)]"
      "new_output (client_fd ?s1) (osys (env ?s1)) (osys (env s2)) = data_frame n e"
    by (rule session_sends_data [OF l1 len(1), of sdc]) (use assms(5,6) in simp_all)
  obtain sch1 where sch1: "on_target_in cid f EPOLLIN (Some sch, s) = Some (Some sch1, ?s1)" "under_way BS fs' h' 0 e ?s1 s2 (length fs') (sch1, ?s1)"
    by (rule session_reads_target [OF assms(10,11,13-16,4) refl])
  obtain sch2 where sch2: "worker_steps (length fs') BS session_kapi now (sch1, ?s1) = Some (sch2, s2)" "at_rest BS fs' h' sch2"
    using under_way_steps [OF sch1(2), of session_kapi 0 "length fs'" now] s2(1) by (auto simp: session_kapi_def under_way_def)
  obtain ch1 c1 cdc1 where c1: "client_data_in 0 EPOLLIN (r, Some ch, c_arrive (data_frame n e) c) = Some (r, Some ch1, c1)"
      "\<forall>k'. under_way BC fs h 1 (cid # d) c1 k' (length fs) (ch1, c1)" "c_link q [ack_frame n] (Suc (Suc l)) c1" "c_rest c1 = c_rest c"
      "c_st c1 = CL_RUNNING" "osys (c_env c1) = osys (c_env c)" "c_data_connections c1 = [cdc1]" "recv_seq cdc1 = n + 1"
      "send_seq cdc1 = send_seq cdc" "unacked cdc1 = unacked cdc"
    by (rule client_takes_data [OF assms(2,8,9,3,12,17,18,19), of r])
  have t: "map_of (conns c1) cid = Some x" "tcp_fd c1 = tcp_fd c" using c1(4) assms(20) by (simp_all add: c_rest_def)
  obtain c2 where c2: "client_wire_write 0 (cid # d) c1 = Some (0, c2)" "c_link q [ack_frame n] (Suc l) c2" "tcp_fd c2 = tcp_fd c1"
      "fd_stream (x_fd x) (osys (c_env c2)) = fd_stream (x_fd x) (osys (c_env c1)) @ d" "c_data_connections c2 = c_data_connections c1"
    by (rule client_writes_external [OF t(1) assms(21,22,14) len(2) c1(3) assms(23,24)])
  obtain ch2 where ch2: "worker_steps (length fs) BC client_kapi now (ch1, c1) = Some (ch2, c2)" "at_rest BC fs h ch2"
    using under_way_steps [OF c1(2) [rule_format, of c2], of client_kapi 0 "length fs" now] c2(1) by (auto simp: client_kapi_def under_way_def)
  obtain c3 where c3: "client_data_out 0 EPOLLOUT c2 = Some c3" "c_link q [] l c3"
      "new_output (tcp_fd c2) (osys (c_env c2)) (osys (c_env c3)) = ack_frame n" "c_data_connections c3 = [cdc1\<lparr>dc_writer := wb_new\<rparr>]"
      "\<And>g. g \<noteq> tcp_fd c2 \<Longrightarrow> fd_stream g (osys (c_env c3)) = fd_stream g (osys (c_env c2))"
    by (rule client_sends_ack [OF c2(2), of cdc1]) (use c2(5) c1(7) in simp_all)
  obtain s3 sdc3 where s3: "on_data_in Q 0 EPOLLIN (r', Some sch2, s_arrive (ack_frame n) s2) = Some (r', Some sch2, s3)"
      "s_link q' [] k s3" "data_connections s3 = [sdc3]" "send_seq sdc3 = n + 1" "unacked sdc3 = []"
    by (rule session_takes_ack [OF s2(2,3), of Q r' "Some sch2" n]) (use assms(7) in \<open>simp_all add: remember_frame_def\<close>)
  have "carry_to_external BC BS Q (length fs) (length fs') now cid f (r, Some ch, c) (r', Some sch, s)
      = Some ((r, Some ch2, c3), (r', Some sch2, s3))"
    by (simp add: carry_to_external_def sch1(1) sch2(1) s2(4) [simplified] in_client_def c1(1) ch2(1) c3(1,3) s3(1) Let_def)
  then show ?thesis using c3(2,4) c3(5) [of "x_fd x"] c2(3,4) t(2) c1(6,8) assms(25) ch2(2) sch2(2) s3(2-5) by auto
qed

theorem data_reaches_external_witness:
  "\<exists>w v ch' c' sch' s'. chain_new copy_bases client_kapi (\<lambda>x. x) 0 copy_cfg (fresh_chain, busy_client) = Some w
    \<and> chain_new copy_bases session_kapi (\<lambda>x. x) 0 copy_cfg (fresh_chain, busy_session) = Some v
    \<and> carry_to_external copy_bases copy_bases tunnel_session_setup 1 1 0 3 12
        (ctl_new, Some (fst w), busy_client) (ctl_new, Some (fst v), busy_session)
      = Some ((ctl_new, Some ch', c'), (ctl_new, Some sch', s'))
    \<and> fd_stream 11 (osys (c_env c')) = fd_stream 11 (osys (c_env busy_client)) @ [72, 105]"
proof -
  obtain ch k where ch: "chain_new copy_bases client_kapi (\<lambda>x. x) 0 copy_cfg (fresh_chain, busy_client) = Some (ch, k)"
      "at_rest (copy_bases :: (module_ctx, Client) bases) [copy_coders] Map.empty ch"
    by (rule copy_chain_built)
  obtain sch l where sch: "chain_new copy_bases session_kapi (\<lambda>x. x) 0 copy_cfg (fresh_chain, busy_session) = Some (sch, l)"
      "at_rest (copy_bases :: (module_ctx, Session) bases) [copy_coders] Map.empty sch" "\<not> is_backpressure_paused 0 sch"
    by (rule copy_chain_built)
  have link: "s_link 0 [] (Suc 5) busy_session" "c_link 0 [] (Suc (Suc 3)) busy_client" using busy_facts(1,2) by simp_all
  have dc: "send_seq (dc_new\<lparr>dc_fd := 4\<rparr>) = 0" "unacked (dc_new\<lparr>dc_fd := 4\<rparr>) = []" "recv_seq (dc_new\<lparr>dc_fd := 6\<rparr>) = 0"
    by (simp_all add: dc_new_def)
  have rd: "rd_answers (env busy_session) 12 = ReadData [72, 105] # []" by (simp add: busy_session_def)
  have x: "map_of (conns busy_client) 3 = Some (ext_new 11)" by (simp add: busy_client_def)
  have enc: "encode_line [copy_coders] (3 # [72, 105]) = Some [3, 72, 105]" "decode_line [copy_coders] [3, 72, 105] = Some (3 # [72, 105])"
    by (simp_all add: copy_coders_def)
  have len: "length (data_frame 0 [3, 72, 105]) \<le> MAX_PACKET_SIZE" by (simp add: data_frame_def write_varint.simps)
  have "\<exists>ch' c' sch' s' cdc' sdc'. carry_to_external copy_bases copy_bases tunnel_session_setup (length [copy_coders]) (length [copy_coders]) 0 3 12
        (ctl_new, Some ch, busy_client) (ctl_new, Some sch, busy_session)
      = Some ((ctl_new, Some ch', c'), (ctl_new, Some sch', s'))
    \<and> fd_stream (x_fd (ext_new 11)) (osys (c_env c')) = fd_stream (x_fd (ext_new 11)) (osys (c_env busy_client)) @ [72, 105]
    \<and> at_rest (copy_bases :: (module_ctx, Client) bases) [copy_coders] Map.empty ch'
    \<and> at_rest (copy_bases :: (module_ctx, Session) bases) [copy_coders] Map.empty sch' \<and> c_link 0 [] 3 c' \<and> s_link 0 [] 5 s'
    \<and> data_connections s' = [sdc'] \<and> send_seq sdc' = 0 + 1 \<and> unacked sdc' = []
    \<and> c_data_connections c' = [cdc'] \<and> recv_seq cdc' = 0 + 1"
    by (rule data_reaches_external [OF link busy_facts(4,3,6) dc(1,2) busy_facts(5) dc(3) sch(2,3) ch(2) rd _ _ enc(1) _ len enc(2) x])
      (simp_all add: busy_facts(7) ext_new_def)
  then show ?thesis using ch(1) sch(1) by (force simp: ext_new_def)
qed

end
