(* ===== verification/Command_Line.thy ===== *)
theory Command_Line
  imports Config
begin

text \<open>
  The command lines of \<open>src/client/main.cpp\<close>, \<open>src/server/main.cpp\<close> and \<open>src/module_tester/main.cpp\<close>: what \<open>main\<close>
  makes of \<open>argv\<close> and what it does then.

  An argument list is \<open>argv[1]\<close>, \<open>argv[2]\<close>, ...; an argument is a C string, so it has no zero character and
  reading one character behind its end gives zero.  \<open>hw\<close> stands for the answer of
  \<open>std::thread::hardware_concurrency()\<close>.  What is printed, the log level and the signal disposition are left out.
\<close>

section \<open>Arguments\<close>

text \<open>\<open>argv[i][n]\<close>\<close>

definition char_at :: "string \<Rightarrow> nat \<Rightarrow> char" where
  "char_at a n = (if n < length a then a ! n else CHR 0x00)"

text \<open>The value behind a two-character option, or the next argument.\<close>

definition opt_value :: "string \<Rightarrow> string list \<Rightarrow> string \<times> string list" where
  "opt_value a rest =
     (case (drop 2 a, rest) of
        ([], v # rest) \<Rightarrow> (v, rest)
      | (v, rest) \<Rightarrow> (v, rest))"

definition at_least_one :: "int \<Rightarrow> int" where
  "at_least_one n = (if n < 1 then 1 else n)"

text \<open>\<open>-t\<close>: a number directly behind it, or the next argument if it starts with a digit, or the number of cores.\<close>

definition thread_option :: "nat \<Rightarrow> string \<Rightarrow> string list \<Rightarrow> int \<times> string list" where
  "thread_option hw a rest =
     (if drop 2 a \<noteq> [] then (at_least_one (atoi (drop 2 a)), rest)
      else case rest of
             (v # rest') \<Rightarrow>
               if is_digit (char_at v 0) then (at_least_one (atoi v), rest')
               else (at_least_one (int32 (int hw)), rest)
           | [] \<Rightarrow> (at_least_one (int32 (int hw)), rest))"

text \<open>\<open>-H\<close>: the value when it is not empty, else what was set before.\<close>

definition heartbeat_option :: "int \<Rightarrow> string \<Rightarrow> string list \<Rightarrow> int \<times> string list" where
  "heartbeat_option old a rest =
     (let (v, rest) = opt_value a rest in (at_least_one (if v \<noteq> [] then atoi v else old), rest))"

section \<open>The client\<close>

record client_options =
  co_listen_addr :: string
  co_listen_port :: u16
  co_target_addr :: string
  co_verbosity :: nat
  co_thread_count :: int
  co_show_help :: bool
  co_show_module_list :: bool
  co_module_help_name :: string
  co_mod_dir :: string
  co_chain_str :: string
  co_heartbeat_sec :: int

definition client_defaults :: client_options where
  "client_defaults = \<lparr>co_listen_addr = ''0.0.0.0'', co_listen_port = 0, co_target_addr = [], co_verbosity = 0,
     co_thread_count = 1, co_show_help = False, co_show_module_list = False, co_module_help_name = [],
     co_mod_dir = [], co_chain_str = [], co_heartbeat_sec = 30\<rparr>"

definition find_from :: "char \<Rightarrow> nat \<Rightarrow> string \<Rightarrow> nat option" where
  "find_from c k s = map_option (\<lambda>i. k + i) (str_find c (drop k s))"

text \<open>\<open>-L [bind_addr:]port:target_host:target_port\<close>; \<open>Inl\<close> is the exit code.\<close>

definition parse_listen :: "string \<Rightarrow> client_options \<Rightarrow> int + client_options" where
  "parse_listen s opt =
     (case (str_find CHR '':'' s, str_rfind CHR '':'' s) of
        (Some first, Some final) \<Rightarrow>
          (if first = final then Inl 1
           else case find_from CHR '':'' (first + 1) s of
                  None \<Rightarrow> Inl 1
                | Some second \<Rightarrow>
                    (case find_from CHR '':'' (second + 1) s of
                       None \<Rightarrow> Inr (opt\<lparr>co_listen_port := word_of_int (atoi (take first s)),
                                       co_target_addr := drop (first + 1) s\<rparr>)
                     | Some third \<Rightarrow>
                         Inr (opt\<lparr>co_listen_addr := take first s,
                           co_listen_port := word_of_int (atoi (take (second - first - 1) (drop (first + 1) s))),
                           co_target_addr := take (third - second - 1) (drop (second + 1) s) @ '':'' @ drop (third + 1) s\<rparr>)))
      | _ \<Rightarrow> Inl 1)"

text \<open>One round of the loop over the arguments; the branch for \<open>--heartbeat\<close> stands where the source has it.\<close>

definition client_arg :: "nat \<Rightarrow> string \<Rightarrow> string list \<Rightarrow> client_options \<Rightarrow> int + (string list \<times> client_options)" where
  "client_arg hw a rest opt =
     (if a = ''--module-help'' then
        (case rest of
           v # rest \<Rightarrow> Inr (rest, opt\<lparr>co_module_help_name := v\<rparr>)
         | [] \<Rightarrow> Inr (rest, opt))
      else if a = ''--module-list'' then Inr (rest, opt\<lparr>co_show_module_list := True\<rparr>)
      else if char_at a 0 = CHR ''-'' then
        (let c = char_at a 1
         in if c = CHR ''L'' then
              (let (v, rest) = opt_value a rest
               in case parse_listen v opt of Inl e \<Rightarrow> Inl e | Inr opt \<Rightarrow> Inr (rest, opt))
            else if c = CHR ''v'' then Inr (rest, opt\<lparr>co_verbosity := length a - 1\<rparr>)
            else if c = CHR ''M'' then
              (let (v, rest) = opt_value a rest in Inr (rest, opt\<lparr>co_mod_dir := v\<rparr>))
            else if c = CHR ''t'' then
              (let (n, rest) = thread_option hw a rest in Inr (rest, opt\<lparr>co_thread_count := n\<rparr>))
            else if c = CHR ''H'' then
              (let (n, rest) = heartbeat_option (co_heartbeat_sec opt) a rest
               in Inr (rest, opt\<lparr>co_heartbeat_sec := n\<rparr>))
            else if c = CHR ''h'' then Inr (rest, opt\<lparr>co_show_help := True\<rparr>)
            else Inr (rest, opt))
      else if char_at a 0 = CHR ''-'' \<and> char_at a 1 = CHR ''-'' \<and> take 9 (drop 2 a) = ''heartbeat'' then
        (let (v, rest) = (case (drop 11 a, rest) of ([], v # rest) \<Rightarrow> (v, rest) | (v, rest) \<Rightarrow> (v, rest))
         in Inr (rest, opt\<lparr>co_heartbeat_sec := at_least_one (if v \<noteq> [] then atoi v else co_heartbeat_sec opt)\<rparr>))
      else Inr (rest, opt\<lparr>co_chain_str := a\<rparr>))"

lemma opt_value_shorter: "opt_value a rest = (v, rest') \<Longrightarrow> length rest' \<le> length rest"
  by (auto simp: opt_value_def split: list.splits)

lemma thread_option_shorter: "thread_option hw a rest = (n, rest') \<Longrightarrow> length rest' \<le> length rest"
  by (auto simp: thread_option_def split: list.splits if_splits)

lemma heartbeat_option_shorter: "heartbeat_option old a rest = (n, rest') \<Longrightarrow> length rest' \<le> length rest"
  by (auto simp: heartbeat_option_def dest: opt_value_shorter split: prod.splits)

lemmas option_shorter = opt_value_shorter thread_option_shorter heartbeat_option_shorter

lemma client_arg_shorter: "client_arg hw a rest opt = Inr (rest', opt') \<Longrightarrow> length rest' \<le> length rest"
  unfolding client_arg_def
  by (auto simp: Let_def dest: option_shorter split: if_splits list.splits prod.splits sum.splits)

function client_args :: "nat \<Rightarrow> string list \<Rightarrow> client_options \<Rightarrow> int + client_options" where
  "client_args hw [] opt = Inr opt"
| "client_args hw (a # rest) opt =
     (case client_arg hw a rest opt of
        Inl e \<Rightarrow> Inl e
      | Inr (rest, opt) \<Rightarrow> client_args hw rest opt)"
  by pat_completeness auto
termination
  by (relation "measure (\<lambda>(hw, args, opt). length args)") (auto dest: client_arg_shorter)

text \<open>
  What \<open>main\<close> does then.  The interval is passed on in milliseconds; the product of two \<open>int\<close>s that leaves
  the range is undefined.
\<close>

datatype main_action =
    MainExit int                                  \<comment> \<open>\<open>return\<close> after a message\<close>
  | MainModuleHelp string string                  \<comment> \<open>directory and module\<close>
  | MainModuleList string
  | MainStart                                     \<comment> \<open>construct and start the client or the server\<close>
  | MainUndefined

definition millis_of_sec :: "int \<Rightarrow> int option" where
  "millis_of_sec n = (if n * 1000 < 2 ^ 31 then Some (n * 1000) else None)"

definition client_main :: "nat \<Rightarrow> string list \<Rightarrow> main_action" where
  "client_main hw args =
     (case client_args hw args client_defaults of
        Inl e \<Rightarrow> MainExit e
      | Inr opt \<Rightarrow>
          if co_show_help opt then MainExit 0
          else if co_module_help_name opt \<noteq> [] then MainModuleHelp (co_mod_dir opt) (co_module_help_name opt)
          else if co_show_module_list opt then MainModuleList (co_mod_dir opt)
          else if co_chain_str opt = [] then MainExit 1
          else if \<not> cc_valid (parse_chain (co_chain_str opt)) then MainExit 1
          else if millis_of_sec (co_heartbeat_sec opt) = None then MainUndefined
          else MainStart)"

section \<open>The server\<close>

record server_options =
  so_listen_addr :: string
  so_listen_port :: u16
  so_password :: string
  so_mod_dir :: string
  so_show_help :: bool
  so_show_module_list :: bool
  so_module_help_name :: string
  so_thread_count :: int
  so_verbosity :: nat
  so_heartbeat_sec :: int

definition server_defaults :: server_options where
  "server_defaults = \<lparr>so_listen_addr = ''0.0.0.0'', so_listen_port = 0, so_password = [], so_mod_dir = [],
     so_show_help = False, so_show_module_list = False, so_module_help_name = [], so_thread_count = 1,
     so_verbosity = 0, so_heartbeat_sec = 30\<rparr>"

definition parse_bind :: "string \<Rightarrow> server_options \<Rightarrow> server_options" where
  "parse_bind v opt =
     (case strchr v CHR '':'' of
        None \<Rightarrow> opt
      | Some colon \<Rightarrow> opt\<lparr>so_listen_addr := take (length v - length colon) v,
                        so_listen_port := word_of_int (atoi (drop 1 colon))\<rparr>)"

definition server_arg :: "nat \<Rightarrow> string \<Rightarrow> string list \<Rightarrow> server_options \<Rightarrow> string list \<times> server_options" where
  "server_arg hw a rest opt =
     (if a = ''--module-help'' then
        (case rest of
           v # rest \<Rightarrow> (rest, opt\<lparr>so_module_help_name := v\<rparr>)
         | [] \<Rightarrow> (rest, opt))
      else if a = ''--module-list'' then (rest, opt\<lparr>so_show_module_list := True\<rparr>)
      else if a = ''--heartbeat'' then
        (let (v, rest) = (case (drop 11 a, rest) of ([], v # rest) \<Rightarrow> (v, rest) | (v, rest) \<Rightarrow> (v, rest))
         in (rest, opt\<lparr>so_heartbeat_sec := at_least_one (if v \<noteq> [] then atoi v else so_heartbeat_sec opt)\<rparr>))
      else if char_at a 0 = CHR ''-'' then
        (let c = char_at a 1
         in if c = CHR ''l'' then (let (v, rest) = opt_value a rest in (rest, parse_bind v opt))
            else if c = CHR ''A'' then (let (v, rest) = opt_value a rest in (rest, opt\<lparr>so_password := v\<rparr>))
            else if c = CHR ''M'' then (let (v, rest) = opt_value a rest in (rest, opt\<lparr>so_mod_dir := v\<rparr>))
            else if c = CHR ''v'' then (rest, opt\<lparr>so_verbosity := length a - 1\<rparr>)
            else if c = CHR ''H'' then
              (let (n, rest) = heartbeat_option (so_heartbeat_sec opt) a rest in (rest, opt\<lparr>so_heartbeat_sec := n\<rparr>))
            else if c = CHR ''h'' then (rest, opt\<lparr>so_show_help := True\<rparr>)
            else if c = CHR ''t'' then
              (let (n, rest) = thread_option hw a rest in (rest, opt\<lparr>so_thread_count := n\<rparr>))
            else (rest, opt))
      else (rest, opt))"

lemma server_arg_shorter: "server_arg hw a rest opt = (rest', opt') \<Longrightarrow> length rest' \<le> length rest"
  unfolding server_arg_def
  by (auto simp: Let_def dest: option_shorter split: if_splits list.splits prod.splits)

function server_args :: "nat \<Rightarrow> string list \<Rightarrow> server_options \<Rightarrow> server_options" where
  "server_args hw [] opt = opt"
| "server_args hw (a # rest) opt = (case server_arg hw a rest opt of (rest, opt) \<Rightarrow> server_args hw rest opt)"
  by pat_completeness auto
termination
  by (relation "measure (\<lambda>(hw, args, opt). length args)") (auto dest: server_arg_shorter split: prod.splits)

definition server_main :: "nat \<Rightarrow> string list \<Rightarrow> main_action" where
  "server_main hw args =
     (let opt = server_args hw args server_defaults
      in if so_show_help opt then MainExit 0
         else if so_module_help_name opt \<noteq> [] then MainModuleHelp (so_mod_dir opt) (so_module_help_name opt)
         else if so_show_module_list opt then MainModuleList (so_mod_dir opt)
         else if so_listen_port opt = 0 \<or> so_password opt = [] then MainExit 1
         else if millis_of_sec (so_heartbeat_sec opt) = None then MainUndefined
         else MainStart)"


section \<open>The module tester\<close>

record tester_options =
  to_mod_dir :: string
  to_data_size :: u64
  to_chain_str :: string
  to_show_help :: bool

definition tester_defaults :: tester_options where
  "tester_defaults = \<lparr>to_mod_dir = [], to_data_size = 4096, to_chain_str = [], to_show_help = False\<rparr>"

definition tester_arg :: "string \<Rightarrow> string list \<Rightarrow> tester_options \<Rightarrow> string list \<times> tester_options" where
  "tester_arg a rest opt =
     (if char_at a 0 = CHR ''-'' then
        (let c = char_at a 1
         in if c = CHR ''M'' then (let (v, rest) = opt_value a rest in (rest, opt\<lparr>to_mod_dir := v\<rparr>))
            else if c = CHR ''s'' then
              (let (v, rest) = opt_value a rest
               in (rest, if v \<noteq> [] then opt\<lparr>to_data_size := word_of_int (strtol10 v)\<rparr> else opt))
            else if c = CHR ''h'' then (rest, opt\<lparr>to_show_help := True\<rparr>)
            else (rest, opt))
      else (rest, opt\<lparr>to_chain_str := a\<rparr>))"

lemma tester_arg_shorter: "tester_arg a rest opt = (rest', opt') \<Longrightarrow> length rest' \<le> length rest"
  unfolding tester_arg_def by (auto simp: Let_def dest: option_shorter split: if_splits prod.splits)

function tester_args :: "string list \<Rightarrow> tester_options \<Rightarrow> tester_options" where
  "tester_args [] opt = opt"
| "tester_args (a # rest) opt = (case tester_arg a rest opt of (rest, opt) \<Rightarrow> tester_args rest opt)"
  by pat_completeness auto
termination
  by (relation "measure (\<lambda>(args, opt). length args)") (auto dest: tester_arg_shorter split: prod.splits)

text \<open>
  The tester's own reading of a chain: a first block that looks like an address is skipped; empty blocks are modules
  with an empty name.
\<close>

definition tester_config :: "string \<Rightarrow> ChainConfig" where
  "tester_config str =
     (let blocks = split_blocks str;
          skip = (case blocks of
                    [] \<Rightarrow> False
                  | b # _ \<Rightarrow> str_find CHR ''|'' b = None \<and>
                      (str_find CHR '','' b \<noteq> None \<or> str_find CHR '':'' b \<noteq> None \<and> b \<noteq> []));
          mods = map parse_module (if skip then tl blocks else blocks)
      in cfg_default\<lparr>cc_modules := mods, cc_valid := mods \<noteq> []\<rparr>)"

definition tester_main :: "string list \<Rightarrow> main_action" where
  "tester_main args =
     (let opt = tester_args args tester_defaults
      in if to_show_help opt \<or> to_mod_dir opt = [] then MainExit (if to_mod_dir opt = [] then 1 else 0)
         else if to_chain_str opt = [] then MainModuleList (to_mod_dir opt)
         else if \<not> cc_valid (tester_config (to_chain_str opt)) then MainExit 1
         else MainStart)"

section \<open>Properties\<close>

lemma find_from_append:
  "c \<notin> set b \<Longrightarrow> find_from c (length a) (a @ b @ c # d) = Some (length a + length b)"
  by (simp add: find_from_def str_find_append)

lemma find_from_None: "c \<notin> set b \<Longrightarrow> find_from c (length a) (a @ b) = None"
  by (simp add: find_from_def)

lemma three_colons:
  assumes "CHR '':'' \<notin> set a" and "CHR '':'' \<notin> set b" and "CHR '':'' \<notin> set d" and "CHR '':'' \<notin> set e"
  shows "parse_listen (a @ '':'' @ b @ '':'' @ d @ '':'' @ e) opt
      = Inr (opt\<lparr>co_listen_addr := a, co_listen_port := word_of_int (atoi b), co_target_addr := d @ '':'' @ e\<rparr>)"
proof -
  let ?c = "CHR '':''"
  let ?s = "a @ ?c # b @ ?c # d @ ?c # e"
  have "str_find ?c ?s = Some (length a)" using str_find_append [OF assms(1)] by simp
  moreover have "str_rfind ?c ?s = Some (length a + 1 + length b + 1 + length d)"
    using str_rfind_append [OF assms(4), of "a @ ?c # b @ ?c # d"] by simp
  moreover have "find_from ?c (length a + 1) ?s = Some (length a + 1 + length b)"
    using find_from_append [OF assms(2), of "a @ [?c]"] by simp
  moreover have "find_from ?c (length a + 1 + length b + 1) ?s = Some (length a + 1 + length b + 1 + length d)"
    using find_from_append [OF assms(3), of "a @ [?c] @ b @ [?c]"] by simp
  ultimately show ?thesis by (simp add: parse_listen_def numeral_3_eq_3)
qed

lemma two_colons:
  assumes "CHR '':'' \<notin> set b" and "CHR '':'' \<notin> set d" and "CHR '':'' \<notin> set e"
  shows "parse_listen (b @ '':'' @ d @ '':'' @ e) opt
      = Inr (opt\<lparr>co_listen_port := word_of_int (atoi b), co_target_addr := d @ '':'' @ e\<rparr>)"
proof -
  let ?c = "CHR '':''"
  let ?s = "b @ ?c # d @ ?c # e"
  have "str_find ?c ?s = Some (length b)" using str_find_append [OF assms(1)] by simp
  moreover have "str_rfind ?c ?s = Some (length b + 1 + length d)"
    using str_rfind_append [OF assms(3), of "b @ ?c # d"] by simp
  moreover have "find_from ?c (length b + 1) ?s = Some (length b + 1 + length d)"
    using find_from_append [OF assms(2), of "b @ [?c]"] by simp
  moreover have "find_from ?c (length b + 1 + length d + 1) ?s = None"
    using find_from_None [OF assms(3), of "b @ [?c] @ d @ [?c]"] by simp
  ultimately show ?thesis by (simp add: parse_listen_def)
qed

lemma one_colon:
  assumes "CHR '':'' \<notin> set d" and "CHR '':'' \<notin> set e"
  shows "parse_listen (d @ '':'' @ e) opt = Inl 1"
  using str_find_append [OF assms(1), of e] str_rfind_append [OF assms(2), of d] by (simp add: parse_listen_def)

text \<open>
  C30: the listen specification of the client is read back: \<open>port:host:port\<close> sets the port and the target and
  keeps the bind address, and \<open>address:port:host:port\<close> sets all three; a specification with a single colon ends
  the program with exit code 1.
\<close>

theorem listen_spec_parses:
  assumes "CHR '':'' \<notin> set addr" and "CHR '':'' \<notin> set port" and "CHR '':'' \<notin> set host" and "CHR '':'' \<notin> set tport"
  shows "parse_listen (port @ '':'' @ host @ '':'' @ tport) opt
      = Inr (opt\<lparr>co_listen_port := word_of_int (atoi port), co_target_addr := host @ '':'' @ tport\<rparr>)
    \<and> parse_listen (addr @ '':'' @ port @ '':'' @ host @ '':'' @ tport) opt
      = Inr (opt\<lparr>co_listen_addr := addr, co_listen_port := word_of_int (atoi port), co_target_addr := host @ '':'' @ tport\<rparr>)
    \<and> parse_listen (host @ '':'' @ tport) opt = Inl 1"
  using two_colons [OF assms(2-4)] three_colons [OF assms] one_colon [OF assms(3,4)] by blast

theorem listen_spec_parses_witness:
  "parse_listen ''127.0.0.1:8080:10.0.0.1:3000'' client_defaults
    = Inr (client_defaults\<lparr>co_listen_addr := ''127.0.0.1'', co_listen_port := 8080, co_target_addr := ''10.0.0.1:3000''\<rparr>)"
proof -
  have a: "atoi ''8080'' = 8080" by code_simp
  have "parse_listen (''127.0.0.1'' @ '':'' @ ''8080'' @ '':'' @ ''10.0.0.1'' @ '':'' @ ''3000'') client_defaults
    = Inr (client_defaults\<lparr>co_listen_addr := ''127.0.0.1'', co_listen_port := word_of_int (atoi ''8080''),
        co_target_addr := ''10.0.0.1'' @ '':'' @ ''3000''\<rparr>)"
    using listen_spec_parses [of "''127.0.0.1''" "''8080''" "''10.0.0.1''" "''3000''" client_defaults] by simp
  then show ?thesis by (simp add: a)
qed

lemma option_ranges:
  "thread_option hw a rest = (n, rest') \<Longrightarrow> 1 \<le> n" "heartbeat_option old a rest = (n, rest') \<Longrightarrow> 1 \<le> n" "1 \<le> at_least_one n"
  by (auto simp: thread_option_def heartbeat_option_def at_least_one_def split: list.splits prod.splits if_splits)

definition client_in_range :: "client_options \<Rightarrow> bool" where
  "client_in_range opt \<longleftrightarrow> 1 \<le> co_thread_count opt \<and> 1 \<le> co_heartbeat_sec opt"

definition server_in_range :: "server_options \<Rightarrow> bool" where
  "server_in_range opt \<longleftrightarrow> 1 \<le> so_thread_count opt \<and> 1 \<le> so_heartbeat_sec opt"

lemma parse_listen_in_range: "parse_listen v opt = Inr opt' \<Longrightarrow> client_in_range opt' = client_in_range opt"
  by (auto simp: parse_listen_def client_in_range_def split: option.splits if_splits prod.splits)

lemma client_arg_in_range:
  "client_arg hw a rest opt = Inr (rest', opt') \<Longrightarrow> client_in_range opt \<Longrightarrow> client_in_range opt'"
  unfolding client_arg_def
  by (auto simp: Let_def client_in_range_def option_ranges(3) dest: parse_listen_in_range option_ranges(1,2) split: if_splits list.splits prod.splits sum.splits)

lemma client_args_in_range: "client_args hw args opt = Inr opt' \<Longrightarrow> client_in_range opt \<Longrightarrow> client_in_range opt'"
  by (induction hw args opt rule: client_args.induct)
    (auto split: sum.splits dest: client_arg_in_range)

lemma server_arg_in_range:
  "server_arg hw a rest opt = (rest', opt') \<Longrightarrow> server_in_range opt \<Longrightarrow> server_in_range opt'"
  unfolding server_arg_def parse_bind_def
  by (auto simp: Let_def server_in_range_def option_ranges(3) dest: option_ranges(1,2) split: if_splits list.splits prod.splits option.splits)

lemma server_args_in_range: "server_in_range opt \<Longrightarrow> server_in_range (server_args hw args opt)"
proof (induction hw args opt rule: server_args.induct)
  case (2 hw a rest opt)
  obtain rest' opt' where "server_arg hw a rest opt = (rest', opt')" by (cases "server_arg hw a rest opt")
  with 2 show ?case using server_arg_in_range by simp
qed simp


text \<open>
  On every command line, the server and the client run with at least one worker thread and a heartbeat interval of at
  least one second.
\<close>

theorem options_in_range:
  assumes "client_args hw args client_defaults = Inr opt"
  shows "1 \<le> co_thread_count opt \<and> 1 \<le> co_heartbeat_sec opt
    \<and> 1 \<le> so_thread_count (server_args hw args' server_defaults) \<and> 1 \<le> so_heartbeat_sec (server_args hw args' server_defaults)"
  using client_args_in_range [OF assms] server_args_in_range [of server_defaults hw args']
  by (simp add: client_in_range_def server_in_range_def client_defaults_def server_defaults_def)

theorem options_in_range_witness:
  "\<exists>opt. client_args 0 [''-t'', ''-H'', ''-7''] client_defaults = Inr opt \<and> 1 \<le> co_thread_count opt \<and> 1 \<le> co_heartbeat_sec opt
    \<and> 1 \<le> so_thread_count (server_args 0 [''-t0''] server_defaults) \<and> 1 \<le> so_heartbeat_sec (server_args 0 [''-t0''] server_defaults)"
proof -
  have "\<exists>opt. client_args 0 [''-t'', ''-H'', ''-7''] client_defaults = Inr opt"
    by (simp add: client_arg_def char_at_def thread_option_def heartbeat_option_def opt_value_def is_digit_def)
  then show ?thesis using options_in_range [of 0 "[''-t'', ''-H'', ''-7'']" _ "[''-t0'']"] by blast
qed

text \<open>
  The documented option \<open>--heartbeat\<close> has no effect on the client: the branch for it is behind one that takes every
  argument with a leading dash, and the value is taken for the chain.  The server sets the interval.
\<close>

theorem client_heartbeat_option_dead:
  assumes "v \<noteq> []" and "hd v \<noteq> CHR ''-''"
  shows "client_args hw [''--heartbeat'', v] client_defaults = Inr (client_defaults\<lparr>co_chain_str := v\<rparr>)
    \<and> server_args hw [''--heartbeat'', v] server_defaults = server_defaults\<lparr>so_heartbeat_sec := at_least_one (atoi v)\<rparr>"
proof -
  have "char_at v 0 \<noteq> CHR ''-''" using assms by (cases v) (simp_all add: char_at_def)
  moreover from this have "v \<noteq> ''--module-help''" "v \<noteq> ''--module-list''" by (auto simp: char_at_def)
  ultimately have "client_arg hw v [] client_defaults = Inr ([], client_defaults\<lparr>co_chain_str := v\<rparr>)"
    by (simp add: client_arg_def)
  then show ?thesis using assms(1) by (simp add: client_arg_def server_arg_def char_at_def)
qed

theorem client_heartbeat_option_dead_witness:
  "client_args 4 [''--heartbeat'', ''60''] client_defaults = Inr (client_defaults\<lparr>co_chain_str := ''60''\<rparr>)
    \<and> server_args 4 [''--heartbeat'', ''60''] server_defaults = server_defaults\<lparr>so_heartbeat_sec := at_least_one (atoi ''60'')\<rparr>"
  by (rule client_heartbeat_option_dead) simp_all

end
