(* ===== verification/Module_Tester.thy ===== *)
theory Module_Tester
  imports Chain_Line Command_Line
begin

text \<open>
  The run of \<open>src/module_tester/main.cpp\<close>: the data goes through one chain and what that chain writes goes back
  through a second one, whose modules are listed in the opposite order.

  The worker of the pool runs beside the main thread.  How far it gets between two looks at the chain, and when these
  happen, is a list of numbers of tasks and times; the list is exhausted when the tester is still waiting.  As the first
  chain is drained before the second is used, each chain may have a queue of its own.
\<close>

section \<open>The run\<close>

definition wait_drain ::
  "nat \<Rightarrow> ('c, 'k) bases \<Rightarrow> 'k KernelAPI \<Rightarrow> millis \<Rightarrow> ('c, 'k) world \<Rightarrow> ('c, 'k) world option" where
  "wait_drain n B K now w = do {
     w \<leftarrow> worker_steps n B K now w;
     if is_drained (fst w) then Some w else None
   }"

abbreviation (input) "PUMP_MS \<equiv> (50 :: int)"
abbreviation (input) "TIMEOUT_MS \<equiv> (30000 :: int)"

fun pump_drain ::
  "('c, 'k) bases \<Rightarrow> 'k KernelAPI \<Rightarrow> millis \<Rightarrow> (nat \<times> millis) list \<Rightarrow> nat \<Rightarrow> ('c, 'k) world \<Rightarrow> ('c, 'k) world option" where
  "pump_drain B K start [] n w = None"
| "pump_drain B K start ((j, now) # rounds) n w = do {
     w \<leftarrow> worker_steps j B K now w;
     if bytes_allocated (fst w) > 0 then do {
       w \<leftarrow> check_module_heartbeats B K PUMP_MS now w;
       if now - start > TIMEOUT_MS then wait_drain n B K now w
       else pump_drain B K start rounds n w
     }
     else wait_drain n B K now w
   }"

text \<open>
  A wait: its start, its rounds and the number of tasks the worker gets done during the final \<open>wait_drain\<close>.
\<close>

type_synonym wait = "millis \<times> (nat \<times> millis) list \<times> nat"

definition pump_wait :: "('c, 'k) bases \<Rightarrow> 'k KernelAPI \<Rightarrow> wait \<Rightarrow> ('c, 'k) world \<Rightarrow> ('c, 'k) world option" where
  "pump_wait B K x w = (case x of (start, rounds, n) \<Rightarrow> pump_drain B K start rounds n w)"

text \<open>The worker gets \<open>k\<close> tasks done during the rounds, and also during \<open>wait_drain\<close> in case the rounds are given up.\<close>

definition enough :: "nat \<Rightarrow> wait \<Rightarrow> bool" where
  "enough k x \<longleftrightarrow> fst (snd x) \<noteq> [] \<and> k \<le> sum_list (map fst (fst (snd x))) \<and> k \<le> snd (snd x)"

text \<open>
  \<open>data\<close> are the random bytes.  The result is the exit code; \<open>None\<close> if the tester does not come to an end with the given
  rounds of the two waits, or does something undefined.
\<close>

definition tester_run ::
  "('c, TesterKernel) bases \<Rightarrow> ((nat \<times> int) list \<Rightarrow> (nat \<times> int) list) \<Rightarrow> millis \<Rightarrow> ChainConfig \<Rightarrow> bytes
   \<Rightarrow> wait \<Rightarrow> wait \<Rightarrow> int option" where
  "tester_run B order now cfg data ra rb = do {
     let empty_chain = chain_empty\<lparr>pool := tp_start 1 tp_new\<rparr>;
     chain_a \<leftarrow> chain_new B tester_kapi order now cfg (empty_chain, tester_start);
     let cfg_b = cfg_default\<lparr>cc_modules := rev (cc_modules cfg), cc_valid := True\<rparr>;
     chain_b \<leftarrow> chain_new B tester_kapi order now cfg_b (empty_chain, tester_start);
     chain_a \<leftarrow> push_bytes tester_kapi data 0 0 chain_a;
     chain_a \<leftarrow> pump_wait B tester_kapi ra chain_a;
     let encoded = captured (snd chain_a);
     if encoded = [] then Some 1
     else do {
       chain_b \<leftarrow> push_bytes tester_kapi encoded 1 1 chain_b;
       chain_b \<leftarrow> pump_wait B tester_kapi rb chain_b;
       Some (if captured (snd chain_b) = data then 0 else 1)
     }
   }"

section \<open>Waiting for a line\<close>

lemma heartbeats_silent:
  assumes "\<forall>i < length (modules c). heartbeat_interval_sec (modules c ! i) = 0"
  shows "check_module_heartbeats B K ms now (c, k) = Some (c, k)"
proof -
  have "heartbeat_loop B K ms now is (c, k) = Some (c, k)" if "set is \<subseteq> {0..<length (modules c)}" for "is"
    using that assms by (induction "is") (simp_all add: module_heartbeat_def module_at_def)
  then show ?thesis by (simp add: check_module_heartbeats_def)
qed

lemma under_way_lined: "under_way B fs h dir e k k' r w \<Longrightarrow> lined B fs (fst w)"
  by (auto simp: under_way_def at_rest_def carrying_def split: if_splits)

lemma under_way_silent:
  assumes "under_way B fs h dir e k k' r w"
  shows "check_module_heartbeats B K ms now w = Some w"
  using heartbeats_silent [of "fst w" B K ms now "snd w"] under_way_lined [OF assms] by (simp add: lined_def staged_def)

lemma under_way_drained: "under_way B fs h dir e k k' r w \<Longrightarrow> is_drained (fst w) \<longleftrightarrow> r = 0"
  by (auto simp: under_way_def at_rest_def carrying_def is_drained_def split: if_splits)


lemma wait_drain_line:
  assumes "under_way B fs h dir e k k' r w" and "dir = 0 \<or> dir = 1"
    and "ka_wire_write K (if dir = 0 then 1 else 0) e k = Some (ret, k')" and "0 \<le> ret"
    and "wait_drain n B K now w = Some w'"
  shows "under_way B fs h dir e k k' 0 w'"
proof -
  obtain w1 where "worker_steps n B K now w = Some w1" "under_way B fs h dir e k k' (r - n) w1"
    using under_way_steps [OF assms(1-4)] by blast
  then show ?thesis using assms(5) under_way_drained [of B fs h dir e k k' "r - n" w1] by (simp add: wait_drain_def split: if_splits)
qed

text \<open>However the waiting goes, when it is over the packet has left the chain; and it can be over.\<close>

lemma pump_drain_line:
  assumes "under_way B fs h dir e k k' r w" and "dir = 0 \<or> dir = 1"
    and "ka_wire_write K (if dir = 0 then 1 else 0) e k = Some (ret, k')" and "0 \<le> ret"
    and "pump_drain B K start rounds n w = Some w'"
  shows "at_rest B fs h (fst w') \<and> snd w' = k'"
proof -
  have "under_way B fs h dir e k k' 0 w'" using assms(1,5)
  proof (induction rounds arbitrary: r w)
    case (Cons jn rounds)
    obtain j now where jn: "jn = (j, now)" by (cases jn)
    obtain w1 where w1: "worker_steps j B K now w = Some w1" "under_way B fs h dir e k k' (r - j) w1"
      using under_way_steps [OF Cons.prems(1) assms(2-4)] by blast
    from Cons.prems(2) w1(1) under_way_silent [OF w1(2)]
    show ?case using wait_drain_line [OF w1(2) assms(2-4)] Cons.IH [OF w1(2)] by (simp add: jn split: if_splits)
  qed simp
  then show ?thesis by (simp add: under_way_def)
qed

lemma wait_drain_returns:
  assumes "under_way B fs h dir e k k' r w" and "dir = 0 \<or> dir = 1"
    and "ka_wire_write K (if dir = 0 then 1 else 0) e k = Some (ret, k')" and "0 \<le> ret" and "r \<le> n"
  shows "wait_drain n B K now w \<noteq> None"
proof -
  obtain w1 where "worker_steps n B K now w = Some w1" "under_way B fs h dir e k k' 0 w1"
    using under_way_steps [OF assms(1-4), of n now] assms(5) by auto
  then show ?thesis using under_way_drained by (fastforce simp: wait_drain_def)
qed

lemma pump_drain_returns:
  assumes "under_way B fs Map.empty dir e k k' r w" and "dir = 0 \<or> dir = 1"
    and "ka_wire_write K (if dir = 0 then 1 else 0) e k = Some (ret, k')" and "0 \<le> ret"
    and "rounds \<noteq> []" and "r \<le> sum_list (map fst rounds)" and "r \<le> n"
  shows "pump_drain B K start rounds n w \<noteq> None"
  using assms(1,5-7)
proof (induction rounds arbitrary: r w)
  case (Cons jn rounds)
  obtain j now where jn: "jn = (j, now)" by (cases jn)
  obtain w1 where w1: "worker_steps j B K now w = Some w1" "under_way B fs Map.empty dir e k k' (r - j) w1"
    using under_way_steps [OF Cons.prems(1) assms(2-4)] by blast
  have wait: "wait_drain n B K now w1 \<noteq> None" using wait_drain_returns [OF w1(2) assms(2-4)] Cons.prems(4) by simp
  have more: "pump_drain B K start rounds n w1 \<noteq> None" if "bytes_allocated (fst w1) > 0"
  proof (rule Cons.IH [OF w1(2)])
    have "r - j \<noteq> 0" using that w1(2) rest_empty [of B fs "fst w1"] by (auto simp: under_way_def)
    then show "rounds \<noteq> []" "r - j \<le> sum_list (map fst rounds)" "r - j \<le> n" using Cons.prems(3,4) by (auto simp: jn)
  qed
  show ?case using w1(1) under_way_silent [OF w1(2)] wait more by (simp add: jn)
qed simp

section \<open>The verdict\<close>

lemma tester_writes:
  assumes "length d < 2 ^ 31"
  obtains r where "ka_wire_write tester_kapi dst d k = Some (r, k\<lparr>captured := captured k @ d\<rparr>)" "0 \<le> r"
  using assms by (auto simp: tester_kapi_def tester_wire_write_def int32_id)

lemma tester_numbers: "captured (numbers_taken tester_kapi n k) = captured k"
  by (induction n arbitrary: k) (simp_all add: tester_kapi_def tester_alloc_id_def)

lemma tester_chain:
  assumes "list_all2 (makes_stage B) (cc_modules cfg) fs" and "fs \<noteq> []"
  obtains c k where "chain_new B tester_kapi order now cfg (chain_empty\<lparr>pool := tp_start 1 tp_new\<rparr>, tester_start) = Some (c, k)"
    "at_rest B fs Map.empty c" "captured k = []"
proof -
  let ?c = "chain_empty\<lparr>pool := tp_start 1 tp_new\<rparr> :: 'a Chain"
  have "tidy ?c" "free_worker ?c" "cells ?c = Map.empty"
    by (simp_all add: tidy_def heap_inv_def heap_bytes_def chain_empty_def free_worker_def tp_start_def tp_new_def)
  then show thesis
    using chain_new_line [OF assms, of ?c tester_kapi order now tester_start] that
    by (auto simp: chain_empty_def tp_start_def tp_new_def tester_numbers tester_start_def)
qed

text \<open>
  One half of a run: a packet is pushed into a chain at rest; when the wait is over the tester's record holds what the coders
  make of it.
\<close>

lemma tester_half:
  assumes "at_rest B fs Map.empty c" and "captured k = []" and "d \<noteq> []" and "dir = 0 \<or> dir = 1 \<and> src = 1"
    and "(if dir = 0 then encode_line fs d else decode_line fs d) = Some e" and "length e < 2 ^ 31"
  obtains w where "push_bytes tester_kapi d src dir (c, k) = Some w"
    "\<forall>x w'. pump_wait B tester_kapi x w = Some w' \<longrightarrow> captured (snd w') = e"
    "\<forall>x. enough (length fs) x \<longrightarrow> pump_wait B tester_kapi x w \<noteq> None"
proof -
  let ?k = "k\<lparr>captured := e\<rparr>"
  obtain r where r: "ka_wire_write tester_kapi (if dir = 0 then 1 else 0) e k = Some (r, ?k)" "0 \<le> r"
    using tester_writes [OF assms(6), of "if dir = 0 then 1 else 0" k] assms(2) by auto
  obtain w where w: "push_bytes tester_kapi d src dir (c, k) = Some w" "under_way B fs Map.empty dir e k ?k (length fs) w"
    using push_under_way [OF assms(1,3-5)] by blast
  have dir: "dir = 0 \<or> dir = 1" using assms(4) by blast
  have "captured (snd w') = e" if "pump_wait B tester_kapi x w = Some w'" for x w'
    using pump_drain_line [OF w(2) dir r] that by (cases x) (auto simp: pump_wait_def)
  moreover have "pump_wait B tester_kapi x w \<noteq> None" if "enough (length fs) x" for x
    using pump_drain_returns [OF w(2) dir r] that by (cases x) (simp add: pump_wait_def enough_def)
  ultimately show thesis using w(1) by (intro that) blast+
qed

lemma tester_verdict:
  assumes "list_all2 (makes_stage B) (cc_modules cfg) fs" and "fs \<noteq> []" and "d \<noteq> []"
    and "encode_line fs d = Some e" and "e \<noteq> []" and "decode_line (rev fs) e = Some d'" and "length e < 2 ^ 31" "length d' < 2 ^ 31"
  shows "(\<forall>ra rb code. tester_run B order now cfg d ra rb = Some code \<longrightarrow> code = (if d' = d then 0 else 1))
    \<and> (\<forall>ra rb. enough (length fs) ra \<and> enough (length fs) rb
         \<longrightarrow> tester_run B order now cfg d ra rb = Some (if d' = d then 0 else 1))"
proof -
  let ?cfg = "cfg_default\<lparr>cc_modules := rev (cc_modules cfg), cc_valid := True\<rparr>"
  obtain ca ka where a: "chain_new B tester_kapi order now cfg (chain_empty\<lparr>pool := tp_start 1 tp_new\<rparr>, tester_start) = Some (ca, ka)"
      "at_rest B fs Map.empty ca" "captured ka = []"
    by (rule tester_chain [OF assms(1,2)])
  have "list_all2 (makes_stage B) (cc_modules ?cfg) (rev fs)" "rev fs \<noteq> []" using assms(1,2) by simp_all
  then obtain cb kb where b: "chain_new B tester_kapi order now ?cfg (chain_empty\<lparr>pool := tp_start 1 tp_new\<rparr>, tester_start) = Some (cb, kb)"
      "at_rest B (rev fs) Map.empty cb" "captured kb = []"
    by (rule tester_chain)
  obtain wa where wa: "push_bytes tester_kapi d 0 0 (ca, ka) = Some wa"
      "\<forall>x w'. pump_wait B tester_kapi x wa = Some w' \<longrightarrow> captured (snd w') = e"
      "\<forall>x. enough (length fs) x \<longrightarrow> pump_wait B tester_kapi x wa \<noteq> None"
    by (rule tester_half [OF a(2,3) assms(3), of 0 0 e]) (use assms(4,7) in simp_all)
  obtain wb where wb: "push_bytes tester_kapi e 1 1 (cb, kb) = Some wb"
      "\<forall>x w'. pump_wait B tester_kapi x wb = Some w' \<longrightarrow> captured (snd w') = d'"
      "\<forall>x. enough (length (rev fs)) x \<longrightarrow> pump_wait B tester_kapi x wb \<noteq> None"
    by (rule tester_half [OF b(2,3) assms(5), of 1 1 d']) (use assms(6,8) in simp_all)
  have run: "tester_run B order now cfg d ra rb = Option.bind (pump_wait B tester_kapi ra wa) (\<lambda>_.
      Option.bind (pump_wait B tester_kapi rb wb) (\<lambda>_. Some (if d' = d then 0 else 1)))" for ra rb
  proof (cases "pump_wait B tester_kapi ra wa")
    case (Some w')
    then show ?thesis using a(1) b(1) wa(1) wb(1) wa(2) [rule_format, OF Some] assms(5) wb(2) [rule_format, of rb]
      by (cases "pump_wait B tester_kapi rb wb") (simp_all add: tester_run_def Let_def)
  qed (use a(1) b(1) wa(1) in \<open>simp add: tester_run_def Let_def\<close>)
  have "code = (if d' = d then 0 else 1)" if "tester_run B order now cfg d ra rb = Some code" for ra rb code
    using that unfolding run by (auto simp: Option.bind_eq_Some_conv)
  moreover have "tester_run B order now cfg d ra rb = Some (if d' = d then 0 else 1)" if "enough (length fs) ra" "enough (length fs) rb" for ra rb
    using wa(3) [rule_format, of ra] wb(3) [rule_format, of rb] that unfolding run by auto
  ultimately show ?thesis by blast
qed

section \<open>Chains of copy and base64 modules\<close>

definition plain_coders :: "(bytes \<Rightarrow> bytes) \<Rightarrow> (bytes \<Rightarrow> bytes option) \<Rightarrow> ModuleSpec
    \<Rightarrow> (bytes \<Rightarrow> bytes option) \<times> (bytes \<Rightarrow> bytes option)" where
  "plain_coders enc dec m = (if ms_name m = ''copy'' then copy_coders else (b64_encoder enc, b64_decoder dec))"

definition encodings :: "ModuleSpec list \<Rightarrow> nat" where
  "encodings ms = length (filter (\<lambda>m. ms_name m \<noteq> ''copy'') ms)"

lemma encodings_simps [simp]:
  "encodings [] = 0" "encodings (m # ms) = (if ms_name m = ''copy'' then encodings ms else Suc (encodings ms))"
  "encodings (rev ms) = encodings ms"
  by (simp_all add: encodings_def rev_filter [symmetric])

definition base64_laws :: "(bytes \<Rightarrow> bytes) \<Rightarrow> (bytes \<Rightarrow> bytes option) \<Rightarrow> bool" where
  "base64_laws enc dec \<longleftrightarrow> (\<forall>d. d \<noteq> [] \<longrightarrow> length (enc d) = (length d + 2) div 3 * 4 \<and> dec (enc d) = Some d)"

lemma base64_grows:
  assumes "base64_laws enc dec" and "d \<noteq> []"
  shows "length d \<le> length (enc d)" "enc d \<noteq> []"
proof -
  have l: "length (enc d) = (length d + 2) div 3 * 4" using assms by (simp add: base64_laws_def)
  then show "length d \<le> length (enc d)" by linarith
  show "enc d \<noteq> []" using l assms(2) by (cases d) auto
qed

lemma iterated_grows:
  assumes "base64_laws enc dec" and "d \<noteq> []"
  shows "(enc ^^ n) d \<noteq> [] \<and> length d \<le> length ((enc ^^ n) d)"
proof (induction n)
  case (Suc n)
  then show ?case using base64_grows [OF assms(1), of "(enc ^^ n) d"] by simp
qed (simp add: assms(2))

lemma plain_encode:
  assumes "base64_laws enc dec" and "d \<noteq> []"
  shows "encode_line (map (plain_coders enc dec) ms) d = Some ((enc ^^ encodings ms) d)"
  using assms(2)
proof (induction ms arbitrary: d)
  case (Cons m ms)
  then show ?case using base64_grows [OF assms(1), of d] assms(1)
    by (simp add: plain_coders_def copy_coders_def b64_encoder_def base64_laws_def funpow_swap1)
qed simp

lemma plain_decode:
  assumes "base64_laws enc dec" and "d \<noteq> []"
  shows "decode_line (map (plain_coders enc dec) ms) ((enc ^^ encodings ms) d) = Some d"
  using assms(2)
proof (induction ms arbitrary: d)
  case (Cons m ms)
  then show ?case using base64_grows [OF assms(1), of d] Cons.IH [of "enc d"] assms(1)
    by (simp add: plain_coders_def copy_coders_def b64_decoder_def base64_laws_def funpow_swap1)
qed simp

lemma plain_stages:
  assumes "B ''copy'' = Some (copy_base h)" and "B ''base64'' = Some (b64_base enc dec h')"
    and "\<forall>m\<in>set ms. ms_name m = ''copy'' \<or> ms_name m = ''base64''"
  shows "list_all2 (makes_stage B) ms (map (plain_coders enc dec) ms)"
  using assms(3)
proof (induction ms)
  case (Cons m ms)
  then show ?case using copy_makes_stage [of B m h] b64_makes_stage [of B m enc dec h'] assms(1,2)
    by (auto simp: plain_coders_def)
qed simp

text \<open>
  C22: the module tester passes every chain of copy and base64 modules, whatever the data, the parameters of
  the modules and the speed of the worker; and it does come to an end when the worker gets as many tasks done during each wait as
  there are modules.  The base64 codec is a parameter; used of it is the length of
  a base64 text and that decoding undoes encoding.
\<close>

theorem tester_passes_plain_chains:
  assumes "base64_laws enc dec" and "B ''copy'' = Some (copy_base h)" and "B ''base64'' = Some (b64_base enc dec h')"
    and "cc_modules cfg \<noteq> []" and "\<forall>m\<in>set (cc_modules cfg). ms_name m = ''copy'' \<or> ms_name m = ''base64''"
    and "d \<noteq> []" and "length ((enc ^^ encodings (cc_modules cfg)) d) < 2 ^ 31"
  shows "(\<forall>ra rb code. tester_run B order now cfg d ra rb = Some code \<longrightarrow> code = 0)
    \<and> (\<forall>ra rb. enough (length (cc_modules cfg)) ra \<and> enough (length (cc_modules cfg)) rb
         \<longrightarrow> tester_run B order now cfg d ra rb = Some 0)"
proof -
  let ?ms = "cc_modules cfg" and ?e = "(enc ^^ encodings (cc_modules cfg)) d"
  have g: "?e \<noteq> []" "length d < 2 ^ 31" using iterated_grows [OF assms(1,6)] assms(7) by (simp, meson order_le_less_trans)
  have "decode_line (rev (map (plain_coders enc dec) ?ms)) ?e = Some d"
    using plain_decode [OF assms(1,6), of "rev ?ms"] by (simp add: rev_map)
  then show ?thesis
    using tester_verdict [OF plain_stages [OF assms(2,3,5)] _ assms(6) plain_encode [OF assms(1,6)] g(1) _ assms(7) g(2)] assms(4)
    by simp
qed

text \<open>A codec with the sizes of base64: the data, a one and as many zeros as are missing.\<close>

definition pad_encode :: "bytes \<Rightarrow> bytes" where
  "pad_encode d = d @ [1] @ replicate ((length d + 2) div 3 * 4 - length d - 1) 0"

definition pad_decode :: "bytes \<Rightarrow> bytes option" where
  "pad_decode e = Some (butlast (rev (dropWhile (\<lambda>b. b = 0) (rev e))))"

lemma pad_laws: "base64_laws pad_encode pad_decode"
proof -
  have drop_zeros: "dropWhile (\<lambda>b. b = 0) (replicate n 0 @ 1 # bs) = 1 # bs" for n and bs :: bytes by (induction n) simp_all
  have "length d + 1 \<le> (length d + 2) div 3 * 4" if "d \<noteq> []" for d :: bytes using that by (cases d) auto
  then have "length (pad_encode d) = (length d + 2) div 3 * 4" if "d \<noteq> []" for d
    unfolding pad_encode_def length_append length_replicate list.size using that by fastforce
  then show ?thesis by (simp add: base64_laws_def) (simp add: pad_encode_def pad_decode_def drop_zeros)
qed

definition plain_cfg :: ChainConfig where
  "plain_cfg = cfg_default\<lparr>cc_modules := [\<lparr>ms_name = ''base64'', ms_params = []\<rparr>, \<lparr>ms_name = ''copy'', ms_params = ''m:c''\<rparr>,
     \<lparr>ms_name = ''base64'', ms_params = ''trace''\<rparr>]\<rparr>"

theorem tester_passes_plain_chains_witness:
  "tester_run [''copy'' \<mapsto> copy_base (\<lambda>s. s), ''base64'' \<mapsto> b64_base pad_encode pad_decode (\<lambda>s. s)] (\<lambda>x. x) 0 plain_cfg
     [1, 2, 3, 0] (0, [(1, 1), (1, 51), (2, 101)], 3) (101, [(3, 102)], 5) = Some 0"
proof -
  let ?B = "[''copy'' \<mapsto> copy_base (\<lambda>s. s), ''base64'' \<mapsto> b64_base pad_encode pad_decode (\<lambda>s. s)] :: (module_ctx, TesterKernel) bases"
  let ?d = "[1, 2, 3, 0] :: bytes"
  have "length ((pad_encode ^^ Suc (Suc 0)) ?d) < 2 ^ 31" by (simp add: pad_encode_def)
  moreover have "encodings (cc_modules plain_cfg) = Suc (Suc 0)" by (simp add: plain_cfg_def cfg_default_def)
  ultimately have "length ((pad_encode ^^ encodings (cc_modules plain_cfg)) ?d) < 2 ^ 31" by (simp only:)
  then show ?thesis
    using tester_passes_plain_chains [OF pad_laws, of ?B "\<lambda>s. s" "\<lambda>s. s" plain_cfg ?d "\<lambda>x. x" 0]
    by (simp add: plain_cfg_def cfg_default_def enough_def)
qed

text \<open>
  C40: the tester lists the modules of the second chain in the opposite order, but a packet from the wire already meets the
  modules of a chain from the last to the first.  So the modules decode in the order in which they encoded: a chain of two modules
  that a second chain of the same modules in the same order decodes correctly is reported as a failure, unless the two
  happen to commute.
\<close>

theorem tester_decodes_in_encoding_order:
  assumes "makes_stage B m1 f1" and "makes_stage B m2 f2" and "cc_modules cfg = [m1, m2]"
    and "d \<noteq> []" and "fst f1 d = Some x" and "fst f2 x = Some e" and "snd f2 e = Some x" and "snd f1 x = Some d"
    and "snd f1 e = Some y" and "snd f2 y = Some z" and "z \<noteq> d" and "e \<noteq> []" and "length e < 2 ^ 31" "length d < 2 ^ 31" "length z < 2 ^ 31"
  shows "(\<forall>ra rb code. tester_run B order now cfg d ra rb = Some code \<longrightarrow> code = 1)
    \<and> (\<forall>ra rb. enough 2 ra \<and> enough 2 rb \<longrightarrow> tester_run B order now cfg d ra rb = Some 1)
    \<and> (\<exists>w w'. chain_new B tester_kapi order now cfg (chain_empty\<lparr>pool := tp_start 1 tp_new\<rparr>, tester_start) = Some w
         \<and> push_bytes tester_kapi e 1 1 w = Some w' \<and> map_option (captured \<circ> snd) (worker_steps 2 B tester_kapi now w') = Some d)"
proof -
  have st: "list_all2 (makes_stage B) (cc_modules cfg) [f1, f2]" using assms(1-3) by simp
  obtain c k where c: "chain_new B tester_kapi order now cfg (chain_empty\<lparr>pool := tp_start 1 tp_new\<rparr>, tester_start) = Some (c, k)"
      "at_rest B [f1, f2] Map.empty c" "captured k = []"
    by (rule tester_chain [OF st]) simp
  let ?k = "k\<lparr>captured := d\<rparr>"
  obtain r where r: "ka_wire_write tester_kapi (if (1 :: int) = 0 then 1 else 0) d k = Some (r, ?k)" "0 \<le> r"
    using tester_writes [OF assms(14), of 0 k] c(3) by auto
  obtain w where w: "push_bytes tester_kapi e 1 1 (c, k) = Some w" "under_way B [f1, f2] Map.empty 1 d k ?k (length [f1, f2]) w"
    using push_under_way [OF c(2) assms(12), of 1 1 d tester_kapi k ?k] assms(7,8) by auto
  obtain w' where "worker_steps 2 B tester_kapi now w = Some w'" "under_way B [f1, f2] Map.empty 1 d k ?k (length [f1, f2] - 2) w'"
    using under_way_steps [OF w(2) _ r, of 2 now] by auto
  then have "map_option (captured \<circ> snd) (worker_steps 2 B tester_kapi now w) = Some d" by (simp add: under_way_def)
  moreover have "encode_line [f1, f2] d = Some e" "decode_line (rev [f1, f2]) e = Some z" using assms(5,6,9,10) by simp_all
  then have "(\<forall>ra rb code. tester_run B order now cfg d ra rb = Some code \<longrightarrow> code = (if z = d then 0 else 1))
    \<and> (\<forall>ra rb. enough (length [f1, f2]) ra \<and> enough (length [f1, f2]) rb
         \<longrightarrow> tester_run B order now cfg d ra rb = Some (if z = d then 0 else 1))"
    by (intro tester_verdict [OF st _ assms(4) _ assms(12) _ assms(13,15)]) simp_all
  ultimately show ?thesis using c(1) w(1) assms(11) unfolding list.size(3,4) add_0 One_nat_def [symmetric] one_add_one by metis
qed

text \<open>Two codecs that do not commute: one appends a byte, the other turns the packet around.\<close>

theorem tester_decodes_in_encoding_order_witness:
  "tester_run [''tail'' \<mapsto> b64_base (\<lambda>d. d @ [1]) (\<lambda>e. Some (butlast e)) (\<lambda>s. s), ''turn'' \<mapsto> b64_base rev (\<lambda>e. Some (rev e)) (\<lambda>s. s)]
     (\<lambda>x. x) 0 (cfg_default\<lparr>cc_modules := [\<lparr>ms_name = ''tail'', ms_params = []\<rparr>, \<lparr>ms_name = ''turn'', ms_params = []\<rparr>]\<rparr>) [5]
     (0, [(1, 1), (1, 51)], 2) (51, [(2, 52)], 2) = Some 1"
proof -
  let ?B = "[''tail'' \<mapsto> b64_base (\<lambda>d. d @ [1]) (\<lambda>e. Some (butlast e)) (\<lambda>s. s),
     ''turn'' \<mapsto> b64_base rev (\<lambda>e. Some (rev e)) (\<lambda>s. s)] :: (module_ctx, TesterKernel) bases"
  let ?m = "\<lambda>n. \<lparr>ms_name = n, ms_params = []\<rparr>"
  have s: "makes_stage ?B (?m ''tail'') (b64_encoder (\<lambda>d. d @ [1]), b64_decoder (\<lambda>e. Some (butlast e)))"
      "makes_stage ?B (?m ''turn'') (b64_encoder rev, b64_decoder (\<lambda>e. Some (rev e)))"
    by (rule b64_makes_stage [where h = "\<lambda>s. s"], simp)+
  from tester_decodes_in_encoding_order [OF s, of "cfg_default\<lparr>cc_modules := [?m ''tail'', ?m ''turn'']\<rparr>" "[5]" "[5, 1]" "[1, 5]" "[1]" "[1]" "\<lambda>x. x" 0]
  show ?thesis by (simp add: b64_encoder_def b64_decoder_def enough_def)
qed

end
