(* ===== verification/Spec2Isabelle.thy ===== *)
theory Spec2Isabelle
  imports Wire_Frame Write_Buffer Chain_Modules Session_Auth Session_Gate Session_Conn
    Server_Props Ends_Alike Client_Auth Client_Props Tunnel_Back Module_Tester
begin

text \<open>
  A verification development of pipeline-tunnel, a TCP tunnel whose traffic passes through a configurable chain of
  modules.

  \<^bold>\<open>The program.\<close>  A client (\<open>src/client\<close>) listens for external connections and forwards them to a server
  (\<open>src/server\<close>), which connects to the targets.  Client and server authenticate each other with a password, agree on a list
  of modules and build the same chain of modules (\<open>src/core/chain.cpp\<close>) at both ends.  A packet is pushed into the
  chain at one end, processed by the modules on the workers of a thread pool, and leaves the chain towards one of
  several data connections, TCP connections that carry varint-framed data, acknowledgements, heartbeats and control
  messages.  The other end reads the frames, pushes the payload through its chain in the opposite direction and writes it
  to the external connection or the target.  Each process runs one event loop over epoll (\<open>src/core/kernel.cpp\<close>); sockets are
  written through a buffer (\<open>src/common/write_buffer.h\<close>).  The server has one session per client; the first nine bytes
  on a new connection, the greeting, tell whether it is a new client or a further data connection of a session.

  \<^bold>\<open>The theories.\<close>

    \<^item> \<open>Prelude\<close>: integer types, byte strings, the functions of the C and C++ library the sources use, collections of rules.

    \<^item> \<open>Codec\<close>: the interface between a byte stream and what is framed on it, two locales; \<open>Protocol\<close> and \<open>Wire_Frame\<close>
      interpret them for the two formats.

    \<^item> \<open>Protocol\<close>: \<open>src/core/protocol.cpp\<close>, control messages.  \<open>Wire_Frame\<close>: the frames of the data connections.

    \<^item> \<open>Posix\<close>, \<open>Write_Buffer\<close>: \<open>::write\<close> and \<open>::close\<close> as functions of a record with the answers still to come, and
      \<open>src/common/write_buffer.h\<close> on top of it.

    \<^item> \<open>Config\<close>, \<open>Command_Line\<close>: the chain string (\<open>src/core/config.cpp\<close>, \<open>src/common/utils.cpp\<close>) and the argument
      lists of the three programs (\<open>src/client/main.cpp\<close>, \<open>src/server/main.cpp\<close>, \<open>src/module_tester/main.cpp\<close>).

    \<^item> \<open>Thread_Pool\<close>: \<open>src/core/thread_pool.cpp\<close>.

    \<^item> \<open>Module_Api\<close>: \<open>src/modules/include/module_api.h\<close>, the functions the chain gives a module, and in the locale
      \<open>module_env\<close> the laws a module relies on.  \<open>Split\<close>: \<open>src/modules/split/split.cpp\<close>.  \<open>Reassembly\<close>: its correctness inside
      \<open>module_env\<close>.  \<open>Modules\<close>: the copy and base64 modules and the registry (\<open>src/core/module_base.cpp\<close>).

    \<^item> \<open>Chain\<close>: \<open>src/core/chain.cpp\<close>.  \<open>Chain_Inv\<close>: its invariant and the kernel of the module tester.  \<open>Chain_Modules\<close>: the
      chain as a provider of \<open>module_env\<close>, and the split module inside real chains.  \<open>Chain_Owner\<close>: how sessions and clients
      hold a chain.  \<open>Chain_Line\<close>: chains of modules that send one packet on for each they get; the locale \<open>packet_stage\<close> is
      what such a module promises, interpreted for copy and base64, and a packet is followed task by task through the chain.

    \<^item> \<open>Module_Tester\<close>: the run of \<open>src/module_tester/main.cpp\<close> over its two chains.

    \<^item> \<open>Kernel\<close>: \<open>src/core/kernel.cpp\<close>, the callback table and the epoll loop.

    \<^item> \<open>Endpoint\<close>: what both ends share: the environment of a process (kernel, sockets, clock and the answers of the system
      calls to come) and the data connections.  \<open>Control_Seq\<close>: the reordering of control messages.

    \<^item> \<open>Session_Io\<close>, \<open>Session\<close>, \<open>Session_Loop\<close>: \<open>src/server/session.cpp\<close>, its output side, its handlers, and its entry points
      from the event loop.  \<open>Session_Auth\<close>, \<open>Session_Gate\<close>, \<open>Session_Conn\<close>: properties of the authentication, of the
      backpressure towards the targets, and of targets and connections over their life.

    \<^item> \<open>Server\<close>, \<open>Server_Props\<close>: \<open>src/server/server.cpp\<close>, with all its sessions, and its properties.

    \<^item> \<open>Client_Messages\<close>: the payloads the client builds for the session.  \<open>Client_Io\<close>, \<open>Client\<close>, \<open>Client_Loop\<close>:
      \<open>src/client/client.cpp\<close>, divided as the session is.  \<open>Client_Auth\<close>, \<open>Client_Props\<close>: its properties.

    \<^item> \<open>Ends_Alike\<close>: client and session run the same protocol on their data connections.

    \<^item> \<open>Tunnel\<close>, \<open>Tunnel_Setup\<close>, \<open>Tunnel_Up\<close>, \<open>Tunnel_Connect\<close>, \<open>Tunnel_Data\<close>, \<open>Tunnel_Back\<close>: client and session run against each
      other, from the first challenge over an open external connection to data in both directions.

  \<^bold>\<open>How state and code correspond.\<close>  A class is a record with the fields of the class (\<open>Chain\<close>, \<open>Session\<close>, \<open>Client\<close>,
  \<open>Server\<close>, \<open>Kernel\<close>, \<open>WriteBuffer\<close>); where two records would have a field of the same name one of them carries a prefix.  A
  member function is a function from the state to the new state.  A callback in the kernel's table is a value of a datatype
  (\<open>session_handler\<close>, \<open>client_handler\<close>) that says which function is to be called, and \<open>session_call\<close>, \<open>client_call\<close> and
  \<open>server_call\<close> call it; the table of the server tags the callbacks of a session with the id of the session.  A chain and the
  session or client that owns it form a pair, because a chain calls back into its owner through \<open>KernelAPI\<close>.  System calls
  take their answers from lists in \<open>Env\<close>, so that a theorem about all environments is one about all behaviours of the
  network.  Integers have the width of the source; \<open>int\<close> in the sources is \<open>int\<close> with \<open>int32\<close> where a conversion narrows.
  What the sources leave undefined (a read behind a buffer, a double free, a missing module) is \<open>None\<close>.

  \<^bold>\<open>What is shown.\<close>

    \<^item> The whole: a client and a session with the same password bring up a tunnel, message by message, and a connection that is
      accepted at the client's listener is connected at the server; what arrives on it is what the target gets, and
      what the target answers is what it gets back, through both chains and the acknowledged data connection (\<open>Tunnel_Up\<close>,
      \<open>Tunnel_Connect\<close>, \<open>Tunnel_Data\<close>, \<open>Tunnel_Back\<close>).

    \<^item> Authentication in both directions: without the right answer to its challenge neither end gets beyond the
      authentication, whatever bytes arrive in whatever pieces (\<open>Session_Auth\<close>, \<open>Client_Auth\<close>).

    \<^item> Transport: control messages and frames are read back exactly as they were written, however the stream is cut; control
      messages are applied in the order of sending; data frames are passed on in order and once; write buffers neither
      lose, duplicate nor reorder bytes; both ends treat their connections alike; a redialled connection carries the
      unacknowledged frames.

    \<^item> Chains: byte counter, in-flight counter and backpressure flags are exact in every reachable state; destruction drains
      the chain; what one chain splits the other reassembles for every order of arrival; the module tester passes every chain of copy
      and base64 modules.

    \<^item> Event loop and resources: epoll watches what the callback table asks for; targets are read exactly while no
      pause is in force; connect requests and greetings are bounded in time; a destroyed session releases its descriptors;
      the server's states are well-formed.

    \<^item> Deviations: theorems of the kind \<open>error\<close> show, for every state of a described form, where the code does not do what it
      means to, for example that a gap in the data frames is acknowledged and never repaired, that the loss of a secondary
      connection ends the session but not the client, or that the module tester undoes the modules of a chain in the wrong order.

  \<^bold>\<open>Loops.\<close>  A loop whose end depends on the data (flushing, splitting, merging, parsing a stream, retransmission) is a
  \<open>partial_function (option)\<close>, so that not to return is \<open>None\<close>; where a theorem says what such a loop does it also says that
  it returns.  The destructor of a chain waits for its workers and takes the number of worker steps as fuel; one step per queued
  task is proved to be enough.  The waits of the module tester take a list of rounds, each with the number of tasks the worker
  gets done; as many tasks as there are modules are proved to be enough.  Loops over a list (accepting, the tick) end with the list.  The event loops run over a given list
  of \<open>epoll_wait\<close> answers.

  \<^bold>\<open>Not modelled.\<close>  The logger and the trace output (\<open>src/common/logger.cpp\<close>), since nothing reads what they write.  The mutexes:
  every critical section, and every callback of the event loop, is one step.  The installation of signal handlers.  The modules compress,
  crypto and limit, written in Nim, Rust and Zig; a chain knows them only through the module interface.  SHA-256, \<open>dlopen\<close> and
  the base64 codec of \<open>src/modules/base64/third_party\<close> are parameters, as are the bytes of the random generator of the tester.  Tests and scripts.  Printed help.
\<close>

end
